(* ===== verification/Prelude.thy ===== *)
theory Prelude
  imports
    Main
    "HOL-Library.Word"
    "HOL-Library.Char_ord"
    "HOL-Library.List_Lexorder"
    "HOL-Library.Product_Lexorder"
    "HOL-Library.Multiset"
begin

text \<open>
  What every theory of the development shares: Go's 64-bit integers with their wrap-around,
  Go's \<open>error\<close> results as values of a sum type, the comparison functions of the packages
  \<open>cmp\<close> and \<open>slices\<close> with a locale of their laws, the duplicate checks the
  validators make with a \<open>seen\<close> map, and generic lemmas on lists and maps.
\<close>

named_theorems go_arith \<open>Wrap-around arithmetic on 64-bit integers\<close>
named_theorems res_simps \<open>Evaluation of the result type of fallible calls\<close>

section \<open>Results of fallible calls\<close>

text \<open>
  A Go function that returns a value and an \<open>error\<close> returns \<open>Inl e\<close> where the
  code returns the error \<open>e\<close>, and \<open>Inr v\<close> where it returns \<open>v\<close> and a nil
  error. \<open>rbind\<close> is the early return of \<open>if err != nil\<close>.
\<close>

fun rbind :: "'e + 'a \<Rightarrow> ('a \<Rightarrow> 'e + 'b) \<Rightarrow> 'e + 'b" where
  "rbind (Inl e) f = Inl e"
| "rbind (Inr v) f = f v"

fun rmap_err :: "('e \<Rightarrow> 'f) \<Rightarrow> 'e + 'a \<Rightarrow> 'f + 'a" where
  "rmap_err w (Inl e) = Inl (w e)"
| "rmap_err w (Inr v) = Inr v"

definition guard_err :: "bool \<Rightarrow> 'e \<Rightarrow> 'e + unit" where
  "guard_err bad e = (if bad then Inl e else Inr ())"

lemma rbind_Inr_iff [res_simps]:
  "rbind r f = Inr w \<longleftrightarrow> (\<exists>v. r = Inr v \<and> f v = Inr w)"
  by (cases r) auto

lemma rbind_Inl_iff:
  "rbind r f = Inl e \<longleftrightarrow> r = Inl e \<or> (\<exists>v. r = Inr v \<and> f v = Inl e)"
  by (cases r) auto

lemma rmap_err_Inr_iff [res_simps]: "rmap_err w r = Inr v \<longleftrightarrow> r = Inr v"
  by (cases r) auto

lemma rmap_err_Inl_iff: "rmap_err w r = Inl e \<longleftrightarrow> (\<exists>e'. r = Inl e' \<and> e = w e')"
  by (cases r) auto

lemma guard_err_Inr_iff [res_simps]: "guard_err bad e = Inr u \<longleftrightarrow> \<not> bad"
  by (simp add: guard_err_def)

lemma guard_err_False [simp]: "guard_err False e = Inr ()"
  and guard_err_True [simp]: "guard_err True e = Inl e"
  by (simp_all add: guard_err_def)

text \<open>A loop whose body may return an error: the first failing element decides.\<close>

fun rfor :: "('a \<Rightarrow> 'e + unit) \<Rightarrow> 'a list \<Rightarrow> 'e + unit" where
  "rfor body [] = Inr ()"
| "rfor body (x # xs) = rbind (body x) (\<lambda>_. rfor body xs)"

lemma rfor_Inr_iff [res_simps]: "rfor body xs = Inr u \<longleftrightarrow> (\<forall>x \<in> set xs. body x = Inr ())"
  by (induction xs) (auto simp: res_simps)

section \<open>64-bit signed integers\<close>

text \<open>Go's \<open>int\<close> and \<open>int64\<close> wrap around; \<open>i64\<close> is the value a result takes.\<close>

definition i64 :: "int \<Rightarrow> int" where
  "i64 x = signed_take_bit 63 x"

definition in_i64 :: "int \<Rightarrow> bool" where
  "in_i64 x \<longleftrightarrow> - (2 ^ 63) \<le> x \<and> x < 2 ^ 63"

lemma i64_id [go_arith]: "in_i64 x \<Longrightarrow> i64 x = x"
  by (simp add: i64_def in_i64_def signed_take_bit_int_eq_self)

lemma in_i64_i64 [simp, go_arith]: "in_i64 (i64 x)"
  unfolding in_i64_def i64_def
  using signed_take_bit_int_greater_eq_minus_exp [of 63 x] signed_take_bit_int_less_exp [of 63 x]
  by simp

lemma in_i64_0 [simp]: "in_i64 0"
  by (simp add: in_i64_def)

lemma in_i64_max [simp]: "in_i64 a \<Longrightarrow> in_i64 b \<Longrightarrow> in_i64 (max a b)"
  by (simp add: max_def)

lemma in_i64_diff_nonneg: "in_i64 a \<Longrightarrow> 0 \<le> b \<Longrightarrow> b \<le> a \<Longrightarrow> in_i64 (a - b)"
  by (simp add: in_i64_def)

section \<open>Comparison functions and stable sorting\<close>

text \<open>\<open>cmp.Compare\<close> and \<open>cmp.Or\<close> of Go's standard library.\<close>

definition cmp_compare :: "'a :: linorder \<Rightarrow> 'a \<Rightarrow> int" where
  "cmp_compare a b = (if a < b then -1 else if b < a then 1 else 0)"

definition cmp_or :: "int \<Rightarrow> int \<Rightarrow> int" where
  "cmp_or a b = (if a \<noteq> 0 then a else b)"

lemma cmp_compare_le_0 [simp]: "cmp_compare a b \<le> 0 \<longleftrightarrow> a \<le> b"
  by (auto simp: cmp_compare_def)

lemma cmp_compare_eq_0 [simp]: "cmp_compare a b = 0 \<longleftrightarrow> a = b"
  by (auto simp: cmp_compare_def)

lemma cmp_or_le_0:
  "cmp_or (cmp_compare a b) (cmp_compare c d) \<le> 0 \<longleftrightarrow> (a, c) \<le> (b, d)"
  by (auto simp: cmp_or_def cmp_compare_def less_le_not_le)

text \<open>
  \<open>slices.SortStableFunc\<close>: the elements ordered by the comparison, equal ones in their
  original order. Insertion from the right is such a sort, and \<open>key_comparator\<close> shows
  that its result is the only one a stable sort can have.
\<close>

fun insert_by :: "('a \<Rightarrow> 'a \<Rightarrow> int) \<Rightarrow> 'a \<Rightarrow> 'a list \<Rightarrow> 'a list" where
  "insert_by cmp x [] = [x]"
| "insert_by cmp x (y # ys) = (if cmp x y \<le> 0 then x # y # ys else y # insert_by cmp x ys)"

definition sort_stable :: "('a \<Rightarrow> 'a \<Rightarrow> int) \<Rightarrow> 'a list \<Rightarrow> 'a list" where
  "sort_stable cmp xs = foldr (insert_by cmp) xs []"

lemma mset_insert_by [simp]: "mset (insert_by cmp x ys) = add_mset x (mset ys)"
  by (induction ys) auto

lemma mset_sort_stable [simp]: "mset (sort_stable cmp xs) = mset xs"
  by (induction xs) (simp_all add: sort_stable_def)

lemma set_sort_stable [simp]: "set (sort_stable cmp xs) = set xs"
  by (metis mset_sort_stable set_mset_mset)

lemma length_sort_stable [simp]: "length (sort_stable cmp xs) = length xs"
  by (metis mset_sort_stable size_mset)

lemma distinct_sort_stable [simp]: "distinct (sort_stable cmp xs) = distinct xs"
  by (metis mset_sort_stable mset_eq_imp_distinct_iff)

text \<open>The contract of a comparison function: a total preorder on the elements.\<close>

locale comparator =
  fixes cmp :: "'a \<Rightarrow> 'a \<Rightarrow> int"
  assumes cmp_total: "cmp x y \<le> 0 \<or> cmp y x \<le> 0"
    and cmp_trans: "cmp x y \<le> 0 \<Longrightarrow> cmp y z \<le> 0 \<Longrightarrow> cmp x z \<le> 0"
begin

lemma sorted_insert_by:
  "sorted_wrt (\<lambda>a b. cmp a b \<le> 0) ys \<Longrightarrow> sorted_wrt (\<lambda>a b. cmp a b \<le> 0) (insert_by cmp x ys)"
proof (induction ys)
  case (Cons y ys)
  have mem: "set (insert_by cmp x ys) = insert x (set ys)"
    by (metis mset_insert_by set_mset_add_mset_insert set_mset_mset)
  show ?case
  proof (cases "cmp x y \<le> 0")
    case True
    with Cons.prems show ?thesis by (auto intro: cmp_trans)
  next
    case False
    with cmp_total have "cmp y x \<le> 0" by blast
    with False Cons mem show ?thesis by auto
  qed
qed simp

lemma sorted_sort_stable: "sorted_wrt (\<lambda>a b. cmp a b \<le> 0) (sort_stable cmp xs)"
  by (induction xs) (simp_all add: sort_stable_def sorted_insert_by)

end

text \<open>
  Most comparisons of the program order their elements by a key in a linear order. Sorting is
  then the library's \<open>sort_key\<close>, whose stability and uniqueness are theorems there.
\<close>

locale key_comparator =
  fixes cmp :: "'a \<Rightarrow> 'a \<Rightarrow> int" and key :: "'a \<Rightarrow> 'k :: linorder"
  assumes cmp_key: "cmp x y \<le> 0 \<longleftrightarrow> key x \<le> key y"

sublocale key_comparator \<subseteq> comparator cmp
  by unfold_locales (auto simp: cmp_key)

context key_comparator
begin

lemma insert_by_key: "insert_by cmp x ys = insort_key key x ys"
  by (induction ys) (simp_all add: cmp_key)

lemma sort_stable_key: "sort_stable cmp xs = sort_key key xs"
  by (simp add: sort_stable_def sort_key_def insert_by_key [abs_def])

lemma sorted_keys: "sorted (map key (sort_stable cmp xs))"
  by (simp add: sort_stable_key)

lemma stable: "filter (\<lambda>y. key y = k) (sort_stable cmp xs) = filter (\<lambda>y. key y = k) xs"
  by (simp add: sort_stable_key sort_key_stable)

lemma unique:
  assumes "mset ys = mset xs" and "sorted (map key ys)"
    and "\<And>k. filter (\<lambda>y. key y = k) ys = filter (\<lambda>y. key y = k) xs"
  shows "ys = sort_stable cmp xs"
proof -
  have "filter (\<lambda>y. key k = key y) ys = filter (\<lambda>y. key k = key y) xs" for k
    using assms(3) [of "key k"] by (simp only: eq_commute [of "key k"])
  with assms(1,2) have "sort_key key xs = ys"
    by (intro properties_for_sort_key) auto
  then show ?thesis by (simp add: sort_stable_key)
qed

end

section \<open>Duplicate checks\<close>

text \<open>
  The validators keep a \<open>map[K]bool\<close> of what they have seen. \<open>fresh_keys\<close> is what
  such a loop establishes when it ends without an error.
\<close>

definition fresh_keys :: "'k set \<Rightarrow> 'k list \<Rightarrow> bool" where
  "fresh_keys seen ks \<longleftrightarrow> distinct ks \<and> set ks \<inter> seen = {}"

lemma fresh_keys_Nil [simp]: "fresh_keys seen []"
  by (simp add: fresh_keys_def)

lemma fresh_keys_Cons [simp]:
  "fresh_keys seen (k # ks) \<longleftrightarrow> k \<notin> seen \<and> fresh_keys (insert k seen) ks"
  by (auto simp: fresh_keys_def)

lemma fresh_keys_empty [simp]: "fresh_keys {} ks \<longleftrightarrow> distinct ks"
  by (simp add: fresh_keys_def)

section \<open>Lists\<close>

text \<open>\<open>for i, x := range xs\<close>: the elements with their positions.\<close>

definition indexed :: "'a list \<Rightarrow> (nat \<times> 'a) list" where
  "indexed xs = zip [0..<length xs] xs"

lemma length_indexed [simp]: "length (indexed xs) = length xs"
  by (simp add: indexed_def)

lemma map_snd_indexed [simp]: "map snd (indexed xs) = xs"
  by (simp add: indexed_def)

lemma map_fst_indexed [simp]: "map fst (indexed xs) = [0..<length xs]"
  by (simp add: indexed_def)

lemma nth_indexed [simp]: "i < length xs \<Longrightarrow> indexed xs ! i = (i, xs ! i)"
  by (simp add: indexed_def)

lemma set_indexed: "set (indexed xs) = {(i, xs ! i) |i. i < length xs}"
  by (force simp: indexed_def set_zip)

lemma ball_indexed: "(\<forall>x \<in> set (indexed xs). P (snd x)) \<longleftrightarrow> (\<forall>x \<in> set xs. P x)"
proof -
  have "(\<forall>x \<in> snd ` set (indexed xs). P x) \<longleftrightarrow> (\<forall>x \<in> set (indexed xs). P (snd x))" by blast
  moreover have "snd ` set (indexed xs) = set xs" by (simp only: list.set_map [symmetric] map_snd_indexed)
  ultimately show ?thesis by simp
qed

lemma bex_indexed: "(\<exists>x \<in> set (indexed xs). P x) \<longleftrightarrow> (\<exists>i < length xs. P (i, xs ! i))"
  unfolding set_indexed by blast

lemma map_indexed_snd: "map (\<lambda>(i, x). f x) (indexed xs) = map f xs"
proof -
  have "map f (map snd (indexed xs)) = map f xs" by (simp only: map_snd_indexed)
  then show ?thesis by (simp only: map_map comp_def case_prod_unfold)
qed

text \<open>A finer name for the same elements keeps them apart.\<close>

lemma distinct_map_finer:
  "distinct (map g xs) \<Longrightarrow> (\<And>x y. x \<in> set xs \<Longrightarrow> y \<in> set xs \<Longrightarrow> f x = f y \<Longrightarrow> g x = g y)
    \<Longrightarrow> distinct (map f xs)"
  unfolding distinct_map inj_on_def by blast

lemma distinct_indexed_keys:
  assumes "\<And>i x j y. f (i, x) = f (j, y) \<Longrightarrow> i = j"
  shows "distinct (map f (indexed xs))"
proof (rule distinct_map_finer [where g = fst])
  show "distinct (map fst (indexed xs))" by simp
  fix p q
  assume "f p = f q"
  with assms show "fst p = fst q" by (cases p; cases q) auto
qed

lemma set_map_indexed: "y \<in> set (map f (indexed xs)) \<Longrightarrow> \<exists>i x. x \<in> set xs \<and> y = f (i, x)"
  using nth_mem by (fastforce simp: set_indexed)

lemma map_filter_cong:
  "(\<And>x. x \<in> set xs \<Longrightarrow> f x = g x) \<Longrightarrow> List.map_filter f xs = List.map_filter g xs"
  by (induction xs) (auto simp: List.map_filter_simps split: option.split)

lemma in_map_filter: "y \<in> set (List.map_filter f xs) \<longleftrightarrow> (\<exists>x \<in> set xs. f x = Some y)"
  by (induction xs) (auto simp: List.map_filter_simps split: option.splits)

text \<open>Entries that carry the position of their element come out in strictly increasing order.\<close>

lemma map_filter_zip_keys:
  assumes "\<forall>i x k v. h (i, x) = Some (k, v) \<longrightarrow> k = int (c + i)"
  shows "sorted_wrt (<) (map fst (List.map_filter h (zip [m..<m + length xs] xs)))
    \<and> (\<forall>k \<in> set (map fst (List.map_filter h (zip [m..<m + length xs] xs))).
        int (c + m) \<le> k \<and> k < int (c + m + length xs))"
proof (induction xs arbitrary: m)
  case (Cons x xs)
  have split: "zip [m..<m + length (x # xs)] (x # xs) = (m, x) # zip [Suc m..<Suc m + length xs] xs"
    by (simp add: upt_rec)
  from Cons [of "Suc m"] show ?case
    unfolding split using assms
    by (fastforce simp: List.map_filter_simps split: option.splits)
qed (simp add: List.map_filter_simps)

lemma map_filter_indexed_keys:
  assumes "\<forall>i x k v. h (i, x) = Some (k, v) \<longrightarrow> k = int (c + i)"
  shows "sorted_wrt (<) (map fst (List.map_filter h (indexed xs)))
    \<and> (\<forall>k \<in> set (map fst (List.map_filter h (indexed xs))). int c \<le> k \<and> k < int (c + length xs))"
  using map_filter_zip_keys [OF assms, of 0 xs] by (simp add: indexed_def)

end
