(* ===== verification/Go_Text.thy ===== *)
theory Go_Text
  imports Prelude
begin

text \<open>
  The text functions of Go's standard library that the program uses, on strings as lists of
  bytes: prefixes and suffixes, splitting and joining, searching for a byte, and the decimal
  rendering of integers (\<open>strconv.Itoa\<close>, \<open>fmt\<close>'s \<open>%d\<close>) with its inverse.
  White space is the ASCII white space; the multi-byte space characters of Unicode that
  \<open>strings.TrimSpace\<close> also removes are not treated as spaces.
\<close>

section \<open>Prefixes, suffixes, searching\<close>

definition has_prefix :: "string \<Rightarrow> string \<Rightarrow> bool" where
  "has_prefix p s \<longleftrightarrow> List.take (length p) s = p"

definition trim_prefix :: "string \<Rightarrow> string \<Rightarrow> string" where
  "trim_prefix p s = (if has_prefix p s then drop (length p) s else s)"

definition cut_prefix :: "string \<Rightarrow> string \<Rightarrow> string option" where
  "cut_prefix p s = (if has_prefix p s then Some (drop (length p) s) else None)"

definition has_suffix :: "string \<Rightarrow> string \<Rightarrow> bool" where
  "has_suffix p s \<longleftrightarrow> has_prefix (rev p) (rev s)"

definition trim_suffix :: "string \<Rightarrow> string \<Rightarrow> string" where
  "trim_suffix p s = (if has_suffix p s then List.take (length s - length p) s else s)"

fun contains_str :: "string \<Rightarrow> string \<Rightarrow> bool" where
  "contains_str sub [] \<longleftrightarrow> sub = []"
| "contains_str sub (c # s) \<longleftrightarrow> has_prefix sub (c # s) \<or> contains_str sub s"

text \<open>\<open>strings.LastIndex\<close> of a one-byte text, \<open>-1\<close> when it does not occur.\<close>

fun last_index :: "char \<Rightarrow> string \<Rightarrow> int" where
  "last_index c [] = -1"
| "last_index c (x # xs) =
     (let i = last_index c xs in if 0 \<le> i then i + 1 else if x = c then 0 else -1)"

lemma has_prefix_iff: "has_prefix p s \<longleftrightarrow> (\<exists>t. s = p @ t)"
  unfolding has_prefix_def by (metis append_eq_conv_conj append_take_drop_id)

lemma has_prefix_append [simp]: "has_prefix p (p @ s)"
  by (auto simp: has_prefix_iff)

lemma trim_prefix_append [simp]: "trim_prefix p (p @ s) = s"
  by (simp add: trim_prefix_def)

lemma cut_prefix_Some_iff: "cut_prefix p s = Some t \<longleftrightarrow> s = p @ t"
  by (auto simp: cut_prefix_def has_prefix_iff)

lemma cut_prefix_append [simp]: "cut_prefix p (p @ s) = Some s"
  by (simp add: cut_prefix_Some_iff)

lemma cut_prefix_None_iff: "cut_prefix p s = None \<longleftrightarrow> \<not> has_prefix p s"
  by (simp add: cut_prefix_def)

lemma last_index_range: "-1 \<le> last_index c s \<and> last_index c s < int (length s)"
  by (induction s) (auto simp: Let_def)

lemma last_index_none: "last_index c s = -1 \<longleftrightarrow> c \<notin> set s"
proof (induction s)
  case (Cons x s)
  with last_index_range [of c s] show ?case by (auto simp: Let_def)
qed simp

lemma last_index_append:
  "c \<notin> set t \<Longrightarrow> last_index c (s @ c # t) = int (length s)"
proof (induction s)
  case Nil
  then have "last_index c t = -1" by (simp add: last_index_none)
  then show ?case by simp
qed simp

section \<open>Splitting and joining\<close>

fun join :: "string \<Rightarrow> string list \<Rightarrow> string" where
  "join sep [] = []"
| "join sep [x] = x"
| "join sep (x # y # ys) = x @ sep @ join sep (y # ys)"

text \<open>\<open>strings.Split\<close> at a one-byte separator.\<close>

fun split_on :: "char \<Rightarrow> string \<Rightarrow> string list" where
  "split_on c [] = [[]]"
| "split_on c (x # xs) =
     (if x = c then [] # split_on c xs
      else case split_on c xs of [] \<Rightarrow> [[x]] | p # ps \<Rightarrow> (x # p) # ps)"

lemma split_on_nonempty [simp]: "split_on c s \<noteq> []"
  by (induction s) (auto split: list.splits)

lemma join_split_on: "join [c] (split_on c s) = s"
proof (induction s)
  case (Cons x s)
  then show ?case by (cases "split_on c s"; cases "tl (split_on c s)") (auto split: list.splits)
qed simp

lemma split_on_no_sep: "\<forall>p \<in> set (split_on c s). c \<notin> set p"
proof (induction s)
  case (Cons x s)
  then show ?case by (cases "split_on c s") auto
qed simp

lemma split_on_none: "c \<notin> set s \<Longrightarrow> split_on c s = [s]"
  by (induction s) auto

lemma split_on_step: "c \<notin> set a \<Longrightarrow> split_on c (a @ c # b) = a # split_on c b"
  by (induction a) auto

lemma split_on_last_none: "split_on c (last (split_on c s)) = [last (split_on c s)]"
  by (rule split_on_none) (metis last_in_set split_on_no_sep split_on_nonempty)

lemma split_on_append:
  "split_on c (s @ t) = butlast (split_on c s) @ (case split_on c t of
     p # ps \<Rightarrow> (last (split_on c s) @ p) # ps)"
proof (induction s)
  case Nil
  show ?case by (cases "split_on c t") auto
next
  case (Cons x s)
  obtain p ps where st: "split_on c s = p # ps" by (cases "split_on c s") auto
  obtain q qs where tt: "split_on c t = q # qs" by (cases "split_on c t") auto
  from Cons st tt show ?case by (cases ps) auto
qed

section \<open>White space\<close>

definition is_space :: "char \<Rightarrow> bool" where
  "is_space c \<longleftrightarrow> of_char c \<in> {9, 10, 11, 12, 13, 32 :: nat}"

definition trim_space :: "string \<Rightarrow> string" where
  "trim_space s = rev (dropWhile is_space (rev (dropWhile is_space s)))"

lemma trim_space_id:
  assumes "s = [] \<or> \<not> is_space (hd s) \<and> \<not> is_space (last s)"
  shows "trim_space s = s"
proof (cases s rule: rev_cases)
  case (snoc t c)
  with assms have "dropWhile is_space s = s" "dropWhile is_space (rev s) = rev s"
    by (cases t; simp)+
  then show ?thesis by (simp add: trim_space_def)
qed (simp add: trim_space_def)

section \<open>Decimal numbers\<close>

definition digit_char :: "nat \<Rightarrow> char" where
  "digit_char d = char_of (48 + d)"

definition is_digit :: "char \<Rightarrow> bool" where
  "is_digit c \<longleftrightarrow> 48 \<le> (of_char c :: nat) \<and> (of_char c :: nat) \<le> 57"

definition digit_val :: "char \<Rightarrow> nat" where
  "digit_val c = of_char c - 48"

fun nat_str :: "nat \<Rightarrow> string" where
  "nat_str n = (if n < 10 then [digit_char n] else nat_str (n div 10) @ [digit_char (n mod 10)])"

declare nat_str.simps [simp del]

definition digits_val :: "string \<Rightarrow> nat" where
  "digits_val s = foldl (\<lambda>acc c. 10 * acc + digit_val c) 0 s"

text \<open>\<open>strconv.Itoa\<close>, \<open>fmt.Sprintf("%d", ...)\<close>\<close>

definition itoa :: "int \<Rightarrow> string" where
  "itoa i = (if i < 0 then CHR ''-'' # nat_str (nat (- i)) else nat_str (nat i))"

lemma of_char_digit_char: "d < 10 \<Longrightarrow> (of_char (digit_char d) :: nat) = 48 + d"
  by (simp add: digit_char_def)

lemma digit_val_digit_char [simp]: "d < 10 \<Longrightarrow> digit_val (digit_char d) = d"
  by (simp add: digit_val_def of_char_digit_char)

lemma is_digit_digit_char [simp]: "d < 10 \<Longrightarrow> is_digit (digit_char d)"
  by (simp add: is_digit_def of_char_digit_char)

lemma digits_val_snoc [simp]: "digits_val (s @ [c]) = 10 * digits_val s + digit_val c"
  by (simp add: digits_val_def)

lemma digits_val_nat_str [simp]: "digits_val (nat_str n) = n"
proof (induction n rule: nat_str.induct)
  case (1 n)
  show ?case
  proof (cases "n < 10")
    case True
    then show ?thesis by (subst nat_str.simps) (simp add: digits_val_def)
  next
    case False
    with 1 show ?thesis by (subst nat_str.simps) simp
  qed
qed

lemma nat_str_digits: "\<forall>c \<in> set (nat_str n). is_digit c"
proof (induction n rule: nat_str.induct)
  case (1 n)
  then show ?case by (cases "n < 10"; subst nat_str.simps) auto
qed

lemma nat_str_nonempty [simp]: "nat_str n \<noteq> []"
  by (subst nat_str.simps) simp

lemma nat_str_inj [simp]: "nat_str m = nat_str n \<longleftrightarrow> m = n"
  by (metis digits_val_nat_str)

lemma digit_not_minus [simp]: "\<not> is_digit CHR ''-''"
  and digit_not_slash [simp]: "\<not> is_digit CHR ''/''"
  and digit_not_underscore [simp]: "\<not> is_digit CHR ''_''"
  and digit_not_colon [simp]: "\<not> is_digit CHR '':''"
  by (simp_all add: is_digit_def)

lemma is_digit_not_space: "is_digit c \<Longrightarrow> \<not> is_space c"
  by (auto simp: is_digit_def is_space_def)

lemma itoa_nonneg [simp]: "itoa (int n) = nat_str n"
  by (simp add: itoa_def)

lemma itoa_nonempty [simp]: "itoa i \<noteq> []"
  by (simp add: itoa_def)

lemma nat_str_hd_digit [simp]: "is_digit (hd (nat_str n))"
  using nat_str_digits [of n] by (cases "nat_str n") (use nat_str_nonempty [of n] in auto)

lemma itoa_chars: "c \<in> set (itoa i) \<Longrightarrow> is_digit c \<or> c = CHR ''-''"
  using nat_str_digits by (auto simp: itoa_def split: if_splits)

lemma itoa_no: "\<not> is_digit c \<Longrightarrow> c \<noteq> CHR ''-'' \<Longrightarrow> c \<notin> set (itoa i)"
  using itoa_chars by blast

lemma itoa_inj [simp]: "itoa i = itoa j \<longleftrightarrow> i = j"
proof
  assume eq: "itoa i = itoa j"
  have neg: "hd (itoa k) = CHR ''-'' \<longleftrightarrow> k < 0" for k
    using nat_str_hd_digit [of "nat k"] by (auto simp: itoa_def simp del: nat_str_hd_digit)
  from eq neg have "i < 0 \<longleftrightarrow> j < 0" by metis
  with eq show "i = j" by (auto simp: itoa_def split: if_splits)
qed simp

text \<open>
  A key built as \<open>text + separator + number\<close> names both parts when the separator is no
  character of a number.
\<close>

lemma sep_itoa_inj:
  assumes "\<not> is_digit c" "c \<noteq> CHR ''-''"
    and "s @ c # itoa i = t @ c # itoa j"
  shows "s = t \<and> i = j"
proof -
  have no: "c \<notin> set (itoa k)" for k using assms(1,2) by (rule itoa_no)
  have "last_index c (s @ c # itoa i) = int (length s)"
    "last_index c (t @ c # itoa j) = int (length t)"
    using no by (simp_all add: last_index_append)
  with assms(3) have "length s = length t" by simp
  with assms(3) show ?thesis by simp
qed

end
