(* ===== verification/Bytes.thy ===== *)
theory Bytes
  imports Go_Text
begin

text \<open>
  Byte strings and the little-endian layouts of \<open>encoding/binary\<close>: \<open>[]byte\<close> is a list
  of 8-bit words, \<open>uint64\<close> a 64-bit word. \<open>le_bytes n x\<close> is \<open>x\<close> in \<open>n\<close>
  little-endian bytes and \<open>le_nat\<close> reads such bytes back.
\<close>

type_synonym byte = "8 word"
type_synonym bytes = "8 word list"
type_synonym u64 = "64 word"

section \<open>Text as bytes\<close>

definition byte_of_char :: "char \<Rightarrow> byte" where
  "byte_of_char c = word_of_nat (of_char c)"

definition char_of_byte :: "byte \<Rightarrow> char" where
  "char_of_byte b = char_of (unat b)"

definition bytes_of :: "string \<Rightarrow> bytes" where
  "bytes_of s = map byte_of_char s"

definition text_of :: "bytes \<Rightarrow> string" where
  "text_of bs = map char_of_byte bs"

lemma unat_byte_of_char [simp]: "unat (byte_of_char c) = of_char c"
  by (simp add: byte_of_char_def unat_of_nat)

lemma char_of_byte_of_char [simp]: "char_of_byte (byte_of_char c) = c"
  by (simp add: char_of_byte_def)

lemma unat_byte_less [simp]: "unat (b :: byte) < 256"
  using unsigned_less [of b] by simp

lemma byte_of_char_of_byte [simp]: "byte_of_char (char_of_byte b) = b"
  by (simp add: byte_of_char_def char_of_byte_def)

lemma text_of_bytes_of [simp]: "text_of (bytes_of s) = s"
  by (simp add: text_of_def bytes_of_def o_def)

lemma bytes_of_text_of [simp]: "bytes_of (text_of bs) = bs"
  by (simp add: text_of_def bytes_of_def o_def)

lemma length_bytes_of [simp]: "length (bytes_of s) = length s"
  by (simp add: bytes_of_def)

lemma length_text_of [simp]: "length (text_of bs) = length bs"
  by (simp add: text_of_def)

lemma text_of_eq_iff: "text_of bs = s \<longleftrightarrow> bs = bytes_of s"
  by auto

section \<open>Little-endian integers\<close>

fun le_bytes :: "nat \<Rightarrow> nat \<Rightarrow> bytes" where
  "le_bytes 0 x = []"
| "le_bytes (Suc n) x = word_of_nat (x mod 256) # le_bytes n (x div 256)"

fun le_nat :: "bytes \<Rightarrow> nat" where
  "le_nat [] = 0"
| "le_nat (b # bs) = unat b + 256 * le_nat bs"

lemma length_le_bytes [simp]: "length (le_bytes n x) = n"
  by (induction n arbitrary: x) auto

lemma le_nat_le_bytes: "le_nat (le_bytes n x) = x mod 256 ^ n"
proof (induction n arbitrary: x)
  case (Suc n)
  have "x mod 256 + 256 * (x div 256 mod 256 ^ n) = x mod (256 * 256 ^ n)"
    by (simp add: mod_mult2_eq)
  with Suc show ?case by (simp add: unat_of_nat)
qed simp

lemma le_nat_less: "le_nat bs < 256 ^ length bs"
proof (induction bs)
  case (Cons b bs)
  have "unat b < 256" and "le_nat bs + 1 \<le> 256 ^ length bs" using Cons by simp_all
  then have "unat b + 256 * le_nat bs < 256 * 256 ^ length bs" by linarith
  then show ?case by simp
qed simp

lemma le_bytes_le_nat: "le_bytes (length bs) (le_nat bs) = bs"
  by (induction bs) simp_all

lemma le_nat_append_zeros [simp]: "le_nat (bs @ replicate k 0) = le_nat bs"
proof (induction bs)
  case Nil
  show ?case by (induction k) auto
qed simp

text \<open>\<open>binary.LittleEndian.PutUint64\<close>, \<open>AppendUint64\<close> and \<open>Uint64\<close>.\<close>

definition put_u64 :: "u64 \<Rightarrow> bytes" where
  "put_u64 w = le_bytes 8 (unat w)"

definition get_u64 :: "bytes \<Rightarrow> u64" where
  "get_u64 bs = word_of_nat (le_nat bs)"

lemma length_put_u64 [simp]: "length (put_u64 w) = 8"
  by (simp add: put_u64_def)

lemma unat_u64_less: "unat (w :: u64) < 256 ^ 8"
  using unsigned_less [of w] by simp

lemma get_put_u64 [simp]: "get_u64 (put_u64 w) = w"
proof -
  have "unat w mod 256 ^ 8 = unat w" using unat_u64_less by (rule mod_less)
  then show ?thesis by (simp only: get_u64_def put_u64_def le_nat_le_bytes) simp
qed

lemma put_u64_inj [simp]: "put_u64 v = put_u64 w \<longleftrightarrow> v = w"
  by (metis get_put_u64)

lemma get_u64_word_of_le:
  "length bs \<le> 8 \<Longrightarrow> unat (get_u64 bs) = le_nat bs"
proof -
  assume "length bs \<le> 8"
  then have "256 ^ length bs \<le> (256 :: nat) ^ 8" by (rule power_increasing) simp
  with le_nat_less [of bs] have "le_nat bs < 256 ^ 8" by linarith
  then show ?thesis by (simp add: get_u64_def unat_of_nat)
qed

section \<open>Concatenations of fixed-width fields\<close>

lemma length_concat_put_u64 [simp]: "length (concat (map put_u64 ws)) = 8 * length ws"
  by (induction ws) auto

lemma concat_put_u64_inj:
  "length vs = length ws \<Longrightarrow> concat (map put_u64 vs) = concat (map put_u64 ws) \<longleftrightarrow> vs = ws"
  by (induction vs ws rule: list_induct2) auto

end
