(* ===== verification/Bincode.thy ===== *)
theory Bincode
  imports Bytes
begin

text \<open>
  The bincode reader of \<open>internal/zisk/proof.go\<close>: a buffer, an offset and a sticky error
  (\<open>bincodeReader\<close>), with one definition per method. Each method takes the reader and
  returns its value with the reader it leaves behind.

  The specification side is the wire format itself, bincode's standard configuration: a
  relation per type between a value and the bytes that spell it. The locale \<open>decoder\<close> is
  the contract between the two (the method reads exactly the spellings of its value and keeps an
  error it finds), and it is interpreted on every method the transcoder calls.
\<close>

section \<open>The reader\<close>

datatype reader_error =
    Unexpected_end nat     \<comment> \<open>unexpected end of input at offset\<close>
  | Wide_integer nat       \<comment> \<open>integer wider than 64 bits at offset\<close>
  | Length_exceeds u64     \<comment> \<open>length exceeds remaining input\<close>

record bincode_reader =
  buf :: bytes
  off :: nat
  err :: "reader_error option"

definition new_reader :: "bytes \<Rightarrow> bincode_reader" where
  "new_reader bs = \<lparr>buf = bs, off = 0, err = None\<rparr>"

definition fail :: "reader_error \<Rightarrow> bincode_reader \<Rightarrow> bincode_reader" where
  "fail e r = (if err r = None then r\<lparr>err := Some e\<rparr> else r)"

definition take_bytes :: "nat \<Rightarrow> bincode_reader \<Rightarrow> bytes \<times> bincode_reader" where
  "take_bytes n r =
     (if err r \<noteq> None then ([], r)
      else if length (buf r) < off r + n then ([], fail (Unexpected_end (off r)) r)
      else (List.take n (drop (off r) (buf r)), r\<lparr>off := off r + n\<rparr>))"

definition marker_width :: "byte \<Rightarrow> nat option" where
  "marker_width b = (if b = 251 then Some 2 else if b = 252 then Some 4
     else if b = 253 then Some 8 else None)"

definition varint :: "bincode_reader \<Rightarrow> u64 \<times> bincode_reader" where
  "varint r =
     (let (prefix, r1) = take_bytes 1 r in
      if err r1 \<noteq> None then (0, r1)
      else
        let b = prefix ! 0 in
        if b = 254 \<or> b = 255 then (0, fail (Wide_integer (off r1 - 1)) r1)
        else case marker_width b of
          None \<Rightarrow> (ucast b, r1)
        | Some width \<Rightarrow>
            let (wide, r2) = take_bytes width r1 in
            if err r2 \<noteq> None then (0, r2)
            else (get_u64 (wide @ replicate (8 - length wide) 0), r2))"

definition discriminant :: "bincode_reader \<Rightarrow> u64 \<times> bincode_reader" where
  "discriminant r = varint r"

definition read_length :: "bincode_reader \<Rightarrow> nat \<times> bincode_reader" where
  "read_length r =
     (let (n, r1) = varint r in
      if err r1 \<noteq> None then (0, r1)
      else if length (buf r1) - off r1 < unat n then (0, fail (Length_exceeds n) r1)
      else (unat n, r1))"

text \<open>The loop \<open>for i := range words { words[i] = r.varint() }\<close>.\<close>

fun read_words :: "nat \<Rightarrow> bincode_reader \<Rightarrow> u64 list \<times> bincode_reader" where
  "read_words 0 r = ([], r)"
| "read_words (Suc n) r =
     (let (w, r1) = varint r; (ws, r2) = read_words n r1 in (w # ws, r2))"

fun skip_words :: "nat \<Rightarrow> bincode_reader \<Rightarrow> bincode_reader" where
  "skip_words 0 r = r"
| "skip_words (Suc n) r = skip_words n (snd (varint r))"

definition u64_vec :: "bincode_reader \<Rightarrow> u64 list \<times> bincode_reader" where
  "u64_vec r = (let (n, r1) = read_length r in read_words n r1)"

definition skip_u64_vec :: "bincode_reader \<Rightarrow> bincode_reader" where
  "skip_u64_vec r = (let (n, r1) = read_length r in skip_words n r1)"

definition utf8 :: "bincode_reader \<Rightarrow> string \<times> bincode_reader" where
  "utf8 r = (let (n, r1) = read_length r; (bs, r2) = take_bytes n r1 in (text_of bs, r2))"

section \<open>The wire format\<close>

text \<open>A value and a byte string that spells it; the spelling need not be the shortest one.\<close>

fun varint_enc :: "u64 \<Rightarrow> bytes \<Rightarrow> bool" where
  "varint_enc v [] \<longleftrightarrow> False"
| "varint_enc v (b # ds) \<longleftrightarrow>
     (case marker_width b of
        Some n \<Rightarrow> length ds = n \<and> v = get_u64 ds
      | None \<Rightarrow> b \<noteq> 254 \<and> b \<noteq> 255 \<and> ds = [] \<and> v = ucast b)"

inductive words_enc :: "u64 list \<Rightarrow> bytes \<Rightarrow> bool" where
  words_nil: "words_enc [] []"
| words_cons: "varint_enc w b \<Longrightarrow> words_enc ws bs \<Longrightarrow> words_enc (w # ws) (b @ bs)"

definition vec_enc :: "u64 list \<Rightarrow> bytes \<Rightarrow> bool" where
  "vec_enc ws bs \<longleftrightarrow>
     (\<exists>n hdr body. bs = hdr @ body \<and> varint_enc n hdr \<and> unat n = length ws \<and> words_enc ws body)"

definition str_enc :: "string \<Rightarrow> bytes \<Rightarrow> bool" where
  "str_enc s bs \<longleftrightarrow>
     (\<exists>n hdr. bs = hdr @ bytes_of s \<and> varint_enc n hdr \<and> unat n = length s)"

text \<open>The shortest spellings, which bincode's encoder emits.\<close>

definition put_varint :: "u64 \<Rightarrow> bytes" where
  "put_varint v =
     (if unat v < 251 then [ucast v]
      else if unat v < 2 ^ 16 then 251 # le_bytes 2 (unat v)
      else if unat v < 2 ^ 32 then 252 # le_bytes 4 (unat v)
      else 253 # le_bytes 8 (unat v))"

definition put_vec :: "u64 list \<Rightarrow> bytes" where
  "put_vec ws = put_varint (word_of_nat (length ws)) @ concat (map put_varint ws)"

definition put_str :: "string \<Rightarrow> bytes" where
  "put_str s = put_varint (word_of_nat (length s)) @ bytes_of s"

section \<open>The contract of a decoding method\<close>

text \<open>
  \<open>positioned r s\<close>: the reader holds no error and what is left of its buffer is \<open>s\<close>.
\<close>

definition in_bounds :: "bincode_reader \<Rightarrow> bool" where
  "in_bounds r \<longleftrightarrow> off r \<le> length (buf r)"

definition positioned :: "bincode_reader \<Rightarrow> bytes \<Rightarrow> bool" where
  "positioned r s \<longleftrightarrow> err r = None \<and> in_bounds r \<and> drop (off r) (buf r) = s"

lemma positioned_new [simp]: "positioned (new_reader bs) bs"
  by (simp add: positioned_def in_bounds_def new_reader_def)

lemma in_bounds_new [simp]: "in_bounds (new_reader bs)"
  by (simp add: in_bounds_def new_reader_def)

lemma err_new [simp]: "err (new_reader bs) = None"
  by (simp add: new_reader_def)

lemma positioned_err [dest]: "positioned r s \<Longrightarrow> err r = None"
  by (simp add: positioned_def)

lemma positioned_bounds [dest]: "positioned r s \<Longrightarrow> in_bounds r"
  by (simp add: positioned_def)

lemma positioned_left: "positioned r s \<Longrightarrow> length (buf r) - off r = length s"
  by (auto simp: positioned_def)

lemma positioned_fun: "positioned r s \<Longrightarrow> positioned r t \<Longrightarrow> s = t"
  by (simp add: positioned_def)

lemma err_fail [simp]: "err (fail e r) \<noteq> None"
  by (simp add: fail_def)

lemma fail_keeps [simp]: "err r \<noteq> None \<Longrightarrow> fail e r = r"
  by (simp add: fail_def)

lemma in_bounds_fail [simp]: "in_bounds (fail e r) = in_bounds r"
  by (simp add: fail_def in_bounds_def)

locale decoder =
  fixes rd :: "bincode_reader \<Rightarrow> 'a \<times> bincode_reader"
    and spells :: "'a \<Rightarrow> bytes \<Rightarrow> bool"
  assumes sticky: "err r \<noteq> None \<Longrightarrow> snd (rd r) = r"
    and bounded: "in_bounds r \<Longrightarrow> in_bounds (snd (rd r))"
    and accepts: "positioned r (bs @ rest) \<Longrightarrow> spells v bs \<Longrightarrow>
      fst (rd r) = v \<and> positioned (snd (rd r)) rest"
    and only: "in_bounds r \<Longrightarrow> err (snd (rd r)) = None \<Longrightarrow>
      \<exists>bs rest. spells (fst (rd r)) bs \<and> positioned r (bs @ rest) \<and> positioned (snd (rd r)) rest"
begin

lemma ok_before: "err (snd (rd r)) = None \<Longrightarrow> err r = None"
  by (rule ccontr) (simp add: sticky)

text \<open>A value is spelled in at most one way at the front of a given input.\<close>

lemma spells_unique_value:
  assumes "spells v bs" "spells w cs" "bs @ xs = cs @ ys"
  shows "v = w \<and> bs = cs"
proof -
  have "positioned (new_reader (bs @ xs)) (bs @ xs)" by simp
  with assms accepts show ?thesis
    by (metis append_eq_append_conv positioned_fun positioned_new same_append_eq append_same_eq)
qed

lemma reads:
  assumes "spells v bs"
  shows "\<exists>r'. rd (new_reader (bs @ rest)) = (v, r') \<and> positioned r' rest"
  using accepts [OF positioned_new assms, of rest] by (metis prod.collapse)

end

section \<open>The methods meet the contract\<close>

lemma take_bytes_sticky: "err r \<noteq> None \<Longrightarrow> take_bytes n r = ([], r)"
  by (simp add: take_bytes_def)

lemma take_bytes_bounded: "in_bounds r \<Longrightarrow> in_bounds (snd (take_bytes n r))"
  by (simp add: take_bytes_def in_bounds_def fail_def)

lemma take_bytes_accepts:
  assumes "positioned r (bs @ rest)"
  shows "fst (take_bytes (length bs) r) = bs \<and> positioned (snd (take_bytes (length bs) r)) rest"
proof -
  from assms have e: "err r = None" and d: "drop (off r) (buf r) = bs @ rest"
    and b: "off r \<le> length (buf r)"
    by (auto simp: positioned_def in_bounds_def)
  have "length (drop (off r) (buf r)) = length bs + length rest" by (simp add: d)
  with b have le: "off r + length bs \<le> length (buf r)" by simp
  have "drop (off r + length bs) (buf r) = drop (length bs) (drop (off r) (buf r))"
    by (simp add: add.commute)
  with d have "drop (off r + length bs) (buf r) = rest" by simp
  with e d le show ?thesis by (simp add: take_bytes_def positioned_def in_bounds_def)
qed

lemma take_bytes_only:
  assumes "in_bounds r" "err (snd (take_bytes n r)) = None"
  shows "\<exists>rest. length (fst (take_bytes n r)) = n \<and> positioned r (fst (take_bytes n r) @ rest)
    \<and> positioned (snd (take_bytes n r)) rest"
proof -
  from assms have e: "err r = None" and le: "off r + n \<le> length (buf r)"
    by (auto simp: take_bytes_def split: if_splits)
  let ?bs = "List.take n (drop (off r) (buf r))" and ?rest = "drop n (drop (off r) (buf r))"
  from e le have val: "take_bytes n r = (?bs, r\<lparr>off := off r + n\<rparr>)" by (simp add: take_bytes_def)
  have len: "length ?bs = n" using le by simp
  have "positioned r (?bs @ ?rest)" using e assms(1) by (simp add: positioned_def del: drop_drop)
  moreover have "positioned (r\<lparr>off := off r + n\<rparr>) ?rest"
    using e le by (simp add: positioned_def in_bounds_def add.commute)
  ultimately show ?thesis using len val by auto
qed

lemma get_u64_pad: "get_u64 (wide @ replicate k 0) = get_u64 wide"
  by (simp add: get_u64_def)

lemma marker_width_special [simp]: "marker_width 254 = None" "marker_width 255 = None"
  by (simp_all add: marker_width_def)

lemma varint_sticky: "err r \<noteq> None \<Longrightarrow> varint r = (0, r)"
  by (simp add: varint_def take_bytes_sticky)

lemma take_bytes_bounded_pair: "take_bytes n r = (x, r') \<Longrightarrow> in_bounds r \<Longrightarrow> in_bounds r'"
  by (metis snd_conv take_bytes_bounded)

lemma varint_bounded: "in_bounds r \<Longrightarrow> in_bounds (snd (varint r))"
  by (auto simp: varint_def Let_def split: prod.splits option.splits dest!: take_bytes_bounded_pair)

lemma varint_accepts:
  assumes "positioned r (bs @ rest)" and "varint_enc v bs"
  shows "fst (varint r) = v \<and> positioned (snd (varint r)) rest"
proof -
  from assms(2) obtain b ds where bs: "bs = b # ds" by (cases bs) auto
  from assms(1) bs have "positioned r ([b] @ (ds @ rest))" by simp
  from take_bytes_accepts [OF this] obtain r1
    where t1: "take_bytes 1 r = ([b], r1)" and p1: "positioned r1 (ds @ rest)"
    by (cases "take_bytes 1 r") auto
  from p1 have e1: "err r1 = None" by auto
  show ?thesis
  proof (cases "marker_width b")
    case None
    with assms(2) bs have "b \<noteq> 254" "b \<noteq> 255" "ds = []" "v = ucast b" by auto
    with None t1 e1 p1 show ?thesis by (simp add: varint_def)
  next
    case (Some n)
    with assms(2) bs have n: "n = length ds" and v: "v = get_u64 ds" by auto
    from take_bytes_accepts [OF p1] obtain r2
      where t2: "take_bytes (length ds) r1 = (ds, r2)" and p2: "positioned r2 rest"
      by (cases "take_bytes (length ds) r1") auto
    from p2 have e2: "err r2 = None" by auto
    from Some have "b \<noteq> 254" "b \<noteq> 255" by auto
    with Some n v t1 t2 e1 e2 p2 show ?thesis
      by (simp add: varint_def get_u64_pad)
  qed
qed

lemma varint_only:
  assumes "in_bounds r" "err (snd (varint r)) = None"
  shows "\<exists>bs rest. varint_enc (fst (varint r)) bs \<and> positioned r (bs @ rest)
    \<and> positioned (snd (varint r)) rest"
proof -
  obtain p r1 where t1: "take_bytes 1 r = (p, r1)" by (cases "take_bytes 1 r")
  with assms(2) have e1: "err r1 = None" by (auto simp: varint_def split: if_splits)
  with take_bytes_only [OF assms(1), of 1] t1 obtain b s1
    where p: "p = [b]" and p0: "positioned r (b # s1)" and p1: "positioned r1 s1"
    by (auto simp: length_Suc_conv)
  from assms(2) t1 p e1 have b: "b \<noteq> 254" "b \<noteq> 255"
    by (auto simp: varint_def)
  show ?thesis
  proof (cases "marker_width b")
    case None
    with t1 p e1 b have "varint r = (ucast b, r1)" by (simp add: varint_def)
    moreover from None b have "varint_enc (ucast b) [b]" by simp
    ultimately show ?thesis using p0 p1 by (metis append_Cons append_Nil fst_conv snd_conv)
  next
    case (Some n)
    obtain w r2 where t2: "take_bytes n r1 = (w, r2)" by (cases "take_bytes n r1")
    with Some t1 p e1 b assms(2) have e2: "err r2 = None"
      by (auto simp: varint_def split: if_splits)
    with Some t1 t2 p e1 b have v: "varint r = (get_u64 w, r2)"
      by (simp add: varint_def get_u64_pad)
    from p1 have "in_bounds r1" by auto
    from take_bytes_only [OF this, of n] t2 e2 obtain s2
      where "length w = n" and q1: "positioned r1 (w @ s2)" and p2: "positioned r2 s2" by auto
    with Some have "varint_enc (get_u64 w) (b # w)" by simp
    moreover from p1 q1 have "s1 = w @ s2" by (rule positioned_fun)
    ultimately show ?thesis using v p0 p2 by (metis append_Cons fst_conv snd_conv)
  qed
qed

interpretation vint: decoder varint varint_enc
  by unfold_locales
    (use varint_sticky varint_bounded varint_accepts varint_only in \<open>auto\<close>)

interpretation disc: decoder discriminant varint_enc
  by unfold_locales
    (use varint_sticky varint_bounded varint_accepts varint_only in \<open>auto simp: discriminant_def\<close>)

subsection \<open>Lengths, vectors and strings\<close>

lemma read_length_sticky: "err r \<noteq> None \<Longrightarrow> read_length r = (0, r)"
  by (simp add: read_length_def varint_sticky)

lemma read_length_bounded: "in_bounds r \<Longrightarrow> in_bounds (snd (read_length r))"
  using varint_bounded [of r] by (auto simp: read_length_def Let_def split: prod.splits)

lemma read_length_accepts:
  assumes "positioned r (hdr @ rest)" "varint_enc n hdr" "unat n \<le> length rest"
  shows "fst (read_length r) = unat n \<and> positioned (snd (read_length r)) rest"
proof -
  from varint_accepts [OF assms(1,2)] obtain r1
    where "varint r = (n, r1)" and p: "positioned r1 rest" by (cases "varint r") auto
  moreover from p assms(3) have "err r1 = None" "\<not> length (buf r1) - off r1 < unat n"
    by (auto dest: positioned_left)
  ultimately show ?thesis by (simp add: read_length_def)
qed

lemma read_length_only:
  assumes "in_bounds r" "err (snd (read_length r)) = None"
  shows "\<exists>n hdr rest. varint_enc n hdr \<and> fst (read_length r) = unat n \<and> unat n \<le> length rest
    \<and> positioned r (hdr @ rest) \<and> positioned (snd (read_length r)) rest"
proof -
  obtain n r1 where v: "varint r = (n, r1)" by (cases "varint r")
  with assms(2) have e1: "err r1 = None" and le: "\<not> length (buf r1) - off r1 < unat n"
    by (auto simp: read_length_def split: if_splits)
  from varint_only [OF assms(1)] v e1 obtain hdr rest
    where "varint_enc n hdr" and p: "positioned r (hdr @ rest)" and p1: "positioned r1 rest"
    by auto
  moreover from p1 le have "unat n \<le> length rest" by (auto dest: positioned_left)
  moreover from v e1 le have "read_length r = (unat n, r1)" by (simp add: read_length_def)
  ultimately show ?thesis by (metis fst_conv snd_conv)
qed

lemma read_words_sticky: "err r \<noteq> None \<Longrightarrow> snd (read_words n r) = r"
  by (induction n) (auto simp: varint_sticky Let_def split: prod.splits)

lemma read_words_bounded: "in_bounds r \<Longrightarrow> in_bounds (snd (read_words n r))"
proof (induction n arbitrary: r)
  case (Suc n)
  from varint_bounded [OF Suc.prems] have "in_bounds (snd (read_words n (snd (varint r))))"
    by (rule Suc.IH)
  then show ?case by (simp add: case_prod_beta Let_def)
qed simp

lemma length_read_words [simp]: "length (fst (read_words n r)) = n"
  by (induction n arbitrary: r) (simp_all add: case_prod_beta Let_def)

lemma skip_words_read: "skip_words n r = snd (read_words n r)"
  by (induction n arbitrary: r) (simp_all add: case_prod_beta Let_def)

lemma varint_enc_nonempty: "varint_enc v bs \<Longrightarrow> 1 \<le> length bs"
  by (cases bs) auto

lemma words_enc_length: "words_enc ws bs \<Longrightarrow> length ws \<le> length bs"
  by (induction rule: words_enc.induct) (auto dest!: varint_enc_nonempty)

lemma read_words_accepts:
  "words_enc ws bs \<Longrightarrow> positioned r (bs @ rest) \<Longrightarrow>
    fst (read_words (length ws) r) = ws \<and> positioned (snd (read_words (length ws) r)) rest"
proof (induction arbitrary: r rule: words_enc.induct)
  case (words_cons w b ws bs)
  from words_cons.prems have "positioned r (b @ (bs @ rest))" by simp
  from varint_accepts [OF this words_cons.hyps(1)] obtain r1
    where "varint r = (w, r1)" and "positioned r1 (bs @ rest)" by (cases "varint r") auto
  with words_cons.IH show ?case by (simp add: case_prod_beta Let_def)
qed simp

lemma read_words_only:
  "in_bounds r \<Longrightarrow> err (snd (read_words n r)) = None \<Longrightarrow> err r = None \<Longrightarrow>
    \<exists>bs rest. words_enc (fst (read_words n r)) bs \<and> positioned r (bs @ rest)
      \<and> positioned (snd (read_words n r)) rest"
proof (induction n arbitrary: r)
  case 0
  then have "positioned r ([] @ drop (off r) (buf r))" by (simp add: positioned_def)
  then show ?case
    by (intro exI [of _ "[]"] exI [of _ "drop (off r) (buf r)"]) (simp add: words_nil)
next
  case (Suc n)
  obtain w r1 where v: "varint r = (w, r1)" by (cases "varint r")
  with Suc.prems have e2: "err (snd (read_words n r1)) = None"
    by (simp add: case_prod_beta Let_def)
  with read_words_sticky [of r1 n] have e1: "err r1 = None" by fastforce
  from varint_only [OF Suc.prems(1)] v e1 obtain b s1
    where b: "varint_enc w b" and p: "positioned r (b @ s1)" and p1: "positioned r1 s1" by auto
  from Suc.IH [OF positioned_bounds [OF p1] e2 e1] obtain bs rest
    where "words_enc (fst (read_words n r1)) bs" and q1: "positioned r1 (bs @ rest)"
      and "positioned (snd (read_words n r1)) rest" by auto
  moreover from p1 q1 have "s1 = bs @ rest" by (rule positioned_fun)
  with p have "positioned r ((b @ bs) @ rest)" by simp
  moreover have "read_words (Suc n) r = (w # fst (read_words n r1), snd (read_words n r1))"
    by (simp add: v case_prod_beta Let_def)
  moreover have "words_enc (w # fst (read_words n r1)) (b @ bs)"
    using b \<open>words_enc (fst (read_words n r1)) bs\<close> by (rule words_cons)
  ultimately show ?case using \<open>positioned (snd (read_words n r1)) rest\<close>
    by (metis fst_conv snd_conv)
qed

lemma u64_vec_fst_snd: "u64_vec r = read_words (fst (read_length r)) (snd (read_length r))"
  by (simp add: u64_vec_def case_prod_beta Let_def)

lemma skip_u64_vec_eq: "skip_u64_vec r = snd (u64_vec r)"
  by (simp add: skip_u64_vec_def u64_vec_def skip_words_read case_prod_beta Let_def)

interpretation vec: decoder u64_vec vec_enc
proof
  fix r :: bincode_reader
  assume "err r \<noteq> None"
  then show "snd (u64_vec r) = r" by (simp add: u64_vec_fst_snd read_length_sticky)
next
  fix r :: bincode_reader
  assume "in_bounds r"
  then show "in_bounds (snd (u64_vec r))"
    by (simp add: u64_vec_fst_snd read_words_bounded read_length_bounded)
next
  fix r bs rest ws
  assume p: "positioned r (bs @ rest)" and "vec_enc ws bs"
  then obtain n hdr body where bs: "bs = hdr @ body" and h: "varint_enc n hdr"
    and n: "unat n = length ws" and w: "words_enc ws body" by (auto simp: vec_enc_def)
  from p bs have "positioned r (hdr @ (body @ rest))" by simp
  from read_length_accepts [OF this h] words_enc_length [OF w] n
  have "fst (read_length r) = length ws \<and> positioned (snd (read_length r)) (body @ rest)" by simp
  then have "fst (read_length r) = length ws"
    and "positioned (snd (read_length r)) (body @ rest)" by simp_all
  with read_words_accepts [OF w this(2)]
  show "fst (u64_vec r) = ws \<and> positioned (snd (u64_vec r)) rest"
    by (simp add: u64_vec_fst_snd)
next
  fix r :: bincode_reader
  assume b: "in_bounds r" and e: "err (snd (u64_vec r)) = None"
  let ?r1 = "snd (read_length r)"
  from e have e2: "err (snd (read_words (fst (read_length r)) ?r1)) = None"
    by (simp add: u64_vec_fst_snd)
  with read_words_sticky [of ?r1] have e1: "err ?r1 = None" by fastforce
  from read_length_only [OF b e1] obtain n hdr s1 where h: "varint_enc n hdr"
    and n: "fst (read_length r) = unat n" and p: "positioned r (hdr @ s1)"
    and p1: "positioned ?r1 s1" by auto
  from read_words_only [OF positioned_bounds [OF p1] e2 e1] obtain body rest
    where w: "words_enc (fst (u64_vec r)) body" and q1: "positioned ?r1 (body @ rest)"
      and p2: "positioned (snd (u64_vec r)) rest" by (auto simp: u64_vec_fst_snd)
  from p1 q1 have "s1 = body @ rest" by (rule positioned_fun)
  with p have "positioned r ((hdr @ body) @ rest)" by simp
  moreover have "length (fst (u64_vec r)) = unat n" by (simp add: u64_vec_fst_snd n)
  with h w have "vec_enc (fst (u64_vec r)) (hdr @ body)" by (auto simp: vec_enc_def)
  ultimately show "\<exists>bs rest. vec_enc (fst (u64_vec r)) bs \<and> positioned r (bs @ rest)
      \<and> positioned (snd (u64_vec r)) rest" using p2 by blast
qed

lemma utf8_fst_snd:
  "utf8 r = (let (bs, r2) = take_bytes (fst (read_length r)) (snd (read_length r)) in (text_of bs, r2))"
  by (simp add: utf8_def case_prod_beta Let_def)

interpretation str: decoder utf8 str_enc
proof
  fix r :: bincode_reader
  assume "err r \<noteq> None"
  then show "snd (utf8 r) = r" by (simp add: utf8_fst_snd read_length_sticky take_bytes_sticky)
next
  fix r :: bincode_reader
  assume "in_bounds r"
  then show "in_bounds (snd (utf8 r))"
    by (simp add: utf8_fst_snd case_prod_beta Let_def take_bytes_bounded read_length_bounded)
next
  fix r bs rest s
  assume p: "positioned r (bs @ rest)" and "str_enc s bs"
  then obtain n hdr where bs: "bs = hdr @ bytes_of s" and h: "varint_enc n hdr"
    and n: "unat n = length (bytes_of s)" by (auto simp: str_enc_def)
  from p bs have "positioned r (hdr @ (bytes_of s @ rest))" by simp
  from read_length_accepts [OF this h] n have "fst (read_length r) = length (bytes_of s)"
    and "positioned (snd (read_length r)) (bytes_of s @ rest)" by simp_all
  with take_bytes_accepts show "fst (utf8 r) = s \<and> positioned (snd (utf8 r)) rest"
    by (simp add: utf8_fst_snd case_prod_beta Let_def del: length_bytes_of)
next
  fix r :: bincode_reader
  assume b: "in_bounds r" and e: "err (snd (utf8 r)) = None"
  let ?r1 = "snd (read_length r)" and ?n = "fst (read_length r)"
  from e have e2: "err (snd (take_bytes ?n ?r1)) = None"
    by (simp add: utf8_fst_snd case_prod_beta Let_def)
  then have e1: "err ?r1 = None" by (auto simp: take_bytes_def split: if_splits)
  from read_length_only [OF b e1] obtain n hdr s1 where h: "varint_enc n hdr"
    and n: "?n = unat n" and p: "positioned r (hdr @ s1)" and p1: "positioned ?r1 s1" by auto
  from take_bytes_only [OF positioned_bounds [OF p1] e2] obtain bs rest
    where bs: "fst (take_bytes ?n ?r1) = bs" "length bs = ?n" "positioned ?r1 (bs @ rest)"
      "positioned (snd (take_bytes ?n ?r1)) rest" by auto
  from positioned_fun [OF p1 bs(3)] p have "positioned r ((hdr @ bs) @ rest)" by simp
  moreover have u: "utf8 r = (text_of bs, snd (take_bytes ?n ?r1))"
    using bs(1) by (simp add: utf8_fst_snd case_prod_beta Let_def)
  moreover from h n bs(2) have "str_enc (text_of bs) (hdr @ bs)"
    by (auto simp: str_enc_def)
  ultimately show "\<exists>bs rest. str_enc (fst (utf8 r)) bs \<and> positioned r (bs @ rest)
      \<and> positioned (snd (utf8 r)) rest" using bs(4) by (metis fst_conv snd_conv)
qed

subsection \<open>The encoder's spellings are spellings\<close>

lemma get_u64_le_bytes:
  assumes "unat v < 256 ^ n"
  shows "get_u64 (le_bytes n (unat v)) = v"
proof -
  have "le_nat (le_bytes n (unat v)) = unat v" using assms by (simp add: le_nat_le_bytes)
  then show ?thesis by (simp add: get_u64_def)
qed

lemma put_varint_spells: "varint_enc v (put_varint v)"
proof -
  consider "unat v < 251" | "251 \<le> unat v" "unat v < 2 ^ 16" | "2 ^ 16 \<le> unat v" "unat v < 2 ^ 32"
    | "2 ^ 32 \<le> unat v" by linarith
  then show ?thesis
  proof cases
    case 1
    have u: "unat (ucast v :: byte) = unat v"
      using 1 by (simp add: unsigned_ucast_eq unsigned_take_bit_eq take_bit_nat_eq_self)
    have "unat (ucast (ucast v :: byte) :: u64) = unat v"
      using 1 u by (simp add: unsigned_ucast_eq unsigned_take_bit_eq take_bit_nat_eq_self)
    then have "ucast (ucast v :: byte) = v" by (simp only: word_unat_eq_iff)
    moreover have "(ucast v :: byte) \<notin> {251, 252, 253, 254, 255}" using u 1 by auto
    ultimately show ?thesis using 1 by (simp add: put_varint_def marker_width_def)
  next
    case 2
    then show ?thesis using get_u64_le_bytes [of v 2]
      by (simp add: put_varint_def marker_width_def)
  next
    case 3
    then show ?thesis using get_u64_le_bytes [of v 4]
      by (simp add: put_varint_def marker_width_def)
  next
    case 4
    then show ?thesis using get_u64_le_bytes [of v 8] unat_u64_less [of v]
      by (simp add: put_varint_def marker_width_def)
  qed
qed

lemma put_words_spells: "words_enc ws (concat (map put_varint ws))"
  by (induction ws) (auto intro: words_enc.intros put_varint_spells)

lemma unat_length_word: "n < 2 ^ 64 \<Longrightarrow> unat (word_of_nat n :: u64) = n"
  by (simp add: unat_of_nat)

lemma put_vec_spells: "length ws < 2 ^ 64 \<Longrightarrow> vec_enc ws (put_vec ws)"
  unfolding vec_enc_def put_vec_def
  using put_varint_spells put_words_spells unat_length_word by blast

lemma put_str_spells: "length s < 2 ^ 64 \<Longrightarrow> str_enc s (put_str s)"
  unfolding str_enc_def put_str_def
  using put_varint_spells unat_length_word by blast

end
