(* ===== verification/Zisk_Proof.thy ===== *)
theory Zisk_Proof
  imports Bincode
begin

text \<open>
  \<open>internal/zisk/proof.go\<close>: \<open>transcodeProof\<close>, which rewrites the proof envelope of a
  completed prove job into the encoding ere's verifier accepts. The envelope's layout, as the
  comment of the source gives it, is the relation \<open>envelope_enc\<close>; the output layout is
  \<open>vadcop_bytes\<close>. \<open>transcode_exact\<close> says the code computes one from the other and
  refuses everything else.
\<close>

section \<open>The transcoder\<close>

definition programVKWords :: nat where "programVKWords = 4"
definition publicValuesWords :: nat where "publicValuesWords = 64"
definition vadcopKindFinal :: u64 where "vadcopKindFinal = 0"
definition vadcopFinalHashFamily :: string where "vadcopFinalHashFamily = ''blake3''"
definition maxEnvelopeBytes :: nat where "maxEnvelopeBytes = 4 * 2 ^ 20"

datatype transcode_error =
    Envelope_too_large nat
  | Not_final_vadcop
  | Plonk_body
  | Unknown_body u64
  | Malformed reader_error
  | Program_vk_words nat
  | Public_value_words nat

text \<open>
  The bytes the function appends: \<open>proof\<close>, \<open>publics_full\<close> behind the flag
  \<open>is_vadcop_final_proof\<close>, the byte \<open>compressed\<close> and the hash family.
\<close>

definition vadcop_bytes :: "u64 list \<Rightarrow> u64 list \<Rightarrow> bytes" where
  "vadcop_bytes proofWords publicValues =
     put_u64 (word_of_nat (length proofWords)) @ concat (map put_u64 proofWords)
     @ put_u64 (word_of_nat (1 + length publicValues)) @ put_u64 1 @ concat (map put_u64 publicValues)
     @ [0] @ put_u64 (word_of_nat (length vadcopFinalHashFamily)) @ bytes_of vadcopFinalHashFamily"

text \<open>The end of the function, from the program key on.\<close>

definition finish_transcode ::
  "u64 list \<Rightarrow> u64 list \<Rightarrow> bincode_reader \<Rightarrow> transcode_error + bytes" where
  "finish_transcode proofWords publicValues r =
     (let (vkWords, r1) = u64_vec r in
      case err r1 of
        Some e \<Rightarrow> Inl (Malformed e)
      | None \<Rightarrow>
          if length vkWords \<noteq> programVKWords then Inl (Program_vk_words (length vkWords))
          else if length publicValues \<noteq> programVKWords + publicValuesWords
          then Inl (Public_value_words (length publicValues))
          else Inr (vadcop_bytes proofWords publicValues))"

definition transcodeProof :: "bytes \<Rightarrow> transcode_error + bytes" where
  "transcodeProof envelope =
     (if maxEnvelopeBytes < length envelope then Inl (Envelope_too_large (length envelope))
      else
        let (variant, r1) = discriminant (new_reader envelope) in
        if err r1 \<noteq> None then finish_transcode [] [] r1
        else if variant = 0 then
          let (proofWords, r2) = u64_vec r1;
              r3 = skip_u64_vec r2;
              (kind, r4) = discriminant r3;
              (hashFamily, r5) = utf8 r4;
              (publicValues, r6) = u64_vec r5
          in if err r6 = None \<and> (kind \<noteq> vadcopKindFinal \<or> hashFamily \<noteq> vadcopFinalHashFamily)
             then Inl Not_final_vadcop
             else finish_transcode proofWords publicValues r6
        else if variant = 1 then Inl Plonk_body
        else Inl (Unknown_body variant))"

section \<open>The envelope\<close>

record envelope =
  env_proof :: "u64 list"
  env_zisk_vk :: "u64 list"
  env_kind :: u64
  env_hash :: string
  env_publics :: "u64 list"
  env_vk :: "u64 list"

text \<open>The spellings of a \<open>Vadcop\<close> envelope, up to the trailing \<open>hash_mode\<close>.\<close>

definition envelope_enc :: "envelope \<Rightarrow> bytes \<Rightarrow> bool" where
  "envelope_enc e bs \<longleftrightarrow>
     (\<exists>b0 b1 b2 b3 b4 b5 b6. bs = b0 @ b1 @ b2 @ b3 @ b4 @ b5 @ b6
        \<and> varint_enc 0 b0 \<and> vec_enc (env_proof e) b1 \<and> vec_enc (env_zisk_vk e) b2
        \<and> varint_enc (env_kind e) b3 \<and> str_enc (env_hash e) b4
        \<and> vec_enc (env_publics e) b5 \<and> vec_enc (env_vk e) b6)"

lemma envelope_encI:
  assumes "varint_enc 0 b0" "vec_enc (env_proof e) b1" "vec_enc (env_zisk_vk e) b2"
    "varint_enc (env_kind e) b3" "str_enc (env_hash e) b4" "vec_enc (env_publics e) b5"
    "vec_enc (env_vk e) b6"
  shows "envelope_enc e (b0 @ b1 @ b2 @ b3 @ b4 @ b5 @ b6)"
  unfolding envelope_enc_def using assms by blast

text \<open>The envelopes the forwarder accepts.\<close>

definition acceptable :: "envelope \<Rightarrow> bool" where
  "acceptable e \<longleftrightarrow> env_kind e = 0 \<and> env_hash e = ''blake3''
     \<and> length (env_vk e) = 4 \<and> length (env_publics e) = 68"

text \<open>What bincode's encoder emits for an envelope.\<close>

definition put_envelope :: "envelope \<Rightarrow> bytes" where
  "put_envelope e = put_varint 0 @ put_vec (env_proof e) @ put_vec (env_zisk_vk e)
     @ put_varint (env_kind e) @ put_str (env_hash e) @ put_vec (env_publics e) @ put_vec (env_vk e)"

lemma put_envelope_spells:
  assumes "length (env_proof e) < 2 ^ 64" "length (env_zisk_vk e) < 2 ^ 64"
    "length (env_hash e) < 2 ^ 64" "length (env_publics e) < 2 ^ 64" "length (env_vk e) < 2 ^ 64"
  shows "envelope_enc e (put_envelope e)"
  unfolding envelope_enc_def put_envelope_def
  using assms by (blast intro: put_varint_spells put_vec_spells put_str_spells)

section \<open>Reading the body\<close>

text \<open>The body a reader at the start of an acceptable envelope is read into.\<close>

definition read_body ::
  "bincode_reader \<Rightarrow> (u64 list \<times> u64 list \<times> u64 \<times> string \<times> u64 list \<times> u64 list) \<times> bincode_reader" where
  "read_body r1 =
     (let (p, r2) = u64_vec r1; (z, r3) = u64_vec r2; (k, r4) = discriminant r3;
          (h, r5) = utf8 r4; (pub, r6) = u64_vec r5; (vk, r7) = u64_vec r6
      in ((p, z, k, h, pub, vk), r7))"

lemma read_body_accepts:
  assumes "positioned r (b1 @ b2 @ b3 @ b4 @ b5 @ b6 @ rest)"
    and "vec_enc p b1" "vec_enc z b2" "varint_enc k b3" "str_enc h b4" "vec_enc pub b5" "vec_enc vk b6"
  shows "\<exists>r7. read_body r = ((p, z, k, h, pub, vk), r7) \<and> positioned r7 rest"
proof -
  note a1 = vec.accepts [OF assms(1,2)]
  note a2 = vec.accepts [OF conjunct2 [OF a1] assms(3)]
  note a3 = disc.accepts [OF conjunct2 [OF a2] assms(4)]
  note a4 = str.accepts [OF conjunct2 [OF a3] assms(5)]
  note a5 = vec.accepts [OF conjunct2 [OF a4] assms(6)]
  note a6 = vec.accepts [OF conjunct2 [OF a5] assms(7)]
  show ?thesis
    using a1 a2 a3 a4 a5 a6 by (simp add: read_body_def case_prod_beta Let_def)
qed

lemma read_body_only:
  assumes "in_bounds r" and "read_body r = ((p, z, k, h, pub, vk), r7)" and "err r7 = None"
  shows "\<exists>b1 b2 b3 b4 b5 b6 rest. positioned r (b1 @ b2 @ b3 @ b4 @ b5 @ b6 @ rest)
    \<and> vec_enc p b1 \<and> vec_enc z b2 \<and> varint_enc k b3 \<and> str_enc h b4 \<and> vec_enc pub b5 \<and> vec_enc vk b6
    \<and> positioned r7 rest"
proof -
  define r2 where "r2 = snd (u64_vec r)"
  define r3 where "r3 = snd (u64_vec r2)"
  define r4 where "r4 = snd (discriminant r3)"
  define r5 where "r5 = snd (utf8 r4)"
  define r6 where "r6 = snd (u64_vec r5)"
  note defs = r2_def r3_def r4_def r5_def r6_def
  from assms(2) have vals: "p = fst (u64_vec r)" "z = fst (u64_vec r2)" "k = fst (discriminant r3)"
    "h = fst (utf8 r4)" "pub = fst (u64_vec r5)" "vk = fst (u64_vec r6)" "r7 = snd (u64_vec r6)"
    by (simp_all add: read_body_def case_prod_beta Let_def defs)
  have e6: "err r6 = None" using assms(3) vals(7) vec.ok_before by simp
  then have e5: "err r5 = None" using vec.ok_before by (simp add: r6_def)
  then have e4: "err r4 = None" using str.ok_before by (simp add: r5_def)
  then have e3: "err r3 = None" using disc.ok_before by (simp add: r4_def)
  then have e2: "err r2 = None" using vec.ok_before by (simp add: r3_def)
  note b2 = vec.bounded [OF assms(1), folded r2_def]
  note b3 = vec.bounded [OF b2, folded r3_def]
  note b4 = disc.bounded [OF b3, folded r4_def]
  note b5 = str.bounded [OF b4, folded r5_def]
  note b6 = vec.bounded [OF b5, folded r6_def]
  obtain c1 s1 where 1: "vec_enc p c1" "positioned r (c1 @ s1)" "positioned r2 s1"
    using vec.only [OF assms(1)] e2 vals(1) by (auto simp: r2_def)
  obtain c2 s2 where 2: "vec_enc z c2" "positioned r2 (c2 @ s2)" "positioned r3 s2"
    using vec.only [OF b2] e3 vals(2) by (auto simp: r3_def)
  obtain c3 s3 where 3: "varint_enc k c3" "positioned r3 (c3 @ s3)" "positioned r4 s3"
    using disc.only [OF b3] e4 vals(3) by (auto simp: r4_def)
  obtain c4 s4 where 4: "str_enc h c4" "positioned r4 (c4 @ s4)" "positioned r5 s4"
    using str.only [OF b4] e5 vals(4) by (auto simp: r5_def)
  obtain c5 s5 where 5: "vec_enc pub c5" "positioned r5 (c5 @ s5)" "positioned r6 s5"
    using vec.only [OF b5] e6 vals(5) by (auto simp: r6_def)
  obtain c6 s6 where 6: "vec_enc vk c6" "positioned r6 (c6 @ s6)" "positioned r7 s6"
    using vec.only [OF b6] assms(3) vals(6,7) by auto
  have "s1 = c2 @ s2" "s2 = c3 @ s3" "s3 = c4 @ s4" "s4 = c5 @ s5" "s5 = c6 @ s6"
    using 1 2 3 4 5 6 positioned_fun by blast+
  with 1 2 3 4 5 6 show ?thesis by blast
qed

lemma finish_transcode_Inr_iff:
  "finish_transcode p pub r = Inr out \<longleftrightarrow>
     err (snd (u64_vec r)) = None \<and> length (fst (u64_vec r)) = 4 \<and> length pub = 68
     \<and> out = vadcop_bytes p pub"
  by (auto simp: finish_transcode_def programVKWords_def publicValuesWords_def case_prod_beta Let_def
      split: option.splits)

lemma transcode_Inr_iff:
  "transcodeProof bs = Inr out \<longleftrightarrow> length bs \<le> maxEnvelopeBytes \<and>
     (\<exists>r1 p z pub vk r7. discriminant (new_reader bs) = (0, r1) \<and> err r1 = None
       \<and> read_body r1 = ((p, z, 0, ''blake3'', pub, vk), r7) \<and> err r7 = None
       \<and> length vk = 4 \<and> length pub = 68 \<and> out = vadcop_bytes p pub)"
proof -
  obtain v r1 where d: "discriminant (new_reader bs) = (v, r1)" by fastforce
  obtain p r2 where u1: "u64_vec r1 = (p, r2)" by fastforce
  obtain z r3 where u2: "u64_vec r2 = (z, r3)" by fastforce
  obtain k r4 where u3: "discriminant r3 = (k, r4)" by fastforce
  obtain h r5 where u4: "utf8 r4 = (h, r5)" by fastforce
  obtain pub r6 where u5: "u64_vec r5 = (pub, r6)" by fastforce
  obtain vk r7 where u6: "u64_vec r6 = (vk, r7)" by fastforce
  note steps = d u1 u2 u3 u4 u5 u6
  have body: "read_body r1 = ((p, z, k, h, pub, vk), r7)" by (simp add: read_body_def steps)
  have before: "err r7 = None \<Longrightarrow> err r6 = None" using vec.ok_before [of r6] u6 by simp
  have bad: "err r1 \<noteq> None \<Longrightarrow> finish_transcode [] [] r1 \<noteq> Inr out"
    by (auto simp: finish_transcode_Inr_iff dest: vec.ok_before)
  show ?thesis
  proof (cases "maxEnvelopeBytes < length bs \<or> err r1 \<noteq> None \<or> v \<noteq> 0")
    case True
    then show ?thesis using bad by (auto simp: transcodeProof_def steps)
  next
    case False
    then have "transcodeProof bs =
        (if err r6 = None \<and> (k \<noteq> 0 \<or> h \<noteq> ''blake3'') then Inl Not_final_vadcop
         else finish_transcode p pub r6)"
      by (simp add: transcodeProof_def steps skip_u64_vec_eq vadcopKindFinal_def
          vadcopFinalHashFamily_def)
    with False body before show ?thesis
      by (auto simp: finish_transcode_Inr_iff u6 d split: if_splits)
  qed
qed

section \<open>What the transcoder accepts, and what it makes of it\<close>

lemma transcode_accepts_iff:
  "transcodeProof bs = Inr out \<longleftrightarrow>
     length bs \<le> maxEnvelopeBytes \<and>
     (\<exists>e pre rest. bs = pre @ rest \<and> envelope_enc e pre \<and> acceptable e
        \<and> out = vadcop_bytes (env_proof e) (env_publics e))"
  (is "?lhs \<longleftrightarrow> ?small \<and> ?rhs")
proof
  assume ?lhs
  then obtain r1 p z pub vk r7 where small: ?small
    and d: "discriminant (new_reader bs) = (0, r1)" "err r1 = None"
    and b: "read_body r1 = ((p, z, 0, ''blake3'', pub, vk), r7)" "err r7 = None"
    and len: "length vk = 4" "length pub = 68" and out: "out = vadcop_bytes p pub"
    by (auto simp: transcode_Inr_iff)
  obtain b0 s0 where 0: "varint_enc 0 b0" "positioned (new_reader bs) (b0 @ s0)" "positioned r1 s0"
    using disc.only [OF in_bounds_new, of bs] d by auto
  then have "bs = b0 @ s0" by (metis positioned_fun positioned_new)
  obtain b1 b2 b3 b4 b5 b6 rest where
    "positioned r1 (b1 @ b2 @ b3 @ b4 @ b5 @ b6 @ rest)" and enc: "vec_enc p b1" "vec_enc z b2"
      "varint_enc 0 b3" "str_enc ''blake3'' b4" "vec_enc pub b5" "vec_enc vk b6"
    using read_body_only [OF positioned_bounds [OF 0(3)] b] by blast
  with 0(3) have "s0 = b1 @ b2 @ b3 @ b4 @ b5 @ b6 @ rest" using positioned_fun by blast
  with \<open>bs = b0 @ s0\<close> have bs: "bs = (b0 @ b1 @ b2 @ b3 @ b4 @ b5 @ b6) @ rest" by simp
  define e where "e = \<lparr>env_proof = p, env_zisk_vk = z, env_kind = 0, env_hash = ''blake3'',
    env_publics = pub, env_vk = vk\<rparr>"
  have "envelope_enc e (b0 @ b1 @ b2 @ b3 @ b4 @ b5 @ b6)"
    by (rule envelope_encI) (use 0(1) enc in \<open>simp_all add: e_def\<close>)
  moreover have "acceptable e" using len by (simp add: acceptable_def e_def)
  moreover have "out = vadcop_bytes (env_proof e) (env_publics e)" by (simp add: out e_def)
  ultimately show "?small \<and> ?rhs" using bs small by blast
next
  assume "?small \<and> ?rhs"
  then obtain e pre rest where small: ?small and bs: "bs = pre @ rest" and enc: "envelope_enc e pre"
    and acc: "acceptable e" and out: "out = vadcop_bytes (env_proof e) (env_publics e)" by blast
  from enc acc obtain b0 b1 b2 b3 b4 b5 b6 where pre: "pre = b0 @ b1 @ b2 @ b3 @ b4 @ b5 @ b6"
    and 0: "varint_enc 0 b0" and encs: "vec_enc (env_proof e) b1" "vec_enc (env_zisk_vk e) b2"
      "varint_enc 0 b3" "str_enc ''blake3'' b4" "vec_enc (env_publics e) b5" "vec_enc (env_vk e) b6"
    by (auto simp: envelope_enc_def acceptable_def)
  obtain r1 where r1: "discriminant (new_reader bs) = (0, r1)"
    "positioned r1 (b1 @ b2 @ b3 @ b4 @ b5 @ b6 @ rest)"
    using disc.reads [OF 0, of "b1 @ b2 @ b3 @ b4 @ b5 @ b6 @ rest"] bs pre by auto
  from read_body_accepts [OF r1(2) encs] obtain r7 where
    "read_body r1 = ((env_proof e, env_zisk_vk e, 0, ''blake3'', env_publics e, env_vk e), r7)"
    "positioned r7 rest" by blast
  with small r1 acc out show ?lhs
    unfolding transcode_Inr_iff acceptable_def by blast
qed

text \<open>C7: \<open>transcodeProof\<close> accepts exactly the byte strings that start with a spelling of a
  final blake3 vadcop envelope with four program key words and 68 public value words, and its
  result is the fixed-width rewriting of that envelope's proof and public values.\<close>

theorem transcode_exact:
  "transcodeProof bs = Inr out \<longleftrightarrow>
     length bs \<le> maxEnvelopeBytes \<and>
     (\<exists>e pre rest. bs = pre @ rest \<and> envelope_enc e pre \<and> acceptable e
        \<and> out = vadcop_bytes (env_proof e) (env_publics e))"
  by (rule transcode_accepts_iff)

subsection \<open>Consequences\<close>

lemma envelope_enc_prefix_free:
  assumes "envelope_enc e pre" "envelope_enc e' pre'" "pre @ xs = pre' @ ys"
  shows "e = e' \<and> pre = pre'"
proof -
  from assms(1) obtain b0 b1 b2 b3 b4 b5 b6 where
    pre: "pre = b0 @ b1 @ b2 @ b3 @ b4 @ b5 @ b6" and
    b: "varint_enc 0 b0" "vec_enc (env_proof e) b1" "vec_enc (env_zisk_vk e) b2"
      "varint_enc (env_kind e) b3" "str_enc (env_hash e) b4" "vec_enc (env_publics e) b5"
      "vec_enc (env_vk e) b6" by (auto simp: envelope_enc_def)
  from assms(2) obtain c0 c1 c2 c3 c4 c5 c6 where
    pre': "pre' = c0 @ c1 @ c2 @ c3 @ c4 @ c5 @ c6" and
    c: "varint_enc 0 c0" "vec_enc (env_proof e') c1" "vec_enc (env_zisk_vk e') c2"
      "varint_enc (env_kind e') c3" "str_enc (env_hash e') c4" "vec_enc (env_publics e') c5"
      "vec_enc (env_vk e') c6" by (auto simp: envelope_enc_def)
  from assms(3) pre pre' have eq: "b0 @ (b1 @ b2 @ b3 @ b4 @ b5 @ b6 @ xs)
      = c0 @ (c1 @ c2 @ c3 @ c4 @ c5 @ c6 @ ys)" by simp
  note 0 = disc.spells_unique_value [OF b(1) c(1) eq]
  with eq have eq1: "b1 @ (b2 @ b3 @ b4 @ b5 @ b6 @ xs) = c1 @ (c2 @ c3 @ c4 @ c5 @ c6 @ ys)" by simp
  note 1 = vec.spells_unique_value [OF b(2) c(2) eq1]
  with eq1 have eq2: "b2 @ (b3 @ b4 @ b5 @ b6 @ xs) = c2 @ (c3 @ c4 @ c5 @ c6 @ ys)" by simp
  note 2 = vec.spells_unique_value [OF b(3) c(3) eq2]
  with eq2 have eq3: "b3 @ (b4 @ b5 @ b6 @ xs) = c3 @ (c4 @ c5 @ c6 @ ys)" by simp
  note 3 = disc.spells_unique_value [OF b(4) c(4) eq3]
  with eq3 have eq4: "b4 @ (b5 @ b6 @ xs) = c4 @ (c5 @ c6 @ ys)" by simp
  note 4 = str.spells_unique_value [OF b(5) c(5) eq4]
  with eq4 have eq5: "b5 @ (b6 @ xs) = c5 @ (c6 @ ys)" by simp
  note 5 = vec.spells_unique_value [OF b(6) c(6) eq5]
  with eq5 have eq6: "b6 @ xs = c6 @ ys" by simp
  note 6 = vec.spells_unique_value [OF b(7) c(7) eq6]
  from 0 1 2 3 4 5 6 pre pre' show ?thesis by simp
qed

text \<open>An acceptable envelope written by bincode's encoder, with anything behind it (the
  \<open>hash_mode\<close> the code never reads), is transcoded into its own proof and public values.\<close>

theorem transcode_roundtrip:
  assumes "acceptable e" and "length (put_envelope e @ trailing) \<le> maxEnvelopeBytes"
    and "length (env_proof e) < 2 ^ 64" and "length (env_zisk_vk e) < 2 ^ 64"
  shows "transcodeProof (put_envelope e @ trailing)
    = Inr (vadcop_bytes (env_proof e) (env_publics e))"
proof -
  have "envelope_enc e (put_envelope e)"
    by (rule put_envelope_spells) (use assms in \<open>auto simp: acceptable_def\<close>)
  with assms(1,2) show ?thesis unfolding transcode_accepts_iff by blast
qed

definition sample_envelope :: envelope where
  "sample_envelope = \<lparr>env_proof = [7, 300, 2 ^ 40], env_zisk_vk = [1, 2], env_kind = 0,
     env_hash = ''blake3'', env_publics = replicate 68 9, env_vk = [1, 2, 3, 4]\<rparr>"

lemma length_put_varint: "length (put_varint v) \<le> 9"
  by (simp add: put_varint_def)

lemma length_put_words: "length (concat (map put_varint ws)) \<le> 9 * length ws"
proof (induction ws)
  case (Cons w ws)
  with length_put_varint [of w] show ?case by simp
qed simp

lemma length_put_vec: "length (put_vec ws) \<le> 9 * (length ws + 1)"
  unfolding put_vec_def
  using length_put_varint [of "word_of_nat (length ws)"] length_put_words [of ws] by simp

lemma length_put_envelope:
  "length (put_envelope e) \<le> 9 * (length (env_proof e) + length (env_zisk_vk e)
     + length (env_hash e) + length (env_publics e) + length (env_vk e) + 7)"
proof -
  have "length (put_str (env_hash e)) \<le> 9 + length (env_hash e)"
    using length_put_varint [of "word_of_nat (length (env_hash e))"] by (simp add: put_str_def)
  with length_put_varint [of 0] length_put_varint [of "env_kind e"] length_put_vec [of "env_proof e"]
    length_put_vec [of "env_zisk_vk e"] length_put_vec [of "env_publics e"] length_put_vec [of "env_vk e"]
  show ?thesis by (simp add: put_envelope_def)
qed

theorem transcode_roundtrip_witness:
  "transcodeProof (put_envelope sample_envelope @ [0])
     = Inr (vadcop_bytes [7, 300, 2 ^ 40] (replicate 68 9))"
proof -
  have acc: "acceptable sample_envelope" by (simp add: acceptable_def sample_envelope_def)
  have len: "length (put_envelope sample_envelope @ [0]) \<le> maxEnvelopeBytes"
    using length_put_envelope [of sample_envelope]
    by (simp add: maxEnvelopeBytes_def sample_envelope_def)
  show ?thesis
    using transcode_roundtrip [OF acc len] by (simp add: sample_envelope_def)
qed

lemma envelope_enc_length:
  assumes "envelope_enc e pre"
  shows "length (env_proof e) + length (env_publics e) + length (env_vk e) + 6 \<le> length pre"
proof -
  have v: "vec_enc ws bs \<Longrightarrow> length ws + 1 \<le> length bs" for ws bs
    by (auto simp: vec_enc_def dest!: varint_enc_nonempty words_enc_length)
  have t: "str_enc s bs \<Longrightarrow> length s + 1 \<le> length bs" for s bs
    by (auto simp: str_enc_def dest!: varint_enc_nonempty)
  from assms obtain b0 b1 b2 b3 b4 b5 b6 where
    pre: "pre = b0 @ b1 @ b2 @ b3 @ b4 @ b5 @ b6" and
    b: "varint_enc 0 b0" "vec_enc (env_proof e) b1" "vec_enc (env_zisk_vk e) b2"
      "varint_enc (env_kind e) b3" "str_enc (env_hash e) b4" "vec_enc (env_publics e) b5"
      "vec_enc (env_vk e) b6" by (auto simp: envelope_enc_def)
  from v [OF b(2)] v [OF b(3)] t [OF b(5)] v [OF b(6)] v [OF b(7)]
    varint_enc_nonempty [OF b(1)] varint_enc_nonempty [OF b(4)]
  show ?thesis by (simp add: pre)
qed

lemma length_vadcop_bytes:
  "length (vadcop_bytes p pub) = 8 * (length p + length pub) + 39"
  by (simp add: vadcop_bytes_def vadcopFinalHashFamily_def)

text \<open>A transcode makes the envelope at most eight times as long, so what an accepted
  envelope expands to in the heap stays within 32 MiB.\<close>

theorem transcode_bounded:
  assumes "transcodeProof bs = Inr out"
  shows "length out \<le> 8 * length bs \<and> length out \<le> 32 * 2 ^ 20"
proof -
  from assms obtain e pre rest where small: "length bs \<le> maxEnvelopeBytes"
    and bs: "bs = pre @ rest" and enc: "envelope_enc e pre" and acc: "acceptable e"
    and out: "out = vadcop_bytes (env_proof e) (env_publics e)"
    by (auto simp: transcode_accepts_iff)
  from envelope_enc_length [OF enc] acc have "length (env_proof e) + 78 \<le> length bs"
    by (simp add: acceptable_def bs)
  moreover have "length out = 8 * length (env_proof e) + 583"
    using acc by (simp add: out length_vadcop_bytes acceptable_def)
  moreover have "length bs \<le> 4 * 2 ^ 20" using small by (simp add: maxEnvelopeBytes_def)
  ultimately show ?thesis by linarith
qed

lemma transcode_sample:
  "transcodeProof (put_envelope sample_envelope @ [0])
     = Inr (vadcop_bytes (env_proof sample_envelope) (env_publics sample_envelope))"
  unfolding transcode_accepts_iff
  using put_envelope_spells [of sample_envelope] length_put_envelope [of sample_envelope]
  by (intro conjI exI [of _ sample_envelope] exI [of _ "put_envelope sample_envelope"]
      exI [of _ "[0]"]) (simp_all add: sample_envelope_def acceptable_def maxEnvelopeBytes_def)

theorem transcode_bounded_witness:
  "\<exists>out. transcodeProof (put_envelope sample_envelope @ [0]) = Inr out
     \<and> length out \<le> 8 * length (put_envelope sample_envelope @ [0]) \<and> length out \<le> 32 * 2 ^ 20"
  using transcode_bounded [OF transcode_sample] transcode_sample by blast

text \<open>The transcoder is insensitive to what follows the envelope and refuses every input
  that ends before the envelope does.\<close>

theorem transcode_framing:
  assumes "transcodeProof bs = Inr out"
  shows "\<exists>pre rest. bs = pre @ rest
    \<and> (\<forall>tail. length (pre @ tail) \<le> maxEnvelopeBytes \<longrightarrow> transcodeProof (pre @ tail) = Inr out)
    \<and> (\<forall>cut. length cut < length pre \<and> take (length cut) pre = cut \<longrightarrow> (\<forall>o'. transcodeProof cut \<noteq> Inr o'))"
proof -
  from assms obtain e pre rest where bs: "bs = pre @ rest" and enc: "envelope_enc e pre"
    and acc: "acceptable e" and out: "out = vadcop_bytes (env_proof e) (env_publics e)"
    by (auto simp: transcode_accepts_iff)
  have more: "transcodeProof (pre @ tail) = Inr out"
    if "length (pre @ tail) \<le> maxEnvelopeBytes" for tail
    unfolding transcode_accepts_iff using that enc acc out by blast
  have less: "transcodeProof cut \<noteq> Inr o'"
    if cut: "length cut < length pre" "take (length cut) pre = cut" for cut o'
  proof
    assume "transcodeProof cut = Inr o'"
    then obtain e' pre' rest' where c: "cut = pre' @ rest'" "envelope_enc e' pre'"
      by (auto simp: transcode_accepts_iff)
    have "pre = cut @ drop (length cut) pre" using cut(2) by (metis append_take_drop_id)
    with c have "pre @ [] = pre' @ (rest' @ drop (length cut) pre)" by simp
    from envelope_enc_prefix_free [OF enc c(2) this] c(1) cut(1) show False by simp
  qed
  from bs more less show ?thesis by blast
qed

theorem transcode_framing_witness:
  "\<exists>pre rest. put_envelope sample_envelope @ [0] = pre @ rest
    \<and> (\<forall>cut. length cut < length pre \<and> take (length cut) pre = cut \<longrightarrow> (\<forall>o'. transcodeProof cut \<noteq> Inr o'))"
  using transcode_framing [OF transcode_sample] by blast

lemma vadcop_bytes_inj:
  assumes "vadcop_bytes p pub = vadcop_bytes q pub'" "length pub = length pub'"
  shows "p = q \<and> pub = pub'"
proof -
  have "length (vadcop_bytes p pub) = length (vadcop_bytes q pub')" using assms(1) by simp
  with assms(2) have "length p = length q" by (simp add: length_vadcop_bytes)
  with assms show ?thesis by (simp add: vadcop_bytes_def concat_put_u64_inj)
qed

text \<open>Nothing the verifier checks is lost, since two accepted envelopes with the same
  transcoding carry the same proof words and the same public values.\<close>

theorem transcode_lossless:
  assumes "envelope_enc e pre" "acceptable e" "transcodeProof (pre @ rest) = Inr out"
    and "envelope_enc e' pre'" "acceptable e'" "transcodeProof (pre' @ rest') = Inr out"
  shows "env_proof e = env_proof e' \<and> env_publics e = env_publics e'"
proof -
  have val: "out = vadcop_bytes (env_proof d) (env_publics d)"
    if d: "envelope_enc d p" "transcodeProof (p @ r) = Inr out" for d p r
  proof -
    from d(2) obtain f q s where f: "p @ r = q @ s" "envelope_enc f q"
      "out = vadcop_bytes (env_proof f) (env_publics f)" by (auto simp: transcode_accepts_iff)
    with envelope_enc_prefix_free [OF d(1) f(2,1)] show ?thesis by simp
  qed
  from val [OF assms(1,3)] val [OF assms(4,6)] assms(2,5) show ?thesis
    by (intro vadcop_bytes_inj) (auto simp: acceptable_def)
qed

theorem transcode_lossless_witness:
  "env_proof sample_envelope = [7, 300, 2 ^ 40] \<and> env_publics sample_envelope = replicate 68 9"
proof -
  have enc: "envelope_enc sample_envelope (put_envelope sample_envelope)"
    by (rule put_envelope_spells) (simp_all add: sample_envelope_def)
  have acc: "acceptable sample_envelope" by (simp add: sample_envelope_def acceptable_def)
  let ?e = "sample_envelope\<lparr>env_zisk_vk := []\<rparr>"
  have enc': "envelope_enc ?e (put_envelope ?e)"
    by (rule put_envelope_spells) (simp_all add: sample_envelope_def)
  have acc': "acceptable ?e" by (simp add: sample_envelope_def acceptable_def)
  have t': "transcodeProof (put_envelope ?e @ [])
      = Inr (vadcop_bytes (env_proof sample_envelope) (env_publics sample_envelope))"
    unfolding transcode_accepts_iff using enc' acc' length_put_envelope [of ?e]
    by (intro conjI exI [of _ ?e] exI [of _ "put_envelope ?e"] exI [of _ "[]"])
      (simp_all add: sample_envelope_def maxEnvelopeBytes_def)
  from transcode_lossless [OF enc acc transcode_sample enc' acc' t'] show ?thesis
    by (simp add: sample_envelope_def)
qed

section \<open>What the transcoder refuses\<close>

text \<open>On a well-formed vadcop envelope the verdict follows the code's order of checks: first
  the kind and the hash family, then the number of program key words, then the number of public
  value words; a plonk body and an unknown variant are refused by the first byte string.\<close>

theorem transcode_verdict:
  assumes "length (pre @ rest) \<le> maxEnvelopeBytes"
  shows "(envelope_enc e pre \<longrightarrow> transcodeProof (pre @ rest) =
      (if env_kind e \<noteq> 0 \<or> env_hash e \<noteq> ''blake3'' then Inl Not_final_vadcop
       else if length (env_vk e) \<noteq> 4 then Inl (Program_vk_words (length (env_vk e)))
       else if length (env_publics e) \<noteq> 68 then Inl (Public_value_words (length (env_publics e)))
       else Inr (vadcop_bytes (env_proof e) (env_publics e))))
    \<and> (varint_enc v pre \<and> v \<noteq> 0 \<longrightarrow>
      transcodeProof (pre @ rest) = Inl (if v = 1 then Plonk_body else Unknown_body v))"
proof (rule conjI [rotated])
  show "varint_enc v pre \<and> v \<noteq> 0 \<longrightarrow>
      transcodeProof (pre @ rest) = Inl (if v = 1 then Plonk_body else Unknown_body v)"
  proof
    assume "varint_enc v pre \<and> v \<noteq> 0"
    with disc.reads [of v pre rest] obtain r1
      where "discriminant (new_reader (pre @ rest)) = (v, r1)" "positioned r1 rest" "v \<noteq> 0" by auto
    with assms show "transcodeProof (pre @ rest) = Inl (if v = 1 then Plonk_body else Unknown_body v)"
      by (auto simp: transcodeProof_def dest!: positioned_err)
  qed
  show "envelope_enc e pre \<longrightarrow> transcodeProof (pre @ rest) =
      (if env_kind e \<noteq> 0 \<or> env_hash e \<noteq> ''blake3'' then Inl Not_final_vadcop
       else if length (env_vk e) \<noteq> 4 then Inl (Program_vk_words (length (env_vk e)))
       else if length (env_publics e) \<noteq> 68 then Inl (Public_value_words (length (env_publics e)))
       else Inr (vadcop_bytes (env_proof e) (env_publics e)))"
  proof
    assume "envelope_enc e pre"
    then obtain b0 b1 b2 b3 b4 b5 b6 where
      pre: "pre = b0 @ b1 @ b2 @ b3 @ b4 @ b5 @ b6" and
      b: "varint_enc 0 b0" "vec_enc (env_proof e) b1" "vec_enc (env_zisk_vk e) b2"
        "varint_enc (env_kind e) b3" "str_enc (env_hash e) b4" "vec_enc (env_publics e) b5"
        "vec_enc (env_vk e) b6" by (auto simp: envelope_enc_def)
    have len: "\<not> maxEnvelopeBytes < length (b0 @ b1 @ b2 @ b3 @ b4 @ b5 @ b6 @ rest)"
      using assms by (simp add: pre)
    note a0 = disc.accepts [OF positioned_new b(1), of "b1 @ b2 @ b3 @ b4 @ b5 @ b6 @ rest"]
    note a1 = vec.accepts [OF conjunct2 [OF a0] b(2)]
    note a2 = vec.accepts [OF conjunct2 [OF a1] b(3)]
    note a3 = disc.accepts [OF conjunct2 [OF a2] b(4)]
    note a4 = str.accepts [OF conjunct2 [OF a3] b(5)]
    note a5 = vec.accepts [OF conjunct2 [OF a4] b(6)]
    note a6 = vec.accepts [OF conjunct2 [OF a5] b(7)]
    note errs = a0 [THEN conjunct2, THEN positioned_err] a5 [THEN conjunct2, THEN positioned_err]
      a6 [THEN conjunct2, THEN positioned_err]
    from len a0 a1 a2 a3 a4 a5 a6 errs show "transcodeProof (pre @ rest) =
      (if env_kind e \<noteq> 0 \<or> env_hash e \<noteq> ''blake3'' then Inl Not_final_vadcop
       else if length (env_vk e) \<noteq> 4 then Inl (Program_vk_words (length (env_vk e)))
       else if length (env_publics e) \<noteq> 68 then Inl (Public_value_words (length (env_publics e)))
       else Inr (vadcop_bytes (env_proof e) (env_publics e)))"
      by (simp add: pre transcodeProof_def finish_transcode_def skip_u64_vec_eq case_prod_beta Let_def
          vadcopKindFinal_def vadcopFinalHashFamily_def programVKWords_def publicValuesWords_def)
  qed
qed

theorem transcode_verdict_witness:
  "transcodeProof ([1] @ [2, 3]) = Inl Plonk_body \<and> transcodeProof ([9] @ []) = Inl (Unknown_body 9)"
proof -
  have l: "length ([1 :: byte] @ [2, 3]) \<le> maxEnvelopeBytes" "length ([9 :: byte] @ []) \<le> maxEnvelopeBytes"
    by (simp_all add: maxEnvelopeBytes_def)
  have "varint_enc 1 [1]" "varint_enc 9 [9]" by (simp_all add: marker_width_def)
  with transcode_verdict [OF l(1), of _ 1] transcode_verdict [OF l(2), of _ 9] show ?thesis by simp
qed

end
