(* ===== verification/Framing.thy ===== *)
theory Framing
  imports Bytes
begin

text \<open>
  The framing of a guest's standard input: \<open>framedStdin\<close> of \<open>internal/zisk/client.go\<close>
  and of \<open>internal/openvm/client.go\<close>. Both fill a zeroed buffer in place with
  \<open>PutUint64\<close> and \<open>copy\<close>. The guest's reader, which is not part of the
  repository, is the specification side: \<open>stdin_frame\<close> is the contract that what it reads
  back is the input.
\<close>

text \<open>Go's \<open>copy(dst[off:], src)\<close>, which stops at the end of the destination.\<close>

definition copy_at :: "nat \<Rightarrow> bytes \<Rightarrow> bytes \<Rightarrow> bytes" where
  "copy_at n src dst =
     List.take n dst @ List.take (length dst - n) src @ drop (n + length src) dst"

lemma length_copy_at [simp]: "n \<le> length dst \<Longrightarrow> length (copy_at n src dst) = length dst"
  by (simp add: copy_at_def)

lemma copy_at_fit: "length (xs :: bytes) = n \<Longrightarrow> length ys = length src \<Longrightarrow>
  copy_at n src (xs @ ys @ zs) = xs @ src @ zs"
  by (simp add: copy_at_def)

section \<open>The two framings\<close>

definition zisk_framedStdin :: "bytes \<Rightarrow> bytes" where
  "zisk_framedStdin data =
     (let framed = replicate ((8 + length data + 7) div 8 * 8) 0;
          framed = copy_at 0 (put_u64 (word_of_nat (length data))) framed
      in copy_at 8 data framed)"

definition openvm_framedStdin :: "bytes \<Rightarrow> bytes" where
  "openvm_framedStdin data =
     (let framed = replicate (24 + length data) 0;
          framed = copy_at 0 (put_u64 1) framed;
          framed = copy_at 8 (put_u64 (word_of_nat (length data))) framed
      in copy_at 16 data framed)"

lemma zeros_split: "m + k = n \<Longrightarrow> replicate n (0 :: byte) = replicate m 0 @ replicate k 0"
  by (auto simp: replicate_add)

lemma zisk_framedStdin_eq:
  "zisk_framedStdin data = put_u64 (word_of_nat (length data)) @ data
     @ replicate ((8 + length data + 7) div 8 * 8 - (8 + length data)) 0"
proof -
  let ?n = "(8 + length data + 7) div 8 * 8"
  let ?k = "?n - (8 + length data)"
  have "8 + length data \<le> ?n" by simp
  then have "replicate ?n (0 :: byte)
      = [] @ replicate 8 0 @ (replicate (length data) 0 @ replicate ?k 0)"
    using zeros_split [of 8 "length data + ?k" ?n] zeros_split [of "length data" ?k "length data + ?k"]
    by simp
  then have "copy_at 0 (put_u64 (word_of_nat (length data))) (replicate ?n 0)
      = put_u64 (word_of_nat (length data)) @ replicate (length data) 0 @ replicate ?k 0"
    using copy_at_fit [of "[]" 0 "replicate 8 0" "put_u64 (word_of_nat (length data))"] by simp
  then show ?thesis
    using copy_at_fit [of "put_u64 (word_of_nat (length data))" 8 "replicate (length data) 0" data
        "replicate ?k 0"]
    by (simp add: zisk_framedStdin_def Let_def)
qed

lemma openvm_framedStdin_eq:
  "openvm_framedStdin data = put_u64 1 @ put_u64 (word_of_nat (length data)) @ data @ replicate 8 0"
proof -
  let ?len = "put_u64 (word_of_nat (length data))"
  have "replicate (24 + length data) (0 :: byte)
      = [] @ replicate 8 0 @ (replicate 8 0 @ replicate (length data) 0 @ replicate 8 0)"
    using zeros_split [of 8 "16 + length data"] zeros_split [of 8 "length data + 8" "16 + length data"]
      zeros_split [of "length data" 8 "length data + 8"] by simp
  then have 1: "copy_at 0 (put_u64 1) (replicate (24 + length data) 0)
      = put_u64 1 @ replicate 8 0 @ (replicate (length data) 0 @ replicate 8 0)"
    using copy_at_fit [of "[]" 0 "replicate 8 0" "put_u64 1"] by simp
  have 2: "copy_at 8 ?len (put_u64 1 @ replicate 8 0 @ (replicate (length data) 0 @ replicate 8 0))
      = (put_u64 1 @ ?len) @ replicate (length data) 0 @ replicate 8 0"
    using copy_at_fit [of "put_u64 1" 8 "replicate 8 0" ?len] by simp
  have 3: "copy_at 16 data ((put_u64 1 @ ?len) @ replicate (length data) 0 @ replicate 8 0)
      = (put_u64 1 @ ?len) @ data @ replicate 8 0"
    by (rule copy_at_fit) simp_all
  show ?thesis using 3 by (simp add: openvm_framedStdin_def Let_def 1 2)
qed

section \<open>The contract with the guest's reader\<close>

text \<open>ZisK: a length word, the bytes, zeros up to the next multiple of eight.\<close>

definition zisk_read_stdin :: "bytes \<Rightarrow> bytes option" where
  "zisk_read_stdin bs =
     (let n = unat (get_u64 (List.take 8 bs)); body = drop 8 bs in
      if 8 \<le> length bs \<and> n \<le> length body \<and> 8 dvd length bs
        \<and> drop n body = replicate (length body - n) 0 \<and> length body - n < 8
      then Some (List.take n body) else None)"

text \<open>OpenVM: bincode's legacy layout of one buffered byte string and no deferrals.\<close>

definition openvm_read_stdin :: "bytes \<Rightarrow> bytes option" where
  "openvm_read_stdin bs =
     (let count = unat (get_u64 (List.take 8 bs)); n = unat (get_u64 (List.take 8 (drop 8 bs)));
          body = drop 16 bs in
      if 16 \<le> length bs \<and> count = 1 \<and> length body = n + 8 \<and> get_u64 (drop n body) = 0
      then Some (List.take n body) else None)"

locale stdin_frame =
  fixes frame :: "bytes \<Rightarrow> bytes" and read_back :: "bytes \<Rightarrow> bytes option"
  assumes read_frame: "length data < 2 ^ 63 \<Longrightarrow> read_back (frame data) = Some data"
begin

lemma frame_inj:
  "length x < 2 ^ 63 \<Longrightarrow> length y < 2 ^ 63 \<Longrightarrow> frame x = frame y \<longleftrightarrow> x = y"
  using read_frame by (metis option.inject)

end

lemma get_u64_zeros [simp]: "get_u64 (replicate k 0) = 0"
  using le_nat_append_zeros [of "[]" k] by (simp add: get_u64_def)

lemma round_up_8:
  "n \<le> (n + 7) div 8 * 8 \<and> (n + 7) div 8 * 8 - n < (8 :: nat) \<and> 8 dvd (n + 7) div 8 * 8"
proof -
  have "(n + 7) div 8 * 8 + (n + 7) mod 8 = n + 7" by (rule div_mult_mod_eq)
  moreover have "(n + 7) mod 8 < 8" by simp
  ultimately show ?thesis by (intro conjI) (linarith, linarith, simp)
qed

lemma length_zisk_framedStdin: "length (zisk_framedStdin data) = (8 + length data + 7) div 8 * 8"
  using round_up_8 [of "8 + length data"] by (simp add: zisk_framedStdin_eq)

interpretation zisk_stdin: stdin_frame zisk_framedStdin zisk_read_stdin
proof
  fix data :: bytes
  assume "length data < 2 ^ 63"
  then have n: "unat (word_of_nat (length data) :: u64) = length data" by (simp add: unat_of_nat)
  define k where "k = (8 + length data + 7) div 8 * 8 - (8 + length data)"
  have "8 dvd (8 + length data + k)" "k < 8"
    using round_up_8 [of "8 + length data"] unfolding k_def by simp_all
  moreover have "zisk_framedStdin data = put_u64 (word_of_nat (length data)) @ data @ replicate k 0"
    unfolding k_def by (rule zisk_framedStdin_eq)
  ultimately show "zisk_read_stdin (zisk_framedStdin data) = Some data"
    using n by (simp add: zisk_read_stdin_def Let_def add.assoc)
qed

interpretation openvm_stdin: stdin_frame openvm_framedStdin openvm_read_stdin
proof
  fix data :: bytes
  assume "length data < 2 ^ 63"
  then have "unat (word_of_nat (length data) :: u64) = length data" by (simp add: unat_of_nat)
  then show "openvm_read_stdin (openvm_framedStdin data) = Some data"
    using get_u64_zeros [of 8]
    by (simp add: openvm_framedStdin_eq openvm_read_stdin_def Let_def del: get_u64_zeros)
qed

text \<open>C39: both framings are read back as the input they were made from, so two inputs never
  share a frame, and a ZisK frame is a multiple of eight bytes at most 15 bytes longer than the
  input while an OpenVM frame is exactly 24 bytes longer.\<close>

theorem framed_stdin_roundtrip:
  assumes "length data < 2 ^ 63"
  shows "zisk_read_stdin (zisk_framedStdin data) = Some data
    \<and> openvm_read_stdin (openvm_framedStdin data) = Some data
    \<and> 8 dvd length (zisk_framedStdin data)
    \<and> length (zisk_framedStdin data) \<le> length data + 15
    \<and> length (openvm_framedStdin data) = length data + 24"
proof -
  from round_up_8 [of "8 + length data"] have "8 dvd length (zisk_framedStdin data)"
    and "length (zisk_framedStdin data) \<le> length data + 15"
    by (simp_all add: zisk_framedStdin_eq)
  moreover have "length (openvm_framedStdin data) = length data + 24"
    by (simp add: openvm_framedStdin_eq)
  ultimately show ?thesis using assms zisk_stdin.read_frame openvm_stdin.read_frame by blast
qed

theorem framed_stdin_roundtrip_witness:
  "zisk_read_stdin (zisk_framedStdin [1, 2, 3]) = Some [1, 2, 3]
    \<and> openvm_read_stdin (openvm_framedStdin [1, 2, 3]) = Some [1, 2, 3]
    \<and> length (zisk_framedStdin [1, 2, 3]) = 16"
  using framed_stdin_roundtrip [of "[1, 2, 3]"] by (simp add: zisk_framedStdin_eq)

end
