(* ===== verification/Output.thy ===== *)
theory Output
  imports Go_Text
begin

text \<open>
  \<open>internal/cluster/output.go\<close>: the line printer every host operation shares and the writer
  that turns a container's byte stream into prefixed lines. The printer's writer is the list of
  lines printed so far; \<open>Write\<close> and \<open>Flush\<close> take the writer's pending bytes and
  that list. The mutex of \<open>Printf\<close> makes each line one step, as here.
\<close>

record progress =
  printed :: "string list"

record prefix_writer =
  lead :: string
  pending :: string

definition printf_line :: "progress \<Rightarrow> string \<Rightarrow> progress" where
  "printf_line o1 line = o1\<lparr>printed := printed o1 @ [line]\<rparr>"

definition leading :: "string \<Rightarrow> prefix_writer" where
  "leading l = \<lparr>lead = l, pending = []\<rparr>"

definition prefixed :: "string \<Rightarrow> prefix_writer" where
  "prefixed p = leading (''['' @ p @ ''] '')"

definition newline :: char where "newline = CHR 0x0A"

definition carriage_return :: char where "carriage_return = CHR 0x0D"

definition trim_right_cr :: "string \<Rightarrow> string" where
  "trim_right_cr s = rev (dropWhile (\<lambda>c. c = carriage_return) (rev s))"

text \<open>
  The loop of \<open>Write\<close>: as long as the pending bytes hold a newline, the line before it is
  printed and both are dropped.
\<close>

function drain :: "string \<Rightarrow> string \<Rightarrow> progress \<Rightarrow> string \<times> progress" where
  "drain l buf o1 =
     (if newline \<in> set buf
      then let line = takeWhile (\<lambda>c. c \<noteq> newline) buf;
               rest = drop (length line + 1) buf
           in drain l rest (printf_line o1 (l @ trim_right_cr line))
      else (buf, o1))"
  by pat_completeness auto
termination
  by (relation "measure (\<lambda>(l, buf, o1). length buf)") (auto dest: length_pos_if_in_set)

declare drain.simps [simp del]

definition pw_write :: "prefix_writer \<Rightarrow> progress \<Rightarrow> string \<Rightarrow> prefix_writer \<times> progress" where
  "pw_write p o1 data =
     (let (rest, o2) = drain (lead p) (pending p @ data) o1 in (p\<lparr>pending := rest\<rparr>, o2))"

definition pw_flush :: "prefix_writer \<Rightarrow> progress \<Rightarrow> prefix_writer \<times> progress" where
  "pw_flush p o1 =
     (if pending p \<noteq> [] then (p\<lparr>pending := []\<rparr>, printf_line o1 (lead p @ pending p)) else (p, o1))"

text \<open>A stream arrives in the chunks the reader hands over.\<close>

fun pw_write_all :: "prefix_writer \<Rightarrow> progress \<Rightarrow> string list \<Rightarrow> prefix_writer \<times> progress" where
  "pw_write_all p o1 [] = (p, o1)"
| "pw_write_all p o1 (d # ds) = (let (p1, o2) = pw_write p o1 d in pw_write_all p1 o2 ds)"

section \<open>What a stream prints\<close>

text \<open>
  The specification does not mention chunks: the lines are the pieces of the whole stream between
  newlines, without their trailing carriage returns, and a piece the stream ends in is printed as
  it is.
\<close>

definition stream_lines :: "string \<Rightarrow> string \<Rightarrow> string list" where
  "stream_lines l s =
     (let parts = split_on newline s in
      map (\<lambda>line. l @ trim_right_cr line) (butlast parts)
      @ (if last parts = [] then [] else [l @ last parts]))"

lemma drain_spec:
  "drain l s o1 = (last (split_on newline s),
     o1\<lparr>printed := printed o1 @ map (\<lambda>line. l @ trim_right_cr line) (butlast (split_on newline s))\<rparr>)"
proof (induction l s o1 rule: drain.induct)
  case (1 l s o1)
  show ?case
  proof (cases "newline \<in> set s")
    case True
    then obtain a b where s: "s = a @ newline # b" and a: "newline \<notin> set a"
      by (metis split_list_first)
    have tw: "takeWhile (\<lambda>c. c \<noteq> newline) s = a"
      unfolding s using a by (subst takeWhile_append2) auto
    have "drain l b (printf_line o1 (l @ trim_right_cr a)) = drain l s o1"
      using True tw by (subst (2) drain.simps) (simp add: Let_def s)
    with 1 [OF True refl refl] tw show ?thesis
      by (simp add: s split_on_step [OF a] printf_line_def)
  next
    case False
    then show ?thesis by (subst drain.simps) (simp add: split_on_none)
  qed
qed

lemma drain_append:
  "drain l (s @ t) o1 = (let (rest, o2) = drain l s o1 in drain l (rest @ t) o2)"
proof -
  let ?last = "last (split_on newline s)"
  show ?thesis
    using split_on_append [of newline s t] split_on_append [of newline ?last t]
    by (cases "split_on newline t") (simp_all add: drain_spec split_on_last_none butlast_append)
qed

lemma pw_write_append:
  "pw_write p o1 (d @ e) = (let (p1, o2) = pw_write p o1 d in pw_write p1 o2 e)"
  using drain_append [of "lead p" "pending p @ d" e o1]
  by (simp add: pw_write_def Let_def split: prod.splits)

lemma pw_write_nil: "newline \<notin> set (pending p) \<Longrightarrow> pw_write p o1 [] = (p, o1)"
  by (simp add: pw_write_def drain.simps)

lemma pw_write_pending: "newline \<notin> set (pending (fst (pw_write p o1 d)))"
  using split_on_no_sep [of newline "pending p @ d"]
  by (simp add: pw_write_def drain_spec last_in_set)

lemma pw_write_all_concat:
  "newline \<notin> set (pending p) \<Longrightarrow> pw_write_all p o1 ds = pw_write p o1 (concat ds)"
proof (induction ds arbitrary: p o1)
  case (Cons d ds)
  have "pw_write_all (fst (pw_write p o1 d)) (snd (pw_write p o1 d)) ds
      = pw_write (fst (pw_write p o1 d)) (snd (pw_write p o1 d)) (concat ds)"
    by (rule Cons.IH) (rule pw_write_pending)
  then show ?case by (simp add: pw_write_append case_prod_beta Let_def)
qed (simp add: pw_write_nil)

text \<open>However a container's output is cut into chunks, the relay prints the lines of the whole
  stream under its prefix, complete lines without trailing carriage returns and a last partial line
  on the flush, and leaves nothing pending.\<close>

theorem relay_lines:
  "(let (p1, o1) = pw_write_all (prefixed name) out chunks in pw_flush p1 o1)
     = (prefixed name, out\<lparr>printed := printed out @ stream_lines (''['' @ name @ ''] '') (concat chunks)\<rparr>)"
proof -
  have "pw_write_all (prefixed name) out chunks = pw_write (prefixed name) out (concat chunks)"
    by (rule pw_write_all_concat) (simp add: prefixed_def leading_def)
  then show ?thesis
    by (simp add: pw_write_def prefixed_def leading_def drain_spec stream_lines_def Let_def
        pw_flush_def printf_line_def)
qed

end
