(* ===== verification/Runtime.thy ===== *)
theory Runtime
  imports Prelude
begin

text \<open>
  The clock, the contexts and the calls of the two cluster clients. Time is in nanoseconds. A
  \<open>context.Context\<close> is the time at which its \<open>Done\<close> closes, \<open>None\<close> where it never
  does, so \<open>WithTimeout\<close> and \<open>WithoutCancel\<close> are functions of it and
  \<open>ctx.Err() != nil\<close> is a comparison with the clock. The services a client talks to are one
  parameter \<open>srv\<close>: from a request, its context, the time and their own state they give the
  reply, the time it took and their next state. The machine logs what a client sent and the
  phases it reported. \<open>Sleep\<close> is that of \<open>internal/cluster/docker.go\<close>.
\<close>

type_synonym ctx = "int option"

definition second :: int where "second = 1000000000"

definition ctx_done :: "ctx \<Rightarrow> int \<Rightarrow> bool" where
  "ctx_done c t \<longleftrightarrow> (case c of None \<Rightarrow> False | Some e \<Rightarrow> e \<le> t)"

definition with_timeout :: "ctx \<Rightarrow> int \<Rightarrow> int \<Rightarrow> ctx" where
  "with_timeout c d t = Some (case c of None \<Rightarrow> t + d | Some e \<Rightarrow> min e (t + d))"

definition without_cancel :: "ctx \<Rightarrow> ctx" where
  "without_cancel c = None"

record ('q, 'w) machine =
  clock :: int
  sent :: "'q list"
  phases :: "string list"
  env :: 'w

type_synonym ('q, 'r, 'w) service = "'q \<Rightarrow> ctx \<Rightarrow> int \<Rightarrow> 'w \<Rightarrow> 'r \<times> nat \<times> 'w"

definition call :: "('q, 'r, 'w) service \<Rightarrow> ctx \<Rightarrow> 'q \<Rightarrow> ('q, 'w) machine \<Rightarrow> 'r \<times> ('q, 'w) machine" where
  "call srv c q m = (case srv q c (clock m) (env m) of (r, dt, w) \<Rightarrow>
     (r, m\<lparr>clock := clock m + int dt, sent := sent m @ [q], env := w\<rparr>))"

definition on_phase :: "string \<Rightarrow> ('q, 'w) machine \<Rightarrow> ('q, 'w) machine" where
  "on_phase p m = m\<lparr>phases := phases m @ [p]\<rparr>"

text \<open>\<open>Sleep\<close>: whether the whole time passed before the context ended. Where both fall on one
  instant, the select may take either, and the model takes the context.\<close>

definition sleep :: "ctx \<Rightarrow> int \<Rightarrow> ('q, 'w) machine \<Rightarrow> bool \<times> ('q, 'w) machine" where
  "sleep c d m =
     (case c of
        None \<Rightarrow> (True, m\<lparr>clock := clock m + max d 0\<rparr>)
      | Some e \<Rightarrow> if e \<le> clock m + max d 0 then (False, m\<lparr>clock := max (clock m) e\<rparr>)
                 else (True, m\<lparr>clock := clock m + max d 0\<rparr>))"

lemma call_logs [simp]:
  "sent (snd (call srv c q m)) = sent m @ [q]" "phases (snd (call srv c q m)) = phases m"
  "clock m \<le> clock (snd (call srv c q m))"
  by (simp_all add: call_def split: prod.split)

lemma call_clock: "call srv c q m = (r, m') \<Longrightarrow> clock m \<le> clock m'"
  using call_logs(3) [of m srv c q] by simp

lemma on_phase_keeps [simp]:
  "sent (on_phase p m) = sent m" "clock (on_phase p m) = clock m" "env (on_phase p m) = env m"
  "phases (on_phase p m) = phases m @ [p]"
  by (simp_all add: on_phase_def)

lemma sleep_keeps [simp]:
  "sent (snd (sleep c d m)) = sent m" "phases (snd (sleep c d m)) = phases m"
  "clock m \<le> clock (snd (sleep c d m))"
  by (auto simp: sleep_def split: option.split)

lemma sleep_False: "sleep c d m = (False, m') \<Longrightarrow> ctx_done c (clock m')"
  by (auto simp: sleep_def ctx_done_def split: option.splits if_splits)

lemma sleep_True: "sleep c d m = (True, m') \<Longrightarrow>
    clock m' = clock m + max d 0 \<and> \<not> ctx_done c (clock m')"
  by (auto simp: sleep_def ctx_done_def split: option.splits if_splits)

lemma ctx_done_mono: "ctx_done c t \<Longrightarrow> t \<le> t' \<Longrightarrow> ctx_done c t'"
  by (auto simp: ctx_done_def split: option.splits)

section \<open>Paced retries\<close>

text \<open>
  The loops of the clients that try again after a pause: an attempt, on its error a handler that
  may give up with an error of its own, and a \<open>Sleep\<close> that gives up with the attempt's error
  when the context ends. A loop that may not end takes fuel and gives \<open>None\<close> when it runs out.
\<close>

datatype 'e gave_up =
    Permanent 'e
  | Expired 'e

fun retry ::
  "nat \<Rightarrow> (('q, 'w) machine \<Rightarrow> ('e + 'a) \<times> ('q, 'w) machine)
    \<Rightarrow> ('e \<Rightarrow> ('q, 'w) machine \<Rightarrow> 'e option \<times> ('q, 'w) machine) \<Rightarrow> ctx \<Rightarrow> int
    \<Rightarrow> ('q, 'w) machine \<Rightarrow> (('e gave_up + 'a) \<times> ('q, 'w) machine) option" where
  "retry 0 attempt handle c d m = None"
| "retry (Suc fuel) attempt handle c d m =
     (case attempt m of
        (Inr a, m1) \<Rightarrow> Some (Inr a, m1)
      | (Inl e, m1) \<Rightarrow>
          (case handle e m1 of
             (Some e', m2) \<Rightarrow> Some (Inl (Permanent e'), m2)
           | (None, m2) \<Rightarrow>
               (case sleep c d m2 of
                  (False, m3) \<Rightarrow> Some (Inl (Expired e), m3)
                | (True, m3) \<Rightarrow> retry fuel attempt handle c d m3)))"

text \<open>What a client owes the loop: neither step turns the clock back. The laws of the loop follow.\<close>

locale paced =
  fixes attempt :: "('q, 'w) machine \<Rightarrow> ('e + 'a) \<times> ('q, 'w) machine"
    and handle :: "'e \<Rightarrow> ('q, 'w) machine \<Rightarrow> 'e option \<times> ('q, 'w) machine"
  assumes attempt_clock: "clock m \<le> clock (snd (attempt m))"
    and handle_clock: "clock m \<le> clock (snd (handle e m))"
begin

lemma retry_clock: "retry fuel attempt handle c d m = Some (r, m') \<Longrightarrow> clock m \<le> clock m'"
proof (induction fuel arbitrary: m)
  case (Suc fuel)
  obtain x m1 where a: "attempt m = (x, m1)" by force
  have c1: "clock m \<le> clock m1" using attempt_clock [of m] by (simp add: a)
  show ?case
  proof (cases x)
    case (Inr v)
    with Suc.prems a c1 show ?thesis by simp
  next
    case (Inl e)
    obtain y m2 where h: "handle e m1 = (y, m2)" by force
    have c2: "clock m1 \<le> clock m2" using handle_clock [of m1 e] by (simp add: h)
    obtain b m3 where s: "sleep c d m2 = (b, m3)" by force
    have c3: "clock m2 \<le> clock m3" using sleep_keeps(3) [of m2 c d] by (simp add: s)
    show ?thesis
    proof (cases "y = None \<and> b")
      case True
      with Suc.prems a Inl h s have "retry fuel attempt handle c d m3 = Some (r, m')" by simp
      from Suc.IH [OF this] c1 c2 c3 show ?thesis by simp
    next
      case False
      with Suc.prems a Inl h s c1 c2 c3 show ?thesis by (auto split: option.splits bool.splits)
    qed
  qed
qed simp

text \<open>A loop whose context ends returns: each round takes at least the pause.\<close>

lemma retry_returns:
  assumes "0 < d"
  shows "e - clock m < int fuel * d \<Longrightarrow> 0 < fuel \<Longrightarrow>
    \<exists>r m'. retry fuel attempt handle (Some e) d m = Some (r, m')"
proof (induction fuel arbitrary: m)
  case (Suc fuel)
  obtain x m1 where a: "attempt m = (x, m1)" by force
  have c1: "clock m \<le> clock m1" using attempt_clock [of m] by (simp add: a)
  show ?case
  proof (cases x)
    case (Inr v)
    with a show ?thesis by simp
  next
    case (Inl er)
    obtain y m2 where h: "handle er m1 = (y, m2)" by force
    have c2: "clock m1 \<le> clock m2" using handle_clock [of m1 er] by (simp add: h)
    obtain b m3 where s: "sleep (Some e) d m2 = (b, m3)" by force
    show ?thesis
    proof (cases "y = None \<and> b")
      case True
      with s have up: "clock m3 = clock m2 + d" "clock m3 < e"
        using sleep_True [of "Some e" d m2 m3] assms by (auto simp: ctx_done_def)
      from Suc.prems(1) c1 c2 up have gap: "e - clock m3 < int fuel * d" by (simp add: algebra_simps)
      with up have "0 < fuel" by (cases fuel) auto
      from Suc.IH [OF gap this] True a Inl h s show ?thesis by simp
    next
      case False
      with a Inl h s show ?thesis by (cases y; cases b) auto
    qed
  qed
qed simp

end

text \<open>What a loop that returned did last.\<close>

lemma retry_Inr:
  assumes "retry fuel attempt handle c d m = Some (Inr a, m')"
  shows "\<exists>m1. attempt m1 = (Inr a, m')"
  using assms
  by (induction fuel arbitrary: m) (auto split: prod.splits sum.splits option.splits bool.splits)

lemma retry_Permanent:
  assumes "retry fuel attempt handle c d m = Some (Inl (Permanent e'), m')"
  shows "\<exists>m1 m2 e. attempt m1 = (Inl e, m2) \<and> handle e m2 = (Some e', m')"
  using assms
  by (induction fuel arbitrary: m) (auto split: prod.splits sum.splits option.splits bool.splits)

lemma retry_Expired:
  assumes "retry fuel attempt handle c d m = Some (Inl (Expired e), m')"
  shows "ctx_done c (clock m') \<and> (\<exists>m1 m2 m3. attempt m1 = (Inl e, m2) \<and> handle e m2 = (None, m3))"
  using assms
proof (induction fuel arbitrary: m)
  case (Suc fuel)
  then show ?case
    by (auto split: prod.splits sum.splits option.splits bool.splits dest: sleep_False)
qed simp

text \<open>An invariant of the attempts and the handlers is one of the loop.\<close>

lemma retry_invariant:
  assumes "retry fuel attempt handle c d m = Some (r, m')" "P m"
    and "\<And>m. P m \<Longrightarrow> P (snd (attempt m))" "\<And>e m. P m \<Longrightarrow> P (snd (handle e m))"
    and "\<And>m. P m \<Longrightarrow> P (snd (sleep c d m))"
  shows "P m'"
  using assms(1,2)
proof (induction fuel arbitrary: m)
  case (Suc fuel)
  obtain x m1 where a: "attempt m = (x, m1)" by force
  have p1: "P m1" using assms(3) [OF Suc.prems(2)] by (simp add: a)
  show ?case
  proof (cases x)
    case (Inr v)
    with Suc.prems a p1 show ?thesis by simp
  next
    case (Inl e)
    obtain y m2 where h: "handle e m1 = (y, m2)" by force
    have p2: "P m2" using assms(4) [OF p1, of e] by (simp add: h)
    obtain b m3 where s: "sleep c d m2 = (b, m3)" by force
    have p3: "P m3" using assms(5) [OF p2] by (simp add: s)
    show ?thesis
    proof (cases "y = None \<and> b")
      case True
      with Suc.prems a Inl h s have "retry fuel attempt handle c d m3 = Some (r, m')" by simp
      from Suc.IH [OF this p3] show ?thesis .
    next
      case False
      with Suc.prems a Inl h s p2 p3 show ?thesis by (auto split: option.splits bool.splits)
    qed
  qed
qed simp

text \<open>The attempt that ended a loop ran in a state the invariant holds in.\<close>

lemma retry_Inr_from:
  assumes "retry fuel attempt handle c d m = Some (Inr a, m')" "P m"
    and "\<And>m e. P m \<Longrightarrow> fst (attempt m) = Inl e \<Longrightarrow> P (snd (attempt m))"
    and "\<And>e m. P m \<Longrightarrow> P (snd (handle e m))"
    and "\<And>m. P m \<Longrightarrow> P (snd (sleep c d m))"
  shows "\<exists>m1. P m1 \<and> attempt m1 = (Inr a, m')"
  using assms(1,2)
proof (induction fuel arbitrary: m)
  case (Suc fuel)
  obtain x m1 where a: "attempt m = (x, m1)" by force
  show ?case
  proof (cases x)
    case (Inr v)
    with Suc.prems a show ?thesis by auto
  next
    case (Inl e)
    have p1: "P m1" using assms(3) [OF Suc.prems(2), of e] by (simp add: a Inl)
    obtain y m2 where h: "handle e m1 = (y, m2)" by force
    have p2: "P m2" using assms(4) [OF p1, of e] by (simp add: h)
    obtain b m3 where s: "sleep c d m2 = (b, m3)" by force
    have p3: "P m3" using assms(5) [OF p2] by (simp add: s)
    from Suc.prems a Inl h s have "retry fuel attempt handle c d m3 = Some (Inr a, m')"
      by (cases y; cases b) auto
    from Suc.IH [OF this p3] show ?thesis .
  qed
qed simp

section \<open>Growing logs\<close>

text \<open>\<open>grows P m m'\<close>: between two states the clock did not go back and only requests that satisfy
  \<open>P\<close> were sent.\<close>

definition grows :: "('q \<Rightarrow> bool) \<Rightarrow> ('q, 'w) machine \<Rightarrow> ('q, 'w) machine \<Rightarrow> bool" where
  "grows P m m' \<longleftrightarrow> clock m \<le> clock m' \<and> (\<exists>new. sent m' = sent m @ new \<and> (\<forall>q \<in> set new. P q))"

lemma grows_refl [simp]: "grows P m m"
  by (simp add: grows_def)

lemma grows_trans: "grows P m1 m2 \<Longrightarrow> grows P m2 m3 \<Longrightarrow> grows P m1 m3"
  unfolding grows_def by fastforce

lemma grows_clock: "grows (\<lambda>_. True) m m' \<Longrightarrow> clock m \<le> clock m'"
  by (simp add: grows_def)

lemma grows_call: "P q \<Longrightarrow> grows P m (snd (call srv c q m))"
  by (simp add: grows_def)

lemma grows_call_eq: "call srv c q m = (r, m') \<Longrightarrow> P q \<Longrightarrow> grows P m m'"
  using grows_call [of P q m srv c] by simp

lemma grows_sleep: "grows P m (snd (sleep c d m))"
  by (simp add: grows_def)

lemma grows_on_phase [simp]: "grows P m (on_phase p m)"
  by (simp add: grows_def)

lemma grows_retry:
  assumes "retry fuel attempt handle c d m = Some (r, m')"
    and "\<And>m. grows P m (snd (attempt m))" "\<And>e m. grows P m (snd (handle e m))"
  shows "grows P m m'"
  using assms(1)
proof (rule retry_invariant [where P = "grows P m"])
  show "grows P m (snd (attempt m1))" if "grows P m m1" for m1
    using that assms(2) by (rule grows_trans)
  show "grows P m (snd (handle e m1))" if "grows P m m1" for e m1
    using that assms(3) by (rule grows_trans)
  show "grows P m (snd (sleep c d m1))" if "grows P m m1" for m1
    using that grows_sleep by (rule grows_trans)
qed simp

section \<open>Retries of attempts that wait\<close>

text \<open>The same loop over attempts and handlers that poll a job of their own, and so may run out of
  fuel.\<close>

fun oretry ::
  "nat \<Rightarrow> (('q, 'w) machine \<Rightarrow> (('e + 'a) \<times> ('q, 'w) machine) option)
    \<Rightarrow> ('e \<Rightarrow> ('q, 'w) machine \<Rightarrow> ('e option \<times> ('q, 'w) machine) option) \<Rightarrow> ctx \<Rightarrow> int
    \<Rightarrow> ('q, 'w) machine \<Rightarrow> (('e gave_up + 'a) \<times> ('q, 'w) machine) option" where
  "oretry 0 attempt handle c d m = None"
| "oretry (Suc fuel) attempt handle c d m =
     (case attempt m of
        None \<Rightarrow> None
      | Some (Inr a, m1) \<Rightarrow> Some (Inr a, m1)
      | Some (Inl e, m1) \<Rightarrow>
          (case handle e m1 of
             None \<Rightarrow> None
           | Some (Some e', m2) \<Rightarrow> Some (Inl (Permanent e'), m2)
           | Some (None, m2) \<Rightarrow>
               (case sleep c d m2 of
                  (False, m3) \<Rightarrow> Some (Inl (Expired e), m3)
                | (True, m3) \<Rightarrow> oretry fuel attempt handle c d m3)))"

text \<open>How the loop ended, from a state that an invariant of its rounds holds in.\<close>

lemma oretry_cases [consumes 2, case_names round admitted refused expired]:
  assumes "oretry fuel attempt handle c d m = Some (r, m')" "P m"
    and round: "\<And>m1 e m2 m3 m4. P m1 \<Longrightarrow> attempt m1 = Some (Inl e, m2) \<Longrightarrow> handle e m2 = Some (None, m3)
      \<Longrightarrow> sleep c d m3 = (True, m4) \<Longrightarrow> P m4"
    and Q: "\<And>a m1. P m1 \<Longrightarrow> attempt m1 = Some (Inr a, m') \<Longrightarrow> r = Inr a \<Longrightarrow> Q"
      "\<And>e e' m1 m2. P m1 \<Longrightarrow> attempt m1 = Some (Inl e, m2) \<Longrightarrow> handle e m2 = Some (Some e', m')
        \<Longrightarrow> r = Inl (Permanent e') \<Longrightarrow> Q"
      "\<And>e m1 m2 m3. P m1 \<Longrightarrow> attempt m1 = Some (Inl e, m2) \<Longrightarrow> handle e m2 = Some (None, m3)
        \<Longrightarrow> sleep c d m3 = (False, m') \<Longrightarrow> r = Inl (Expired e) \<Longrightarrow> Q"
  shows Q
  using assms(1,2)
proof (induction fuel arbitrary: m)
  case (Suc fuel)
  from Suc.prems(1) obtain x m1 where a: "attempt m = Some (x, m1)" by (auto split: option.splits)
  show ?case
  proof (cases x)
    case (Inr v)
    with Suc.prems a Q(1) show ?thesis by auto
  next
    case (Inl e)
    with Suc.prems(1) a obtain y m2 where h: "handle e m1 = Some (y, m2)" by (auto split: option.splits)
    obtain b m3 where s: "sleep c d m2 = (b, m3)" by force
    show ?thesis
    proof (cases y)
      case (Some e')
      with Suc.prems a Inl h Q(2) show ?thesis by auto
    next
      case None
      show ?thesis
      proof (cases b)
        case True
        with Suc.prems(1) a Inl h None s have "oretry fuel attempt handle c d m3 = Some (r, m')" by simp
        moreover have "P m3"
          by (rule round [OF Suc.prems(2)]) (use a Inl h None s True in auto)
        ultimately show ?thesis by (rule Suc.IH)
      next
        case False
        with Suc.prems a Inl h None s Q(3) show ?thesis by auto
      qed
    qed
  qed
qed simp

lemma grows_oretry:
  assumes "oretry fuel attempt handle c d m = Some (r, m')"
    and "\<And>m r m'. attempt m = Some (r, m') \<Longrightarrow> grows P m m'"
    and "\<And>e m r m'. handle e m = Some (r, m') \<Longrightarrow> grows P m m'"
  shows "grows P m m'"
proof -
  have whole: "grows P m m4" if "grows P m m1" "attempt m1 = Some (x, m2)" "handle e m2 = Some (y, m3)"
    "sleep c d m3 = (b, m4)" for m1 m2 m3 m4 e x y b
    using grows_trans [OF grows_trans [OF grows_trans [OF that(1) assms(2) [OF that(2)]] assms(3) [OF that(3)]]
        grows_sleep [of P m3 c d]] that(4) by simp
  from assms(1) grows_refl [of P m] show ?thesis
  proof (cases rule: oretry_cases [where P = "grows P m"])
    case (round m1 e m2 m3 m4)
    then show ?case using whole by blast
  next
    case (admitted a m1)
    then show ?thesis using grows_trans assms(2) by blast
  next
    case (refused e e' m1 m2)
    then show ?thesis using grows_trans [OF grows_trans] assms(2,3) by blast
  next
    case (expired e m1 m2 m3)
    then show ?thesis using whole by blast
  qed
qed

text \<open>Where the rounds always return and do not turn the clock back, the loop returns before its
  context's end.\<close>

lemma oretry_returns:
  assumes attempt_ends: "\<And>m. \<exists>r m'. attempt m = Some (r, m') \<and> clock m \<le> clock m'"
    and handle_ends: "\<And>e m. \<exists>r m'. handle e m = Some (r, m') \<and> clock m \<le> clock m'"
    and "0 < d"
  shows "e - clock m < int fuel * d \<Longrightarrow> 0 < fuel \<Longrightarrow>
    \<exists>r m'. oretry fuel attempt handle (Some e) d m = Some (r, m')"
proof (induction fuel arbitrary: m)
  case (Suc fuel)
  obtain x m1 where a: "attempt m = Some (x, m1)" and c1: "clock m \<le> clock m1"
    using attempt_ends [of m] by blast
  show ?case
  proof (cases x)
    case (Inr v)
    with a show ?thesis by simp
  next
    case (Inl er)
    obtain y m2 where h: "handle er m1 = Some (y, m2)" and c2: "clock m1 \<le> clock m2"
      using handle_ends [of er m1] by blast
    obtain b m3 where s: "sleep (Some e) d m2 = (b, m3)" by force
    show ?thesis
    proof (cases "y = None \<and> b")
      case True
      with s have up: "clock m3 = clock m2 + d" "clock m3 < e"
        using sleep_True [of "Some e" d m2 m3] \<open>0 < d\<close> by (auto simp: ctx_done_def)
      from Suc.prems(1) c1 c2 up have gap: "e - clock m3 < int fuel * d" by (simp add: algebra_simps)
      with up have "0 < fuel" by (cases fuel) auto
      from Suc.IH [OF gap this] True a Inl h s show ?thesis by simp
    next
      case False
      with a Inl h s show ?thesis by (cases y; cases b) auto
    qed
  qed
qed simp

end
