(* ===== verification/Wire_Text.thy ===== *)
theory Wire_Text
  imports Bytes
begin

text \<open>
  Text on the wire: \<open>encoding/hex\<close>, the line scanner of \<open>bufio\<close> with its token limit, and
  \<open>readBody\<close> of the HTTP clients. \<open>hex_decode\<close> gives \<open>None\<close> for the errors of
  \<open>hex.DecodeString\<close>.
\<close>

section \<open>Hexadecimal\<close>

definition hex_digit :: "nat \<Rightarrow> char" where
  "hex_digit n = (if n < 10 then char_of (48 + n) else char_of (87 + n))"

definition hex_val :: "char \<Rightarrow> nat option" where
  "hex_val c =
     (let n = (of_char c :: nat) in
      if 48 \<le> n \<and> n \<le> 57 then Some (n - 48)
      else if 97 \<le> n \<and> n \<le> 102 then Some (n - 87)
      else if 65 \<le> n \<and> n \<le> 70 then Some (n - 55) else None)"

fun hex_encode :: "bytes \<Rightarrow> string" where
  "hex_encode [] = []"
| "hex_encode (b # bs) = hex_digit (unat b div 16) # hex_digit (unat b mod 16) # hex_encode bs"

fun hex_decode :: "string \<Rightarrow> bytes option" where
  "hex_decode [] = Some []"
| "hex_decode [c] = None"
| "hex_decode (c # d # s) =
     (case (hex_val c, hex_val d) of
        (Some h, Some l) \<Rightarrow> (case hex_decode s of Some bs \<Rightarrow> Some (word_of_nat (16 * h + l) # bs) | None \<Rightarrow> None)
      | _ \<Rightarrow> None)"

lemma hex_val_digit: "n < 16 \<Longrightarrow> hex_val (hex_digit n) = Some n"
  by (auto simp: hex_val_def hex_digit_def Let_def)

lemma hex_roundtrip [simp]: "hex_decode (hex_encode bs) = Some bs"
proof (induction bs)
  case (Cons b bs)
  have "unat b div 16 < 16" by (rule less_mult_imp_div_less) simp
  with Cons show ?case by (simp add: hex_val_digit)
qed simp

lemma hex_encode_inj: "hex_encode as = hex_encode bs \<Longrightarrow> as = bs"
  by (metis hex_roundtrip option.inject)

section \<open>Lines\<close>

text \<open>
  \<open>bufio.Scanner\<close> over lines: each without its newline and one carriage return, the last one also
  where the input ends without a newline, and a stop where \<open>limit\<close> bytes hold none. The flag is
  \<open>ErrTooLong\<close>.
\<close>

definition drop_cr :: "string \<Rightarrow> string" where
  "drop_cr s = (if s \<noteq> [] \<and> last s = CHR 0x0D then butlast s else s)"

function scan_lines :: "nat \<Rightarrow> string \<Rightarrow> string list \<times> bool" where
  "scan_lines limit s =
     (let line = takeWhile (\<lambda>c. c \<noteq> CHR 0x0A) s; rest = dropWhile (\<lambda>c. c \<noteq> CHR 0x0A) s in
      if s = [] then ([], False)
      else if limit \<le> length line then ([], True)
      else if rest = [] then ([drop_cr line], False)
      else (case scan_lines limit (tl rest) of (ls, long) \<Rightarrow> (drop_cr line # ls, long)))"
  by pat_completeness auto

termination
proof (relation "measure (\<lambda>(_, s). length s)")
  fix limit s x xa
  assume xa: "xa = dropWhile (\<lambda>c. c \<noteq> CHR 0x0A) (s :: string)" and "s \<noteq> []"
  have "length (tl xa) = length xa - 1" by simp
  moreover have "length xa \<le> length s" by (simp only: xa length_dropWhile_le)
  moreover have "0 < length s" using \<open>s \<noteq> []\<close> by simp
  ultimately have "length (tl xa) < length s" by arith
  then show "((limit, tl xa), limit, s) \<in> measure (\<lambda>(_, s). length s)" by simp
qed simp

declare scan_lines.simps [simp del]

lemma scan_lines_Nil [simp]: "scan_lines limit [] = ([], False)"
  by (simp add: scan_lines.simps)

lemma scan_lines_line:
  assumes "CHR 0x0A \<notin> set line" "length line < limit"
  shows "scan_lines limit (line @ CHR 0x0A # s) =
    (drop_cr line # fst (scan_lines limit s), snd (scan_lines limit s))"
proof -
  have "takeWhile (\<lambda>c. c \<noteq> CHR 0x0A) (line @ CHR 0x0A # s) = line"
    "dropWhile (\<lambda>c. c \<noteq> CHR 0x0A) (line @ CHR 0x0A # s) = CHR 0x0A # s"
    using assms(1) by (auto simp: takeWhile_append2 dropWhile_append2 takeWhile_eq_all_conv
        intro!: takeWhile_append2 [THEN trans] dropWhile_append2 [THEN trans])
  then show ?thesis
    using assms(2) by (subst scan_lines.simps) (auto simp: Let_def case_prod_unfold)
qed

text \<open>Lines sent with their newlines are scanned back.\<close>

definition send_lines :: "string list \<Rightarrow> string" where
  "send_lines ls = concat (map (\<lambda>l. l @ [CHR 0x0A]) ls)"

lemma scan_send_lines:
  assumes "\<forall>l \<in> set ls. CHR 0x0A \<notin> set l \<and> CHR 0x0D \<notin> set l \<and> length l < limit"
  shows "scan_lines limit (send_lines ls) = (ls, False)"
  using assms
proof (induction ls)
  case (Cons l ls)
  have "CHR 0x0D \<notin> set l" using Cons.prems by simp
  then have "drop_cr l = l" unfolding drop_cr_def by (metis last_in_set)
  with Cons show ?case by (simp add: send_lines_def scan_lines_line)
qed (simp add: send_lines_def)

section \<open>Bodies\<close>

definition readBody :: "string \<Rightarrow> string" where
  "readBody body = trim_space (List.take 4096 body)"

section \<open>Addresses\<close>

text \<open>\<open>net.SplitHostPort\<close>, \<open>None\<close> for each of its errors, and \<open>net.JoinHostPort\<close>.\<close>

definition split_host_port :: "string \<Rightarrow> (string \<times> string) option" where
  "split_host_port hp =
     (let i = last_index CHR '':'' hp; n = nat i in
      if i < 0 then None
      else if hd hp = CHR ''['' then
        (let e = length (takeWhile (\<lambda>c. c \<noteq> CHR '']'') hp) in
         if e = length hp \<or> e + 1 \<noteq> n then None
         else if CHR ''['' \<in> set (drop 1 hp) \<or> CHR '']'' \<in> set (drop (e + 1) hp) then None
         else Some (drop 1 (List.take e hp), drop (n + 1) hp))
      else if CHR '':'' \<in> set (List.take n hp) then None
      else if CHR ''['' \<in> set hp \<or> CHR '']'' \<in> set hp then None
      else Some (List.take n hp, drop (n + 1) hp))"

definition join_host_port :: "string \<Rightarrow> string \<Rightarrow> string" where
  "join_host_port host port =
     (if CHR '':'' \<in> set host then ''['' @ host @ '']:'' @ port else host @ '':'' @ port)"

lemma last_index_at: "c \<notin> set t \<Longrightarrow> last_index c (s @ c # t) = int (length s)"
  by (induction s) (auto simp: Let_def last_index_none [THEN iffD2])

text \<open>A host and a port without brackets in them are read back as they were joined.\<close>

lemma split_join_host_port:
  assumes "CHR ''['' \<notin> set host" "CHR '']'' \<notin> set host"
    and "CHR '':'' \<notin> set port" "CHR ''['' \<notin> set port" "CHR '']'' \<notin> set port"
  shows "split_host_port (join_host_port host port) = Some (host, port)"
proof (cases "CHR '':'' \<in> set host")
  case True
  let ?pre = "CHR ''['' # host @ [CHR '']'']"
  have whole: "join_host_port host port = ?pre @ CHR '':'' # port" using True by (simp add: join_host_port_def)
  have at: "last_index CHR '':'' (?pre @ CHR '':'' # port) = int (length ?pre)"
    using assms(3) by (rule last_index_at)
  have close: "takeWhile (\<lambda>c. c \<noteq> CHR '']'') (?pre @ CHR '':'' # port) = CHR ''['' # host"
    using assms(2) by (auto simp: takeWhile_append2 takeWhile_eq_all_conv intro!: takeWhile_append2 [THEN trans])
  show ?thesis
    unfolding whole split_host_port_def at close Let_def using assms by (simp add: nat_add_distrib)
next
  case False
  have whole: "join_host_port host port = host @ CHR '':'' # port" using False by (simp add: join_host_port_def)
  have at: "last_index CHR '':'' (host @ CHR '':'' # port) = int (length host)"
    using assms(3) by (rule last_index_at)
  have "hd (host @ CHR '':'' # port) \<noteq> CHR ''[''" using assms(1) by (cases host) auto
  then show ?thesis
    unfolding whole split_host_port_def at Let_def using assms False by simp
qed

end
