(* ===== verification/Pipeline.thy ===== *)
theory Pipeline
  imports Go_Text Bytes
begin

text \<open>
  \<open>internal/cluster/pipeline.go\<close>: the builder that places the task results of one proof on
  the proof clock, and the timeline it returns. The times are \<open>int64\<close> milliseconds, so every
  sum and difference wraps around as in Go. The \<open>error\<close> of a worker the coordinator does not
  list is the key of that worker.
\<close>

section \<open>The timeline\<close>

record task_kind =
  tk_name :: string
  tk_label :: string
  tk_legend :: string
  tk_row :: string
  tk_phase :: string

record timeline_worker =
  tw_name :: string
  tw_node :: string

record task =
  t_kind :: int
  t_worker :: nat
  t_id :: string
  t_start :: int
  t_duration :: int
  t_breakdown :: "(int \<times> int) list"

record pipeline =
  schema_version :: int
  kinds :: "task_kind list"
  breakdown :: "string list"
  workers :: "timeline_worker list"
  tasks :: "task list"

record 'k registration =
  r_key :: 'k
  r_name :: string
  r_host :: string

record 'k builder =
  b_workers :: "timeline_worker list"
  b_index :: "'k \<rightharpoonup> nat"
  b_tasks :: "task list"
  b_unlisted :: "'k option"

definition PipelineSchemaVersion :: int where "PipelineSchemaVersion = 2"
definition NetworkTransportLabel :: string where "NetworkTransportLabel = ''Network Transport''"
definition PhaseExecution :: string where "PhaseExecution = ''execution''"
definition PhaseWitness :: string where "PhaseWitness = ''witness''"
definition PhaseBase :: string where "PhaseBase = ''base''"
definition PhaseRecursion :: string where "PhaseRecursion = ''recursion''"
definition PhaseWrap :: string where "PhaseWrap = ''wrap''"

section \<open>Building it\<close>

text \<open>The loop over the registrations, with the \<open>nodes\<close> map as an association list.\<close>

definition node_name :: "nat \<Rightarrow> string" where
  "node_name n = ''node'' @ itoa (int n)"

fun register :: "(string \<times> string) list \<Rightarrow> 'k builder \<Rightarrow> 'k registration list \<Rightarrow> 'k builder" where
  "register nodes b [] = b"
| "register nodes b (r # rs) =
     (let named = map_of nodes (r_host r);
          node = (case named of Some node \<Rightarrow> node | None \<Rightarrow> node_name (length nodes + 1));
          nodes1 = (case named of Some _ \<Rightarrow> nodes | None \<Rightarrow> (r_host r, node) # nodes)
      in register nodes1
           (b\<lparr>b_index := (b_index b)(r_key r \<mapsto> length (b_workers b)),
              b_workers := b_workers b @ [\<lparr>tw_name = r_name r, tw_node = node\<rparr>]\<rparr>) rs)"

definition newPipelineBuilder :: "'k registration list \<Rightarrow> 'k builder" where
  "newPipelineBuilder rs =
     register [] \<lparr>b_workers = [], b_index = Map.empty, b_tasks = [], b_unlisted = None\<rparr> rs"

text \<open>\<open>Place\<close> returns the start of the bar, and the end of one it leaves out.\<close>

definition place ::
  "int \<Rightarrow> 'k \<Rightarrow> string \<Rightarrow> int \<Rightarrow> int \<Rightarrow> (int \<times> int) list \<Rightarrow> 'k builder \<Rightarrow> int \<times> 'k builder" where
  "place kind worker ident endMs durationMs bd b =
     (let index = (case b_index b worker of Some i \<Rightarrow> i | None \<Rightarrow> 0);
          b1 = (if b_index b worker = None \<and> b_unlisted b = None
                then b\<lparr>b_unlisted := Some worker\<rparr> else b);
          startMs = max (i64 (endMs - durationMs)) 0;
          endMs1 = max endMs 0
      in if endMs1 \<le> startMs then (endMs1, b1)
         else (startMs,
               b1\<lparr>b_tasks := b_tasks b1 @
                 [\<lparr>t_kind = kind, t_worker = index, t_id = ident, t_start = startMs,
                   t_duration = i64 (endMs1 - startMs), t_breakdown = bd\<rparr>]\<rparr>))"

definition cluster_networkTransportMs :: "int \<Rightarrow> int \<Rightarrow> int \<Rightarrow> int \<Rightarrow> int" where
  "cluster_networkTransportMs coordinatorStart workerStart workerEnd coordinatorEnd =
     max (i64 (coordinatorEnd - workerEnd + workerStart - coordinatorStart)) 0"

definition task_cmp :: "task \<Rightarrow> task \<Rightarrow> int" where
  "task_cmp a b = cmp_or (cmp_compare (t_start a) (t_start b)) (cmp_compare (t_kind a) (t_kind b))"

definition finish_pipeline :: "task_kind list \<Rightarrow> string list \<Rightarrow> 'k builder \<Rightarrow> 'k + pipeline" where
  "finish_pipeline ks bd b =
     (case b_unlisted b of
        Some k \<Rightarrow> Inl k
      | None \<Rightarrow> Inr \<lparr>schema_version = PipelineSchemaVersion, kinds = ks, breakdown = bd,
                     workers = b_workers b, tasks = sort_stable task_cmp (b_tasks b)\<rparr>)"

interpretation task_order: key_comparator task_cmp "\<lambda>t. (t_start t, t_kind t)"
  by unfold_locales (simp add: task_cmp_def cmp_or_le_0)

section \<open>What the registrations give\<close>

text \<open>The specification: the node of a worker is the rank of its host among the hosts named so far.\<close>

fun first_seen :: "'a list \<Rightarrow> 'a list \<Rightarrow> 'a list" where
  "first_seen acc [] = acc"
| "first_seen acc (x # xs) = first_seen (if x \<in> set acc then acc else acc @ [x]) xs"

fun position :: "'a \<Rightarrow> 'a list \<Rightarrow> nat" where
  "position x [] = 0"
| "position x (y # ys) = (if x = y then 0 else Suc (position x ys))"

lemma position_less: "x \<in> set xs \<Longrightarrow> position x xs < length xs"
  by (induction xs) auto

lemma nth_position: "x \<in> set xs \<Longrightarrow> xs ! position x xs = x"
  by (induction xs) auto

lemma position_inj: "x \<in> set xs \<Longrightarrow> y \<in> set xs \<Longrightarrow> position x xs = position y xs \<longleftrightarrow> x = y"
  using nth_position by metis

lemma position_append: "x \<in> set xs \<Longrightarrow> position x (xs @ ys) = position x xs"
  by (induction xs) auto

lemma position_fresh: "x \<notin> set xs \<Longrightarrow> position x (xs @ x # ys) = length xs"
  by (induction xs) auto

lemma first_seen_prefix: "\<exists>ys. first_seen acc xs = acc @ ys"
proof (induction xs arbitrary: acc)
  case (Cons x xs)
  obtain ys where "first_seen (if x \<in> set acc then acc else acc @ [x]) xs
      = (if x \<in> set acc then acc else acc @ [x]) @ ys" using Cons by blast
  then show ?case by (cases "x \<in> set acc") auto
qed simp

lemma set_first_seen: "set (first_seen acc xs) = set acc \<union> set xs"
  by (induction xs arbitrary: acc) (auto split: if_splits)

lemma distinct_first_seen: "distinct acc \<Longrightarrow> distinct (first_seen acc xs)"
  by (induction xs arbitrary: acc) auto

lemma first_seen_position:
  assumes "x \<in> set acc"
  shows "position x (first_seen acc xs) = position x acc"
proof -
  obtain ys where "first_seen acc xs = acc @ ys" using first_seen_prefix by blast
  with assms show ?thesis by (simp add: position_append)
qed

definition nodes_of :: "string list \<Rightarrow> (string \<times> string) list" where
  "nodes_of hosts = rev (map (\<lambda>h. (h, node_name (position h hosts + 1))) hosts)"

lemma map_of_nodes: "map_of (nodes_of hosts) h
    = (if h \<in> set hosts then Some (node_name (position h hosts + 1)) else None)"
proof -
  have "map_of (map (\<lambda>h. (h, f h)) xs) h = (if h \<in> set xs then Some (f h) else None)" for f :: "string \<Rightarrow> string" and xs
    by (induction xs) auto
  from this [of "\<lambda>h. node_name (position h hosts + 1)" "rev hosts"] show ?thesis
    by (simp add: nodes_of_def rev_map)
qed

lemma nodes_of_snoc:
  assumes "h \<notin> set hosts" "distinct hosts"
  shows "nodes_of (hosts @ [h]) = (h, node_name (length hosts + 1)) # nodes_of hosts"
  using assms by (simp add: nodes_of_def position_append position_fresh)

definition host_node :: "string list \<Rightarrow> string \<Rightarrow> string" where
  "host_node hosts h = node_name (position h hosts + 1)"

lemma register_workers:
  "distinct hosts \<Longrightarrow> b_workers (register (nodes_of hosts) b rs) = b_workers b @
     map (\<lambda>r. \<lparr>tw_name = r_name r, tw_node = host_node (first_seen hosts (map r_host rs)) (r_host r)\<rparr>) rs"
proof (induction rs arbitrary: hosts b)
  case (Cons r rs)
  let ?hosts = "if r_host r \<in> set hosts then hosts else hosts @ [r_host r]"
  let ?node = "host_node ?hosts (r_host r)"
  have len: "length (nodes_of hosts) = length hosts" by (simp add: nodes_of_def)
  have "register (nodes_of hosts) b (r # rs) = register (nodes_of ?hosts)
      (b\<lparr>b_index := (b_index b)(r_key r \<mapsto> length (b_workers b)),
         b_workers := b_workers b @ [\<lparr>tw_name = r_name r, tw_node = ?node\<rparr>]\<rparr>) rs"
  proof (cases "r_host r \<in> set hosts")
    case True
    then show ?thesis by (simp add: map_of_nodes host_node_def)
  next
    case False
    with Cons.prems show ?thesis by (simp add: Let_def map_of_nodes host_node_def nodes_of_snoc len position_fresh)
  qed
  moreover have "host_node (first_seen ?hosts (map r_host rs)) (r_host r) = ?node"
    by (simp add: host_node_def first_seen_position)
  moreover have "distinct ?hosts" using Cons.prems by simp
  ultimately show ?case using Cons.IH [of ?hosts] by simp
qed simp

lemma register_index:
  "distinct (map r_key rs) \<Longrightarrow> k < length rs \<Longrightarrow>
    b_index (register nodes b rs) (r_key (rs ! k)) = Some (length (b_workers b) + k)"
proof (induction rs arbitrary: nodes b k)
  case (Cons r rs)
  have other: "b_index (register nodes b rs) key = b_index b key" if "key \<notin> set (map r_key rs)" for nodes b key
    using that by (induction nodes b rs rule: register.induct) (auto simp: Let_def)
  show ?case
  proof (cases k)
    case 0
    with Cons.prems other show ?thesis by (simp add: Let_def)
  next
    case (Suc j)
    with Cons.prems have "distinct (map r_key rs)" "j < length rs" by auto
    from Cons.IH [OF this] Suc show ?thesis by (simp add: Let_def)
  qed
qed simp

lemma register_index_dom: "dom (b_index (register nodes b rs)) = dom (b_index b) \<union> set (map r_key rs)"
  by (induction nodes b rs rule: register.induct) (auto simp: Let_def)

lemma register_index_range:
  "(\<And>k i. b_index b k = Some i \<Longrightarrow> i < length (b_workers b)) \<Longrightarrow>
    b_index (register nodes b rs) k = Some i \<Longrightarrow> i < length (b_workers (register nodes b rs))"
proof (induction nodes b rs rule: register.induct)
  case (2 nodes b r rs)
  then show ?case by (force simp: Let_def split: if_splits)
qed simp

lemma register_other [simp]:
  "b_tasks (register nodes b rs) = b_tasks b" "b_unlisted (register nodes b rs) = b_unlisted b"
  by (induction nodes b rs rule: register.induct) (auto simp: Let_def)

lemma new_builder_workers:
  "b_workers (newPipelineBuilder rs)
    = map (\<lambda>r. \<lparr>tw_name = r_name r, tw_node = host_node (first_seen [] (map r_host rs)) (r_host r)\<rparr>) rs"
proof -
  have "nodes_of [] = []" by (simp add: nodes_of_def)
  then show ?thesis
    using register_workers [of "[]" "\<lparr>b_workers = [], b_index = Map.empty, b_tasks = [], b_unlisted = None\<rparr>" rs]
    by (simp add: newPipelineBuilder_def)
qed

lemma new_builder_rest [simp]:
  "b_tasks (newPipelineBuilder rs) = []" "b_unlisted (newPipelineBuilder rs) = None"
  "dom (b_index (newPipelineBuilder rs)) = set (map r_key rs)"
  by (simp_all add: newPipelineBuilder_def register_index_dom)

lemma host_node_eq:
  "g \<in> set hosts \<Longrightarrow> h \<in> set hosts \<Longrightarrow> host_node hosts g = host_node hosts h \<longleftrightarrow> g = h"
  by (simp add: host_node_def node_name_def position_inj)

section \<open>The invariant of the builder\<close>

definition task_ok :: "nat \<Rightarrow> task \<Rightarrow> bool" where
  "task_ok n t \<longleftrightarrow> 0 \<le> t_start t \<and> 0 < t_duration t \<and> in_i64 (t_start t + t_duration t) \<and> t_worker t < n"

definition builder_ok :: "'k builder \<Rightarrow> bool" where
  "builder_ok b \<longleftrightarrow> (\<forall>k i. b_index b k = Some i \<longrightarrow> i < length (b_workers b))
     \<and> (b_unlisted b = None \<longrightarrow> (\<forall>t \<in> set (b_tasks b). task_ok (length (b_workers b)) t))
     \<and> (\<forall>k. b_unlisted b = Some k \<longrightarrow> b_index b k = None)"

lemma builder_ok_new [simp]: "builder_ok (newPipelineBuilder rs)"
proof -
  have "i < length (b_workers (newPipelineBuilder rs))" if "b_index (newPipelineBuilder rs) k = Some i" for k i
    using register_index_range [OF _ that [unfolded newPipelineBuilder_def]]
    by (simp add: newPipelineBuilder_def)
  then show ?thesis by (simp add: builder_ok_def)
qed

lemma place_keeps [simp]:
  "b_workers (snd (place kd w i e d bd b)) = b_workers b"
  "b_index (snd (place kd w i e d bd b)) = b_index b"
  by (simp_all add: place_def Let_def)

lemma place_unlisted:
  "b_unlisted (snd (place kd w i e d bd b))
    = (if b_unlisted b = None \<and> b_index b w = None then Some w else b_unlisted b)"
  by (simp add: place_def Let_def)

text \<open>A bar that is drawn starts at the clamped start and ends at its end, without wrapping.\<close>

lemma place_listed:
  assumes "b_index b w = Some n" "in_i64 e"
  shows "place kd w i e d bd b =
    (let s = max (i64 (e - d)) 0 in
     if max e 0 \<le> s then (max e 0, b)
     else (s, b\<lparr>b_tasks := b_tasks b @ [\<lparr>t_kind = kd, t_worker = n, t_id = i, t_start = s,
             t_duration = e - s, t_breakdown = bd\<rparr>]\<rparr>))"
proof -
  let ?s = "max (i64 (e - d)) 0"
  have "i64 (max e 0 - ?s) = e - ?s" if "\<not> max e 0 \<le> ?s"
  proof -
    from that have "max e 0 = e" by linarith
    moreover have "in_i64 (e - ?s)" using that assms(2) by (intro in_i64_diff_nonneg) auto
    ultimately show ?thesis by (simp add: i64_id)
  qed
  with assms(1) show ?thesis by (simp add: place_def Let_def)
qed

lemma place_ok:
  assumes "builder_ok b" "in_i64 e"
  shows "builder_ok (snd (place kd w i e d bd b))"
proof (cases "b_index b w")
  case None
  with assms show ?thesis by (auto simp: builder_ok_def place_unlisted)
next
  case (Some n)
  have rng: "0 \<le> max (i64 (e - d)) 0" by simp
  show ?thesis
    unfolding place_listed [OF Some assms(2)]
    using assms Some rng by (auto simp: builder_ok_def task_ok_def Let_def)
qed

lemma place_start_in_i64 [simp]: "in_i64 e \<Longrightarrow> in_i64 (fst (place kd w i e d bd b))"
  by (simp add: place_def Let_def)

lemma place_start_nonneg [simp]: "0 \<le> fst (place kd w i e d bd b)"
  by (simp add: place_def Let_def)

lemma place_start_le: "fst (place kd w i e d bd b) \<le> max e 0"
  unfolding place_def Let_def by (cases "max e 0 \<le> max (i64 (e - d)) 0") auto

section \<open>A proof as a sequence of placements\<close>

record 'k placement =
  p_kind :: int
  p_worker :: 'k
  p_id :: string
  p_end :: int
  p_duration :: int
  p_breakdown :: "(int \<times> int) list"

definition place1 :: "'k placement \<Rightarrow> 'k builder \<Rightarrow> 'k builder" where
  "place1 p b = snd (place (p_kind p) (p_worker p) (p_id p) (p_end p) (p_duration p) (p_breakdown p) b)"

definition place_all :: "'k placement list \<Rightarrow> 'k builder \<Rightarrow> 'k builder" where
  "place_all ps b = fold place1 ps b"

text \<open>The bar of one placement, on the clock of the proof.\<close>

definition bar :: "('k \<rightharpoonup> nat) \<Rightarrow> 'k placement \<Rightarrow> task option" where
  "bar ix p = (let s = max (i64 (p_end p - p_duration p)) 0 in
     if max (p_end p) 0 \<le> s then None
     else Some \<lparr>t_kind = p_kind p, t_worker = the (ix (p_worker p)), t_id = p_id p, t_start = s,
                t_duration = p_end p - s, t_breakdown = p_breakdown p\<rparr>)"

lemma place_all_Nil [simp]: "place_all [] b = b"
  by (simp add: place_all_def)

lemma place_all_Cons [simp]: "place_all (p # ps) b = place_all ps (place1 p b)"
  by (simp add: place_all_def)

lemma place_all_append: "place_all (ps @ qs) b = place_all qs (place_all ps b)"
  by (simp add: place_all_def)

lemma place_all_keeps [simp]:
  "b_workers (place_all ps b) = b_workers b" "b_index (place_all ps b) = b_index b"
  by (induction ps arbitrary: b) (simp_all add: place1_def)

lemma place_all_ok:
  "builder_ok b \<Longrightarrow> (\<forall>p \<in> set ps. in_i64 (p_end p)) \<Longrightarrow> builder_ok (place_all ps b)"
  by (induction ps arbitrary: b) (auto simp: place1_def place_ok)

lemma place_all_unlisted:
  "b_unlisted (place_all ps b) = (case b_unlisted b of Some k \<Rightarrow> Some k
     | None \<Rightarrow> find (\<lambda>k. b_index b k = None) (map p_worker ps))"
  by (induction ps arbitrary: b) (auto simp: place1_def place_unlisted split: option.splits)

lemma place_all_tasks:
  assumes "\<forall>p \<in> set ps. in_i64 (p_end p) \<and> b_index b (p_worker p) \<noteq> None"
  shows "b_tasks (place_all ps b) = b_tasks b @ List.map_filter (bar (b_index b)) ps"
  using assms
proof (induction ps arbitrary: b)
  case (Cons p ps)
  then obtain n where n: "b_index b (p_worker p) = Some n" and e: "in_i64 (p_end p)" by auto
  have "b_tasks (place1 p b) = b_tasks b @ List.map_filter (bar (b_index b)) [p]"
    unfolding place1_def place_listed [OF n e]
    using n by (simp add: bar_def Let_def List.map_filter_simps)
  moreover have "b_tasks (place_all ps (place1 p b))
      = b_tasks (place1 p b) @ List.map_filter (bar (b_index b)) ps"
    using Cons.IH [of "place1 p b"] Cons.prems by (simp add: place1_def)
  ultimately show ?case by (simp add: List.map_filter_def)
qed (simp add: List.map_filter_def)

section \<open>The timeline of a proof\<close>

lemma timeline_eq:
  assumes "\<forall>p \<in> set ps. in_i64 (p_end p)"
  shows "finish_pipeline ks bd (place_all ps (newPipelineBuilder rs)) =
    (case find (\<lambda>k. k \<notin> set (map r_key rs)) (map p_worker ps) of
       Some k \<Rightarrow> Inl k
     | None \<Rightarrow> Inr \<lparr>schema_version = 2, kinds = ks, breakdown = bd,
         workers = map (\<lambda>r. \<lparr>tw_name = r_name r,
            tw_node = ''node'' @ itoa (int (position (r_host r) (first_seen [] (map r_host rs)) + 1))\<rparr>) rs,
         tasks = sort_key (\<lambda>t. (t_start t, t_kind t))
            (List.map_filter (bar (b_index (newPipelineBuilder rs))) ps)\<rparr>)"
proof -
  let ?b = "newPipelineBuilder rs"
  have listed: "b_index ?b k = None \<longleftrightarrow> k \<notin> set (map r_key rs)" for k
    by (metis domIff new_builder_rest(3))
  then have "b_unlisted (place_all ps ?b) = find (\<lambda>k. k \<notin> set (map r_key rs)) (map p_worker ps)"
    by (simp add: place_all_unlisted)
  moreover have "b_tasks (place_all ps ?b) = List.map_filter (bar (b_index ?b)) ps"
    if "find (\<lambda>k. k \<notin> set (map r_key rs)) (map p_worker ps) = None"
  proof -
    from that have "\<forall>p \<in> set ps. in_i64 (p_end p) \<and> b_index ?b (p_worker p) \<noteq> None"
      using assms listed by (auto simp: find_None_iff)
    then show ?thesis by (simp add: place_all_tasks)
  qed
  ultimately show ?thesis
    by (simp add: finish_pipeline_def PipelineSchemaVersion_def new_builder_workers host_node_def
        node_name_def task_order.sort_stable_key split: option.split)
qed

text \<open>The timeline of a sequence of placements. It fails with the first worker no registration
  names; otherwise its workers are the registrations in their order, on nodes numbered by the first
  mention of their host, and its tasks are the bars of the placements that have a length, sorted
  stably by start and then by kind.\<close>

theorem timeline_exact:
  assumes "\<forall>p \<in> set ps. in_i64 (p_end p)"
  shows "finish_pipeline ks bd (place_all ps (newPipelineBuilder rs)) =
    (case find (\<lambda>k. k \<notin> set (map r_key rs)) (map p_worker ps) of
       Some k \<Rightarrow> Inl k
     | None \<Rightarrow> Inr \<lparr>schema_version = 2, kinds = ks, breakdown = bd,
         workers = map (\<lambda>r. \<lparr>tw_name = r_name r,
            tw_node = ''node'' @ itoa (int (position (r_host r) (first_seen [] (map r_host rs)) + 1))\<rparr>) rs,
         tasks = sort_key (\<lambda>t. (t_start t, t_kind t))
            (List.map_filter (bar (b_index (newPipelineBuilder rs))) ps)\<rparr>)"
  using assms by (rule timeline_eq)

definition sample_registrations :: "nat registration list" where
  "sample_registrations = [\<lparr>r_key = 7, r_name = ''worker_7'', r_host = ''a''\<rparr>,
     \<lparr>r_key = 8, r_name = ''worker_8'', r_host = ''b''\<rparr>, \<lparr>r_key = 9, r_name = ''worker_9'', r_host = ''a''\<rparr>]"

definition sample_placements :: "nat placement list" where
  "sample_placements =
     [\<lparr>p_kind = 1, p_worker = 9, p_id = ''x'', p_end = 100, p_duration = 40, p_breakdown = []\<rparr>,
      \<lparr>p_kind = 0, p_worker = 8, p_id = ''y'', p_end = 20, p_duration = 50, p_breakdown = []\<rparr>,
      \<lparr>p_kind = 0, p_worker = 7, p_id = ''z'', p_end = 10, p_duration = 0, p_breakdown = []\<rparr>]"

lemma i64_small: "- (2 ^ 63) \<le> x \<Longrightarrow> x < 2 ^ 63 \<Longrightarrow> i64 x = x"
  by (simp add: i64_id in_i64_def)

lemma sample_index:
  "b_index (newPipelineBuilder sample_registrations) 9 = Some 2"
  "b_index (newPipelineBuilder sample_registrations) 8 = Some 1"
  by (simp_all add: newPipelineBuilder_def sample_registrations_def Let_def)

theorem timeline_exact_witness:
  "map (\<lambda>t. (t_worker t, t_start t, t_duration t))
      (case finish_pipeline [] [] (place_all sample_placements (newPipelineBuilder sample_registrations))
       of Inr p \<Rightarrow> tasks p | Inl _ \<Rightarrow> []) = [(1, 0, 20), (2, 60, 40)]"
proof -
  have "\<forall>p \<in> set sample_placements. in_i64 (p_end p)"
    by (simp add: sample_placements_def in_i64_def)
  from timeline_exact [OF this, of "[]" "[]" sample_registrations] show ?thesis
    by (simp add: sample_placements_def bar_def i64_small Let_def List.map_filter_simps sample_index)
      (simp add: sample_registrations_def)
qed

lemma timeline_ok:
  assumes "\<forall>p \<in> set ps. in_i64 (p_end p)"
    and "finish_pipeline ks bd (place_all ps (newPipelineBuilder rs)) = Inr p"
  shows "sorted (map (\<lambda>t. (t_start t, t_kind t)) (tasks p))
    \<and> length (workers p) = length rs
    \<and> (\<forall>t \<in> set (tasks p). 0 \<le> t_start t \<and> 0 < t_duration t
         \<and> t_start t + t_duration t < 2 ^ 63 \<and> t_worker t < length (workers p))"
proof -
  let ?b = "place_all ps (newPipelineBuilder rs)"
  from assms(2) have un: "b_unlisted ?b = None" and w: "workers p = b_workers ?b"
    and t: "tasks p = sort_stable task_cmp (b_tasks ?b)"
    by (auto simp: finish_pipeline_def split: option.splits)
  from place_all_ok [OF builder_ok_new assms(1)] un
  have "\<forall>t \<in> set (b_tasks ?b). task_ok (length (b_workers ?b)) t"
    unfolding builder_ok_def by blast
  then show ?thesis
    using task_order.sorted_keys [of "b_tasks ?b"]
    by (auto simp: t w task_ok_def in_i64_def new_builder_workers)
qed



section \<open>What a proof reports\<close>

text \<open>\<open>ProveOutcome\<close> of \<open>internal/cluster/prove.go\<close>.\<close>

record prove_outcome =
  public_values :: bytes
  proof_bytes :: int
  cluster_proving_time :: int
  submit_wait :: int
  outcome_pipeline :: "pipeline option"

end
