(* ===== verification/Cluster_Config.thy ===== *)
theory Cluster_Config
  imports Go_Text
begin

text \<open>
  \<open>internal/cluster/config.go\<close> with the name helpers of \<open>internal/cluster/docker.go\<close>
  and the sidecar listing of \<open>internal/cluster/sidecar.go\<close>: the configuration every zkVM
  shares, its defaults and validation, the host and worker names derived from it, and the
  containers a deployment lists. A validator returns its first error in the code's order of
  checks. Host names are taken as ASCII, where Go's runes are bytes.
\<close>

section \<open>The configuration\<close>

record node =
  node_ssh :: string
  node_ip :: string

record gpu =
  device_ids :: "int list"

record guest =
  guest_elf :: string
  guest_vk :: string

record sidecar =
  sc_ssh :: string
  sc_kind :: string
  nv_hostengine :: string

record telemetry =
  interval_ms :: int
  sidecars :: "sidecar list"

record cluster_config =
  cc_zkvm :: string
  zkvm_version :: string
  image :: string
  image_tag :: string
  verbose :: int
  guests :: "guest list"
  coordinator :: node
  telemetry :: telemetry

definition sidecarDCGM :: string where "sidecarDCGM = ''dcgm-exporter''"
definition sidecarNode :: string where "sidecarNode = ''node-exporter''"
definition CoordinatorName :: string where "CoordinatorName = ''coordinator''"

datatype config_error =
    Zkvm_is_not string string
  | Version_required
  | Verbose_out_of_range int
  | Guest_required
  | Guest_missing_elf nat
  | Guest_missing_vk nat
  | Device_ids_required
  | Device_id_negative int
  | Device_id_repeats int
  | Coordinator_ip_required string
  | Sidecar_kind_unknown nat string
  | Sidecar_hostengine nat
  | Sidecar_host_unknown nat string
  | Sidecar_repeats string string
  | Worker_required
  | Worker_error nat config_error
  | Worker_host_duplicate string
  | Worker_one_device nat "int list"
  | Worker_ip_required string
  | Worker_gpu_duplicate int string
  | Worker_url_duplicate string string
  | Setting_negative string int
  | Setting_not_positive string int

section \<open>Names\<close>

definition hostName :: "string \<Rightarrow> string" where
  "hostName destination =
     (if destination = [] then ''local''
      else
        let host = trim_prefix ''ssh://'' destination;
            at = last_index (CHR ''@'') host;
            host = (if 0 \<le> at then drop (nat at + 1) host else host);
            colon = last_index (CHR '':'') host
        in if 0 \<le> colon then List.take (nat colon) host else host)"

definition daemonURL :: "string \<Rightarrow> string" where
  "daemonURL destination =
     (if destination = [] \<or> contains_str ''://'' destination then destination
      else ''ssh://'' @ destination)"

definition rustLog :: "int \<Rightarrow> string" where
  "rustLog v = (if v = 0 then ''info'' else if v = 1 then ''debug'' else ''trace'')"

definition gpu_label :: "gpu \<Rightarrow> string" where
  "gpu_label g = join ''_'' (map itoa (device_ids g))"

definition workerName :: "nat \<Rightarrow> gpu \<Rightarrow> string" where
  "workerName index g = ''worker_'' @ itoa (int index) @ ''-gpu_'' @ gpu_label g"

definition imageRef :: "cluster_config \<Rightarrow> string" where
  "imageRef c = image c @ '':'' @ image_tag c"

definition coordinatorHost :: "cluster_config \<Rightarrow> string" where
  "coordinatorHost c = hostName (node_ssh (coordinator c))"

definition gpu_len :: "gpu \<Rightarrow> int" where
  "gpu_len g = int (length (device_ids g))"

text \<open>Durations are nanoseconds in an \<open>int64\<close>.\<close>

definition millisecond :: int where "millisecond = 1000000"

definition telemetry_interval :: "telemetry \<Rightarrow> int" where
  "telemetry_interval t =
     (if interval_ms t \<le> 0 then 100 * millisecond else i64 (interval_ms t * millisecond))"

section \<open>Defaults and validation\<close>

definition cc_setDefaults :: "cluster_config \<Rightarrow> cluster_config" where
  "cc_setDefaults c =
     (let c1 = (if image c = [] then c\<lparr>image := ''ghcr.io/han0110/provoor/'' @ cc_zkvm c\<rparr> else c)
      in if image_tag c1 = [] then c1\<lparr>image_tag := zkvm_version c1\<rparr> else c1)"

definition guest_check :: "nat \<times> guest \<Rightarrow> config_error + unit" where
  "guest_check = (\<lambda>(i, g).
     if guest_elf g = [] then Inl (Guest_missing_elf i)
     else if guest_vk g = [] then Inl (Guest_missing_vk i) else Inr ())"

definition cc_validate :: "cluster_config \<Rightarrow> string \<Rightarrow> config_error + unit" where
  "cc_validate c zkvm =
     (if cc_zkvm c \<noteq> zkvm then Inl (Zkvm_is_not (cc_zkvm c) zkvm)
      else if zkvm_version c = [] then Inl Version_required
      else if verbose c < 0 \<or> 2 < verbose c then Inl (Verbose_out_of_range (verbose c))
      else if guests c = [] then Inl Guest_required
      else rfor guest_check (indexed (guests c)))"

definition validateColocation :: "node \<Rightarrow> node \<Rightarrow> config_error + unit" where
  "validateColocation coord worker =
     (if node_ssh worker \<noteq> node_ssh coord \<and> node_ip coord = []
      then Inl (Coordinator_ip_required (hostName (node_ssh worker))) else Inr ())"

fun device_ids_check :: "int set \<Rightarrow> int list \<Rightarrow> config_error + unit" where
  "device_ids_check seen [] = Inr ()"
| "device_ids_check seen (d # ds) =
     (if d < 0 then Inl (Device_id_negative d)
      else if d \<in> seen then Inl (Device_id_repeats d)
      else device_ids_check (insert d seen) ds)"

definition gpu_validate :: "gpu \<Rightarrow> config_error + unit" where
  "gpu_validate g =
     (if device_ids g = [] then Inl Device_ids_required else device_ids_check {} (device_ids g))"

fun sidecars_check ::
  "string set \<Rightarrow> (string \<times> string) set \<Rightarrow> (nat \<times> sidecar) list \<Rightarrow> config_error + unit" where
  "sidecars_check dialed seen [] = Inr ()"
| "sidecars_check dialed seen ((i, s) # rest) =
     (if sc_kind s \<noteq> sidecarDCGM \<and> sc_kind s \<noteq> sidecarNode
      then Inl (Sidecar_kind_unknown i (sc_kind s))
      else if nv_hostengine s \<noteq> [] \<and> sc_kind s \<noteq> sidecarDCGM then Inl (Sidecar_hostengine i)
      else if sc_ssh s \<notin> dialed then Inl (Sidecar_host_unknown i (sc_ssh s))
      else if (sc_ssh s, sc_kind s) \<in> seen then Inl (Sidecar_repeats (sc_kind s) (sc_ssh s))
      else sidecars_check dialed (insert (sc_ssh s, sc_kind s) seen) rest)"

definition telemetry_validate :: "telemetry \<Rightarrow> string list \<Rightarrow> config_error + unit" where
  "telemetry_validate t destinations =
     sidecars_check (set destinations) {} (indexed (sidecars t))"

section \<open>Deployed containers\<close>

record deployed =
  d_ssh :: string
  d_name :: string
  d_label :: string
  d_sidecar :: bool

text \<open>\<open>sidecarPrefix\<close> gives the empty string for a kind it does not hold.\<close>

definition sidecarPrefix :: "string \<Rightarrow> string" where
  "sidecarPrefix kind = (if kind = sidecarDCGM then ''provoor-dcgm-''
     else if kind = sidecarNode then ''provoor-node-'' else [])"

definition docker_name_char :: "char \<Rightarrow> bool" where
  "docker_name_char c \<longleftrightarrow> (CHR ''a'' \<le> c \<and> c \<le> CHR ''z'') \<or> (CHR ''A'' \<le> c \<and> c \<le> CHR ''Z'')
     \<or> (CHR ''0'' \<le> c \<and> c \<le> CHR ''9'') \<or> c \<in> {CHR ''_'', CHR ''.'', CHR ''-''}"

definition sidecarName :: "string \<Rightarrow> string \<Rightarrow> string" where
  "sidecarName kind host =
     sidecarPrefix kind @ map (\<lambda>c. if docker_name_char c then c else CHR ''-'') host"

definition sidecars_deployed :: "telemetry \<Rightarrow> deployed list" where
  "sidecars_deployed t =
     map (\<lambda>s. \<lparr>d_ssh = sc_ssh s, d_name = sidecarName (sc_kind s) (hostName (sc_ssh s)),
                d_label = sc_kind s, d_sidecar = True\<rparr>) (sidecars t)"

section \<open>What validation establishes\<close>

lemma gpu_ids_iff:
  "device_ids_check seen ids = Inr u \<longleftrightarrow> (\<forall>d \<in> set ids. 0 \<le> d) \<and> fresh_keys seen ids"
  by (induction seen ids rule: device_ids_check.induct) auto

lemma gpu_validate_iff:
  "gpu_validate g = Inr u \<longleftrightarrow>
     device_ids g \<noteq> [] \<and> (\<forall>d \<in> set (device_ids g). 0 \<le> d) \<and> distinct (device_ids g)"
  by (auto simp: gpu_validate_def gpu_ids_iff)

definition sidecar_ok :: "string set \<Rightarrow> sidecar \<Rightarrow> bool" where
  "sidecar_ok dialed s \<longleftrightarrow> sc_kind s \<in> {sidecarDCGM, sidecarNode}
     \<and> (nv_hostengine s = [] \<or> sc_kind s = sidecarDCGM) \<and> sc_ssh s \<in> dialed"

lemma sidecars_check_Cons:
  "sidecars_check dialed seen ((i, s) # rest) = Inr u \<longleftrightarrow>
     sidecar_ok dialed s \<and> (sc_ssh s, sc_kind s) \<notin> seen
     \<and> sidecars_check dialed (insert (sc_ssh s, sc_kind s) seen) rest = Inr u"
  by (auto simp: sidecar_ok_def)

lemma sidecars_check_iff:
  "sidecars_check dialed seen iss = Inr u \<longleftrightarrow>
     (\<forall>s \<in> set (map snd iss). sidecar_ok dialed s)
     \<and> fresh_keys seen (map (\<lambda>s. (sc_ssh s, sc_kind s)) (map snd iss))"
proof (induction iss arbitrary: seen)
  case (Cons x iss)
  then show ?case by (cases x) (auto simp: sidecars_check_Cons simp del: sidecars_check.simps(2))
qed simp

lemma telemetry_validate_iff:
  "telemetry_validate t ds = Inr u \<longleftrightarrow>
     (\<forall>s \<in> set (sidecars t). sidecar_ok (set ds) s)
     \<and> distinct (map (\<lambda>s. (sc_ssh s, sc_kind s)) (sidecars t))"
  unfolding telemetry_validate_def sidecars_check_iff map_snd_indexed fresh_keys_empty ..

definition cc_ok :: "cluster_config \<Rightarrow> string \<Rightarrow> bool" where
  "cc_ok c zkvm \<longleftrightarrow> cc_zkvm c = zkvm \<and> zkvm_version c \<noteq> [] \<and> 0 \<le> verbose c \<and> verbose c \<le> 2
     \<and> guests c \<noteq> [] \<and> (\<forall>g \<in> set (guests c). guest_elf g \<noteq> [] \<and> guest_vk g \<noteq> [])"

lemma cc_validate_iff: "cc_validate c zkvm = Inr u \<longleftrightarrow> cc_ok c zkvm"
proof -
  have "guest_check x = Inr () \<longleftrightarrow> guest_elf (snd x) \<noteq> [] \<and> guest_vk (snd x) \<noteq> []" for x
    by (cases x) (simp add: guest_check_def)
  then have "(\<forall>x \<in> set (indexed (guests c)). guest_check x = Inr ()) \<longleftrightarrow>
      (\<forall>g \<in> set (guests c). guest_elf g \<noteq> [] \<and> guest_vk g \<noteq> [])"
    using ball_indexed [of "guests c" "\<lambda>g. guest_elf g \<noteq> [] \<and> guest_vk g \<noteq> []"] by simp
  then show ?thesis by (auto simp: cc_validate_def cc_ok_def res_simps)
qed

lemma colocation_iff:
  "validateColocation c w = Inr u \<longleftrightarrow> node_ssh w = node_ssh c \<or> node_ip c \<noteq> []"
  by (auto simp: validateColocation_def)

section \<open>Names keep their parts apart\<close>

lemma sidecars_deployed_are [simp]: "d \<in> set (sidecars_deployed t) \<Longrightarrow> d_sidecar d"
  by (auto simp: sidecars_deployed_def)

lemma filter_sidecars_deployed [simp]: "filter (\<lambda>d. \<not> d_sidecar d) (sidecars_deployed t) = []"
  by (auto simp: filter_empty_conv)

lemma no_dash_nat_str: "CHR ''-'' \<notin> set (nat_str n)"
  using nat_str_digits [of n] by auto

lemma append_sep_inj:
  "c \<notin> set x \<Longrightarrow> c \<notin> set y \<Longrightarrow> x @ c # s = y @ c # t \<longleftrightarrow> x = y \<and> s = t"
proof (induction x arbitrary: y)
  case Nil
  then show ?case by (cases y) auto
next
  case (Cons a x)
  then show ?case by (cases y) auto
qed

lemma workerName_index_inj: "workerName i g = workerName j h \<Longrightarrow> i = j"
  using append_sep_inj [OF no_dash_nat_str [of i] no_dash_nat_str [of j]]
  by (simp add: workerName_def)

lemma workerName_not_coordinator: "workerName i g \<noteq> CoordinatorName"
  by (simp add: workerName_def CoordinatorName_def)

lemma sidecarName_kind_inj:
  "k \<in> {sidecarDCGM, sidecarNode} \<Longrightarrow> l \<in> {sidecarDCGM, sidecarNode} \<Longrightarrow>
    sidecarName k h = sidecarName l h \<longleftrightarrow> k = l"
  by (auto simp: sidecarName_def sidecarPrefix_def sidecarDCGM_def sidecarNode_def)

lemma sidecar_names_distinct:
  assumes "distinct (map (\<lambda>s. (sc_ssh s, sc_kind s)) ss)"
    and "\<forall>s \<in> set ss. sc_kind s \<in> {sidecarDCGM, sidecarNode}"
  shows "distinct (map (\<lambda>s. (sc_ssh s, sidecarName (sc_kind s) (hostName (sc_ssh s)))) ss)"
  using assms(1) by (rule distinct_map_finer) (use assms(2) sidecarName_kind_inj in force)

lemma sidecarName_prefix: "k \<in> {sidecarDCGM, sidecarNode} \<Longrightarrow> has_prefix ''provoor-'' (sidecarName k h)"
  by (auto simp: sidecarName_def sidecarPrefix_def sidecarDCGM_def sidecarNode_def has_prefix_def)

text \<open>The host of a destination in the shapes the documentation gives.\<close>

lemma hostName_empty [simp]: "hostName [] = ''local''"
  by (simp add: hostName_def)

lemma hostName_user_host_port:
  assumes "CHR ''@'' \<notin> set host" "CHR '':'' \<notin> set host"
    and "CHR ''@'' \<notin> set port" "CHR '':'' \<notin> set port"
  shows "hostName (''ssh://'' @ (user @ CHR ''@'' # host @ CHR '':'' # port)) = host"
proof -
  let ?t = "user @ CHR ''@'' # host @ CHR '':'' # port"
  have at: "last_index (CHR ''@'') ?t = int (length user)"
    by (rule last_index_append) (use assms in auto)
  have colon: "last_index (CHR '':'') (host @ CHR '':'' # port) = int (length host)"
    by (rule last_index_append) (use assms in auto)
  have rest: "drop (nat (int (length user)) + 1) ?t = host @ CHR '':'' # port" by simp
  have host: "List.take (nat (int (length host))) (host @ CHR '':'' # port) = host" by simp
  have "''ssh://'' @ ?t \<noteq> []" by simp
  then show ?thesis
    by (simp only: hostName_def Let_def trim_prefix_append if_False at rest colon host
        of_nat_0_le_iff if_True)
qed

end
