(* ===== verification/Hosts.thy ===== *)
theory Hosts
  imports Cluster_Config
begin

text \<open>
  The hosts of a deployment: \<open>DialHosts\<close>, \<open>Client\<close>, \<open>Destinations\<close> and
  \<open>Close\<close> of \<open>internal/cluster/docker.go\<close>, and what the commands of
  \<open>cmd/provoor/main.go\<close> do with a backend's container listing (\<open>selectContainers\<close>,
  \<open>dialSelection\<close>). Dialing and pinging a Docker daemon are the Docker client's and are
  parameters. The locale \<open>backend\<close> is the contract of the \<open>backend\<close> interface that
  every zkVM package implements.
\<close>

section \<open>Dialed hosts\<close>

record 'cli hosts =
  clients :: "string \<rightharpoonup> 'cli"
  order :: "string list"

text \<open>What the client of a destination is made from: the environment of this machine, the local ssh
  binary's connection, or a daemon's address.\<close>

datatype 'h docker_host =
    From_environment
  | Through_ssh 'h
  | At_address string

text \<open>\<open>dial\<close>: \<open>helper\<close> is the ssh connection helper of the Docker client and
  \<open>create\<close> makes the client, neither of which connects yet. A destination is quoted in the errors.\<close>

definition dial_client :: "(string \<Rightarrow> string + 'h) \<Rightarrow> ('h docker_host \<Rightarrow> string + 'cli) \<Rightarrow> string \<Rightarrow> string + 'cli" where
  \<open>dial_client helper create destination =
     (let url = daemonURL destination in
      rbind (if url = [] then Inr From_environment
             else if has_prefix ''ssh://'' url
             then rmap_err (\<lambda>e. ''ssh destination "'' @ destination @ ''": '' @ e) (rbind (helper url) (\<lambda>h. Inr (Through_ssh h)))
             else Inr (At_address url)) (\<lambda>host.
        rmap_err (\<lambda>e. ''creating docker client for "'' @ destination @ ''": '' @ e) (create host)))\<close>

datatype 'e dial_error =
    Dial_failed string 'e
  | Daemon_unreachable string 'e

definition no_hosts :: "'cli hosts" where
  "no_hosts = \<lparr>clients = Map.empty, order = []\<rparr>"

text \<open>\<open>Close\<close> closes the client of every dialed destination.\<close>

definition closeHosts :: "'cli hosts \<Rightarrow> 'cli list" where
  "closeHosts h = map (\<lambda>d. the (clients h d)) (order h)"

text \<open>
  The loop of \<open>DialHosts\<close>. An error carries the clients that \<open>h.Close()\<close> closes: a
  destination enters the hosts before its daemon is pinged, so a client whose ping fails is closed
  with the others.
\<close>

fun dial_loop ::
  "(string \<Rightarrow> 'e + 'cli) \<Rightarrow> ('cli \<Rightarrow> 'e option) \<Rightarrow> 'cli hosts \<Rightarrow> string list
     \<Rightarrow> ('e dial_error \<times> 'cli list) + 'cli hosts" where
  "dial_loop dial ping h [] = Inr h"
| "dial_loop dial ping h (d # ds) =
     (if clients h d \<noteq> None then dial_loop dial ping h ds
      else case dial d of
        Inl e \<Rightarrow> Inl (Dial_failed d e, closeHosts h)
      | Inr cli \<Rightarrow>
          let h1 = h\<lparr>clients := (clients h)(d \<mapsto> cli), order := order h @ [d]\<rparr> in
          (case ping cli of
             Some e \<Rightarrow> Inl (Daemon_unreachable (hostName d) e, closeHosts h1)
           | None \<Rightarrow> dial_loop dial ping h1 ds))"

definition dialHosts ::
  "(string \<Rightarrow> 'e + 'cli) \<Rightarrow> ('cli \<Rightarrow> 'e option) \<Rightarrow> string list
     \<Rightarrow> ('e dial_error \<times> 'cli list) + 'cli hosts" where
  "dialHosts dial ping destinations = dial_loop dial ping no_hosts destinations"

text \<open>\<open>Client\<close> gives nil for a destination that was not dialed.\<close>

definition hostClient :: "'cli hosts \<Rightarrow> string \<Rightarrow> 'cli option" where
  "hostClient h d = clients h d"

definition hostDestinations :: "'cli hosts \<Rightarrow> string list" where
  "hostDestinations h = order h"

definition hosts_ok :: "'cli hosts \<Rightarrow> bool" where
  "hosts_ok h \<longleftrightarrow> distinct (order h) \<and> dom (clients h) = set (order h)"

lemma hosts_ok_empty [simp]: "hosts_ok no_hosts"
  by (simp add: hosts_ok_def no_hosts_def)

lemma dial_loop_Inr:
  "dial_loop dial ping h ds = Inr h' \<Longrightarrow> hosts_ok h \<Longrightarrow>
     hosts_ok h' \<and> set (order h') = set (order h) \<union> set ds
     \<and> (\<forall>d \<in> set ds. \<exists>cli. clients h' d = Some cli)"
proof (induction ds arbitrary: h)
  case (Cons d ds)
  show ?case
  proof (cases "clients h d")
    case None
    with Cons.prems obtain cli where dial: "dial d = Inr cli" and ping: "ping cli = None"
      by (auto simp: Let_def split: sum.splits option.splits)
    let ?h1 = "h\<lparr>clients := (clients h)(d \<mapsto> cli), order := order h @ [d]\<rparr>"
    from Cons.prems None have "hosts_ok ?h1" by (auto simp: hosts_ok_def)
    moreover from Cons.prems(1) None dial ping have "dial_loop dial ping ?h1 ds = Inr h'"
      by (simp add: Let_def)
    ultimately have "hosts_ok h' \<and> set (order h') = set (order ?h1) \<union> set ds"
      and ds: "\<forall>d \<in> set ds. \<exists>cli. clients h' d = Some cli"
      using Cons.IH by blast+
    moreover then have "clients h' d \<noteq> None" by (auto simp: hosts_ok_def dom_def set_eq_iff)
    ultimately show ?thesis by auto
  next
    case (Some cli)
    with Cons.prems have "dial_loop dial ping h ds = Inr h'" by simp
    with Cons.IH Cons.prems(2) have ok: "hosts_ok h'" "set (order h') = set (order h) \<union> set ds"
      "\<forall>d \<in> set ds. \<exists>cli. clients h' d = Some cli" by blast+
    from Some Cons.prems(2) have "d \<in> set (order h)" by (auto simp: hosts_ok_def dom_def set_eq_iff)
    moreover with ok have "clients h' d \<noteq> None" by (auto simp: hosts_ok_def dom_def set_eq_iff)
    ultimately show ?thesis using ok by auto
  qed
qed auto

section \<open>What the commands dial\<close>

definition dialSelection :: "deployed list option \<Rightarrow> string list" where
  "dialSelection selection =
     (case selection of
        Some (d # ds) \<Rightarrow> map d_ssh (d # ds)
      | _ \<Rightarrow> [[]])"

text \<open>The file a dump of the journals gives a container, \<open>None\<close> for a sidecar it skips.\<close>

definition journalFile :: "deployed \<Rightarrow> string option" where
  "journalFile d = (if d_sidecar d then None else Some (d_label d @ ''.log''))"

section \<open>The contract of a backend\<close>

locale backend =
  fixes containers :: "'cfg \<Rightarrow> deployed list"
    and destinations :: "'cfg \<Rightarrow> string list"
    and valid :: "'cfg \<Rightarrow> bool"
  assumes coordinator_first:
      "valid c \<Longrightarrow> \<exists>d ds. containers c = d # ds \<and> d_label d = CoordinatorName \<and> \<not> d_sidecar d"
    and hosts_dialed: "valid c \<Longrightarrow> d \<in> set (containers c) \<Longrightarrow> d_ssh d \<in> set (destinations c)"
    and one_per_name: "valid c \<Longrightarrow> distinct (map (\<lambda>d. (d_ssh d, d_name d)) (containers c))"
    and one_per_label:
      "valid c \<Longrightarrow> distinct (map d_label (filter (\<lambda>d. \<not> d_sidecar d) (containers c)))"
begin

text \<open>A deployment that dialed its destinations has a client for every container it lists.\<close>

lemma listed_has_client:
  assumes "valid c" "dialHosts dial ping (destinations c) = Inr h" "d \<in> set (containers c)"
  shows "\<exists>cli. hostClient h (d_ssh d) = Some cli"
  using dial_loop_Inr [OF assms(2) [unfolded dialHosts_def] hosts_ok_empty]
    hosts_dialed [OF assms(1,3)] by (simp add: hostClient_def)

text \<open>A command that dials the selection instead has one too.\<close>

lemma selected_has_client:
  assumes "valid c" "dialHosts dial ping (dialSelection (Some (containers c))) = Inr h"
    and "d \<in> set (containers c)"
  shows "\<exists>cli. hostClient h (d_ssh d) = Some cli"
proof -
  have "dialSelection (Some (containers c)) = map d_ssh (containers c)"
    using coordinator_first [OF assms(1)] by (auto simp: dialSelection_def)
  with dial_loop_Inr [OF assms(2) [unfolded dialHosts_def] hosts_ok_empty] assms(3)
  show ?thesis by (auto simp: hostClient_def)
qed

text \<open>No two journals of a dump share a file.\<close>

lemma journal_files_distinct:
  assumes "valid c"
  shows "distinct (List.map_filter journalFile (containers c))"
proof -
  have "List.map_filter journalFile ds
      = map (\<lambda>l. l @ ''.log'') (map d_label (filter (\<lambda>d. \<not> d_sidecar d) ds))" for ds
    by (induction ds) (auto simp: List.map_filter_simps journalFile_def)
  with one_per_label [OF assms] show ?thesis
    by (simp add: distinct_map [of "\<lambda>l. l @ ''.log''"] inj_on_def del: map_map)
qed

lemma name_identifies:
  assumes "valid c" "d \<in> set (containers c)" "e \<in> set (containers c)"
    and "d_ssh d = d_ssh e" "d_name d = d_name e"
  shows "d = e"
  using one_per_name [OF assms(1)] assms(2-) by (auto simp: distinct_map inj_on_def)

end

end
