(* ===== verification/Openvm_Config.thy ===== *)
theory Openvm_Config
  imports Hosts
begin

text \<open>
  \<open>internal/openvm/config.go\<close> with the worker names and addresses of
  \<open>internal/openvm/spec.go\<close> and the grouping \<open>workerHosts\<close> of
  \<open>internal/openvm/deploy.go\<close>: the configuration of an OpenVM cluster, its defaults, its
  validation and the containers it deploys. As for ZisK, the check that ranges over a Go map takes
  its order as the parameter \<open>ord\<close>. \<open>deviceID\<close> is the first device id: Go
  panics on an empty list, which \<open>validate\<close> rules out before any use.
\<close>

record openvm_worker =
  ow_node :: node
  ow_gpu :: gpu

record openvm_prover =
  app_provers :: int
  leaf_provers :: int
  internal_provers :: int
  segment_memory :: int
  timeout_secs :: int
  op_shm_size_gb :: int

record openvm_config =
  oc_cluster :: cluster_config
  oc_workers :: "openvm_worker list"
  oc_prover :: openvm_prover

section \<open>Names and addresses\<close>

definition openvm_coordinatorContainer :: string where
  "openvm_coordinatorContainer = ''openvm-coordinator''"
definition workerContainerPrefix :: string where
  "workerContainerPrefix = ''openvm-worker-''"
definition workerPortBase :: int where "workerPortBase = 8001"
definition openvm_apiPort :: int where "openvm_apiPort = 3000"

text \<open>\<open>DefaultProveTimeout\<close> of \<open>internal/cluster/prove.go\<close>, in seconds.\<close>

definition DefaultProveTimeout :: int where "DefaultProveTimeout = 600"

definition deviceID :: "openvm_worker \<Rightarrow> int" where
  "deviceID w = hd (device_ids (ow_gpu w))"

definition openvm_workerContainer :: "int \<Rightarrow> string" where
  "openvm_workerContainer g = workerContainerPrefix @ itoa g"

definition openvm_workerName :: "nat \<Rightarrow> openvm_worker \<Rightarrow> string" where
  "openvm_workerName index w = workerName index \<lparr>device_ids = [deviceID w]\<rparr>"

definition workerURL :: "openvm_worker \<Rightarrow> string" where
  "workerURL w =
     (let host = (if node_ip (ow_node w) = [] then ''127.0.0.1'' else node_ip (ow_node w))
      in ''http://'' @ host @ '':'' @ itoa (i64 (workerPortBase + deviceID w)))"

definition managerURL :: "openvm_config \<Rightarrow> openvm_worker \<Rightarrow> string" where
  "managerURL cfg w =
     (let coord = coordinator (oc_cluster cfg);
          host = (if node_ssh (ow_node w) = node_ssh coord then ''127.0.0.1'' else node_ip coord)
      in ''http://'' @ host @ '':'' @ itoa openvm_apiPort)"

section \<open>Defaults and validation\<close>

definition or_default :: "int \<Rightarrow> int \<Rightarrow> int" where
  "or_default d v = (if v = 0 then d else v)"

definition openvm_setDefaults :: "openvm_config \<Rightarrow> openvm_config" where
  "openvm_setDefaults cfg =
     cfg\<lparr>oc_cluster := cc_setDefaults (oc_cluster cfg),
         oc_prover := (let p = oc_prover cfg in
           \<lparr>app_provers = or_default 2 (app_provers p),
            leaf_provers = or_default 2 (leaf_provers p),
            internal_provers = or_default 1 (internal_provers p),
            segment_memory = or_default (15 * 2 ^ 30) (segment_memory p),
            timeout_secs = or_default DefaultProveTimeout (timeout_secs p),
            op_shm_size_gb = or_default 2 (op_shm_size_gb p)\<rparr>)\<rparr>"

definition openvm_destinations :: "openvm_config \<Rightarrow> string list" where
  "openvm_destinations cfg =
     node_ssh (coordinator (oc_cluster cfg)) # map (\<lambda>w. node_ssh (ow_node w)) (oc_workers cfg)"

text \<open>The key \<open>ssh/id\<close> of the duplicate check.\<close>

definition gpu_key :: "openvm_worker \<Rightarrow> string" where
  "gpu_key w = node_ssh (ow_node w) @ ''/'' @ itoa (deviceID w)"

fun openvm_workers_check ::
  "node \<Rightarrow> string set \<Rightarrow> string set \<Rightarrow> (nat \<times> openvm_worker) list \<Rightarrow> config_error + unit" where
  "openvm_workers_check coord seenGPU seenURL [] = Inr ()"
| "openvm_workers_check coord seenGPU seenURL ((i, w) # rest) =
     rbind (rmap_err (Worker_error i) (gpu_validate (ow_gpu w))) (\<lambda>_.
       if length (device_ids (ow_gpu w)) \<noteq> 1
       then Inl (Worker_one_device i (device_ids (ow_gpu w)))
       else rbind (validateColocation coord (ow_node w)) (\<lambda>_.
         if node_ssh (ow_node w) \<noteq> node_ssh coord \<and> node_ip (ow_node w) = []
         then Inl (Worker_ip_required (openvm_workerName i w))
         else if gpu_key w \<in> seenGPU
         then Inl (Worker_gpu_duplicate (deviceID w) (node_ssh (ow_node w)))
         else if workerURL w \<in> seenURL
         then Inl (Worker_url_duplicate (openvm_workerName i w) (workerURL w))
         else openvm_workers_check coord (insert (gpu_key w) seenGPU)
                (insert (workerURL w) seenURL) rest))"

definition openvm_settings :: "openvm_prover \<Rightarrow> (string \<times> int) list" where
  "openvm_settings p =
     [(''app_provers'', app_provers p), (''leaf_provers'', leaf_provers p),
      (''internal_provers'', internal_provers p), (''shm_size_gb'', op_shm_size_gb p)]"

definition openvm_validate ::
  "((string \<times> int) list \<Rightarrow> (string \<times> int) list) \<Rightarrow> openvm_config \<Rightarrow> config_error + unit" where
  "openvm_validate ord cfg =
     rbind (cc_validate (oc_cluster cfg) ''openvm'') (\<lambda>_.
       if oc_workers cfg = [] then Inl Worker_required
       else
         rbind (telemetry_validate (telemetry (oc_cluster cfg)) (openvm_destinations cfg)) (\<lambda>_.
         rbind (openvm_workers_check (coordinator (oc_cluster cfg)) {} {} (indexed (oc_workers cfg))) (\<lambda>_.
         rbind (rfor (\<lambda>(name, value). if value < 1 then Inl (Setting_not_positive name value) else Inr ())
           (ord (openvm_settings (oc_prover cfg)))) (\<lambda>_.
         if segment_memory (oc_prover cfg) < 0
         then Inl (Setting_negative ''segment_memory'' (segment_memory (oc_prover cfg)))
         else if timeout_secs (oc_prover cfg) < 0
         then Inl (Setting_negative ''timeout_secs'' (timeout_secs (oc_prover cfg)))
         else Inr ()))))"

definition openvm_containers :: "openvm_config \<Rightarrow> deployed list" where
  "openvm_containers cfg =
     \<lparr>d_ssh = node_ssh (coordinator (oc_cluster cfg)), d_name = openvm_coordinatorContainer,
      d_label = CoordinatorName, d_sidecar = False\<rparr>
     # map (\<lambda>(i, w). \<lparr>d_ssh = node_ssh (ow_node w), d_name = openvm_workerContainer (deviceID w),
              d_label = openvm_workerName i w, d_sidecar = False\<rparr>) (indexed (oc_workers cfg))
     @ sidecars_deployed (telemetry (oc_cluster cfg))"

section \<open>What validation accepts\<close>

definition openvm_worker_ok :: "node \<Rightarrow> openvm_worker \<Rightarrow> bool" where
  "openvm_worker_ok coord w \<longleftrightarrow>
     length (device_ids (ow_gpu w)) = 1 \<and> 0 \<le> deviceID w
     \<and> (node_ssh (ow_node w) = node_ssh coord \<or> node_ip coord \<noteq> [] \<and> node_ip (ow_node w) \<noteq> [])"

definition openvm_ok :: "openvm_config \<Rightarrow> bool" where
  "openvm_ok cfg \<longleftrightarrow> cc_ok (oc_cluster cfg) ''openvm'' \<and> oc_workers cfg \<noteq> []
     \<and> (\<forall>s \<in> set (sidecars (telemetry (oc_cluster cfg))). sidecar_ok (set (openvm_destinations cfg)) s)
     \<and> distinct (map (\<lambda>s. (sc_ssh s, sc_kind s)) (sidecars (telemetry (oc_cluster cfg))))
     \<and> (\<forall>w \<in> set (oc_workers cfg). openvm_worker_ok (coordinator (oc_cluster cfg)) w)
     \<and> distinct (map (\<lambda>w. (node_ssh (ow_node w), deviceID w)) (oc_workers cfg))
     \<and> distinct (map workerURL (oc_workers cfg))
     \<and> (\<forall>(name, value) \<in> set (openvm_settings (oc_prover cfg)). 1 \<le> value)
     \<and> 0 \<le> segment_memory (oc_prover cfg) \<and> 0 \<le> timeout_secs (oc_prover cfg)"

lemma gpu_key_inj:
  "gpu_key v = gpu_key w \<longleftrightarrow> (node_ssh (ow_node v), deviceID v) = (node_ssh (ow_node w), deviceID w)"
proof
  assume "gpu_key v = gpu_key w"
  then have "node_ssh (ow_node v) @ CHR ''/'' # itoa (deviceID v)
      = node_ssh (ow_node w) @ CHR ''/'' # itoa (deviceID w)" by (simp add: gpu_key_def)
  from sep_itoa_inj [OF _ _ this] show "(node_ssh (ow_node v), deviceID v) = (node_ssh (ow_node w), deviceID w)"
    by (simp add: is_digit_def)
qed (simp add: gpu_key_def)

lemma one_device_iff:
  "gpu_validate g = Inr u \<and> length (device_ids g) = 1
     \<longleftrightarrow> length (device_ids g) = 1 \<and> 0 \<le> hd (device_ids g)"
  by (auto simp: gpu_validate_iff length_Suc_conv)

lemma openvm_workers_check_Cons:
  "openvm_workers_check coord G U ((i, w) # rest) = Inr u \<longleftrightarrow>
     openvm_worker_ok coord w \<and> gpu_key w \<notin> G \<and> workerURL w \<notin> U
     \<and> openvm_workers_check coord (insert (gpu_key w) G) (insert (workerURL w) U) rest = Inr u"
  using one_device_iff [of "ow_gpu w" "()"]
  by (auto simp: res_simps colocation_iff openvm_worker_ok_def deviceID_def)

lemma openvm_workers_check_iff:
  "openvm_workers_check coord G U iws = Inr u \<longleftrightarrow>
     (\<forall>w \<in> set (map snd iws). openvm_worker_ok coord w)
     \<and> fresh_keys G (map gpu_key (map snd iws)) \<and> fresh_keys U (map workerURL (map snd iws))"
proof (induction iws arbitrary: G U)
  case (Cons x iws)
  then show ?case
    by (cases x) (auto simp: openvm_workers_check_Cons simp del: openvm_workers_check.simps(2))
qed simp

lemma openvm_validate_accepts:
  assumes "mset (ord (openvm_settings (oc_prover cfg))) = mset (openvm_settings (oc_prover cfg))"
  shows "openvm_validate ord cfg = Inr () \<longleftrightarrow> openvm_ok cfg"
proof -
  from assms have "set (ord (openvm_settings (oc_prover cfg))) = set (openvm_settings (oc_prover cfg))"
    by (rule mset_eq_setD)
  moreover have "rfor (\<lambda>(name, value). if value < 1 then Inl (Setting_not_positive name value) else Inr ()) xs
      = Inr () \<longleftrightarrow> (\<forall>(name, value) \<in> set xs. 1 \<le> value)" for xs :: "(string \<times> int) list"
    by (auto simp: res_simps split: if_splits)
  moreover have "distinct (map gpu_key ws)
      \<longleftrightarrow> distinct (map (\<lambda>w. (node_ssh (ow_node w), deviceID w)) ws)" for ws
    by (simp only: distinct_map inj_on_def gpu_key_inj)
  then have "openvm_workers_check (coordinator (oc_cluster cfg)) {} {} (indexed (oc_workers cfg)) = Inr ()
      \<longleftrightarrow> (\<forall>w \<in> set (oc_workers cfg). openvm_worker_ok (coordinator (oc_cluster cfg)) w)
        \<and> distinct (map (\<lambda>w. (node_ssh (ow_node w), deviceID w)) (oc_workers cfg))
        \<and> distinct (map workerURL (oc_workers cfg))"
    unfolding openvm_workers_check_iff map_snd_indexed by simp
  ultimately show ?thesis
    by (simp add: openvm_validate_def openvm_ok_def rbind_Inr_iff cc_validate_iff telemetry_validate_iff)
qed

section \<open>The deployed containers\<close>

lemma openvm_one_per_name:
  assumes "openvm_ok cfg"
  shows "distinct (map (\<lambda>d. (d_ssh d, d_name d)) (openvm_containers cfg))"
proof -
  let ?key = "\<lambda>d. (d_ssh d, d_name d)" and ?side = "sidecars (telemetry (oc_cluster cfg))"
  have kinds: "\<forall>s \<in> set ?side. sc_kind s \<in> {sidecarDCGM, sidecarNode}"
    using assms by (auto simp: openvm_ok_def sidecar_ok_def)
  have pre: "n \<noteq> sidecarName (sc_kind s) h" if "s \<in> set ?side" "\<not> has_prefix ''provoor-'' n" for n s h
    using that kinds sidecarName_prefix by auto
  have ws: "map ?key (map (\<lambda>(i, w). \<lparr>d_ssh = node_ssh (ow_node w), d_name = openvm_workerContainer (deviceID w),
      d_label = openvm_workerName i w, d_sidecar = False\<rparr>) (indexed (oc_workers cfg)))
    = map (\<lambda>w. (node_ssh (ow_node w), openvm_workerContainer (deviceID w))) (oc_workers cfg)"
    using map_indexed_snd [of "\<lambda>w. (node_ssh (ow_node w), openvm_workerContainer (deviceID w))" "oc_workers cfg"]
    by (simp add: comp_def case_prod_unfold)
  have "distinct (map (\<lambda>w. (node_ssh (ow_node w), deviceID w)) (oc_workers cfg))"
    using assms by (simp add: openvm_ok_def)
  then have dw: "distinct (map (\<lambda>w. (node_ssh (ow_node w), openvm_workerContainer (deviceID w))) (oc_workers cfg))"
    by (rule distinct_map_finer) (simp add: openvm_workerContainer_def)
  have ds: "distinct (map ?key (sidecars_deployed (telemetry (oc_cluster cfg))))"
    using sidecar_names_distinct [OF _ kinds] assms
    by (simp add: sidecars_deployed_def openvm_ok_def comp_def)
  have nc: "\<not> has_prefix ''provoor-'' openvm_coordinatorContainer"
    "\<not> has_prefix ''provoor-'' (openvm_workerContainer g)"
    "openvm_coordinatorContainer \<noteq> openvm_workerContainer g" for g
    by (simp_all add: has_prefix_def openvm_coordinatorContainer_def openvm_workerContainer_def
        workerContainerPrefix_def)
  show ?thesis
    unfolding openvm_containers_def list.map map_append distinct.simps distinct_append ws
    using dw ds nc pre by (auto simp: sidecars_deployed_def)
qed

lemma openvm_one_per_label:
  "distinct (map d_label (filter (\<lambda>d. \<not> d_sidecar d) (openvm_containers cfg)))"
proof -
  let ?w = "\<lambda>(i, w). \<lparr>d_ssh = node_ssh (ow_node w), d_name = openvm_workerContainer (deviceID w),
      d_label = openvm_workerName i w, d_sidecar = False\<rparr>"
  have all: "filter (\<lambda>d. \<not> d_sidecar d) (map ?w (indexed (oc_workers cfg)))
      = map ?w (indexed (oc_workers cfg))"
    by (rule filter_True) (auto simp: case_prod_beta)
  have "distinct (map (d_label \<circ> ?w) (indexed (oc_workers cfg)))"
    by (rule distinct_indexed_keys) (auto simp: openvm_workerName_def dest: workerName_index_inj)
  moreover have "CoordinatorName \<notin> set (map (d_label \<circ> ?w) (indexed (oc_workers cfg)))"
    using workerName_not_coordinator by (auto simp: case_prod_beta openvm_workerName_def) metis
  ultimately show ?thesis by (simp add: openvm_containers_def all)
qed

interpretation openvm_backend: backend openvm_containers openvm_destinations openvm_ok
proof
  fix cfg d
  assume ok: "openvm_ok cfg"
  show "\<exists>d ds. openvm_containers cfg = d # ds \<and> d_label d = CoordinatorName \<and> \<not> d_sidecar d"
    by (simp add: openvm_containers_def)
  show "distinct (map (\<lambda>d. (d_ssh d, d_name d)) (openvm_containers cfg))"
    using ok by (rule openvm_one_per_name)
  show "distinct (map d_label (filter (\<lambda>d. \<not> d_sidecar d) (openvm_containers cfg)))"
    by (rule openvm_one_per_label)
  assume "d \<in> set (openvm_containers cfg)"
  with ok show "d_ssh d \<in> set (openvm_destinations cfg)"
    by (auto simp: openvm_containers_def openvm_destinations_def openvm_ok_def sidecar_ok_def
        sidecars_deployed_def set_indexed)
qed


section \<open>What a validated deployment has\<close>

definition openvm_sample :: openvm_config where
  "openvm_sample =
     \<lparr>oc_cluster = \<lparr>cc_zkvm = ''openvm'', zkvm_version = ''2.0.0'', image = [], image_tag = [], verbose = 0,
        guests = [\<lparr>guest_elf = ''g.elf'', guest_vk = ''g.vk''\<rparr>],
        coordinator = \<lparr>node_ssh = ''a'', node_ip = ''10.0.0.1''\<rparr>,
        telemetry = \<lparr>interval_ms = 0, sidecars = [\<lparr>sc_ssh = ''a'', sc_kind = sidecarDCGM, nv_hostengine = []\<rparr>]\<rparr>\<rparr>,
      oc_workers = [\<lparr>ow_node = \<lparr>node_ssh = ''a'', node_ip = []\<rparr>, ow_gpu = \<lparr>device_ids = [0]\<rparr>\<rparr>,
        \<lparr>ow_node = \<lparr>node_ssh = ''b'', node_ip = ''10.0.0.2''\<rparr>, ow_gpu = \<lparr>device_ids = [0]\<rparr>\<rparr>],
      oc_prover = \<lparr>app_provers = 2, leaf_provers = 2, internal_provers = 1, segment_memory = 15 * 2 ^ 30,
        timeout_secs = 600, op_shm_size_gb = 2\<rparr>\<rparr>"

text \<open>C28: OpenVM validation accepts a configuration exactly when the shared settings hold, there is a worker, every sidecar runs a known kind on a host
  the deployment dials, every worker owns exactly one GPU, no GPU of a host and no advertised
  address repeats, a worker off the coordinator's host and the coordinator both have addresses,
  and the prover settings are in range, whatever order the runtime ranges over the settings in.\<close>

theorem openvm_validation:
  assumes "mset (ord (openvm_settings (oc_prover cfg))) = mset (openvm_settings (oc_prover cfg))"
  shows "openvm_validate ord cfg = Inr () \<longleftrightarrow> openvm_ok cfg"
  using assms by (rule openvm_validate_accepts)

lemma openvm_sample_ok: "openvm_ok openvm_sample"
proof -
  have "cc_ok (oc_cluster openvm_sample) ''openvm''" by (simp add: cc_ok_def openvm_sample_def)
  moreover have "sidecar_ok (set (openvm_destinations openvm_sample)) s"
    if "s \<in> set (sidecars (telemetry (oc_cluster openvm_sample)))" for s
    using that by (auto simp: sidecar_ok_def openvm_destinations_def openvm_sample_def)
  ultimately show ?thesis
    by (simp add: openvm_ok_def) (simp add: openvm_sample_def openvm_worker_ok_def deviceID_def
        workerURL_def openvm_settings_def)
qed

theorem openvm_validation_witness: "openvm_validate rev openvm_sample = Inr ()"
  using openvm_validation [of rev openvm_sample] openvm_sample_ok by simp

text \<open>A validated OpenVM configuration whose destinations were dialed lists the coordinator first,
  has a client for every container it lists, gives every container its own name on its host, and
  would dump the journals of different containers into different files.\<close>

theorem openvm_deployment:
  assumes "mset (ord (openvm_settings (oc_prover cfg))) = mset (openvm_settings (oc_prover cfg))"
    and "openvm_validate ord cfg = Inr ()"
    and "dialHosts dial ping (openvm_destinations cfg) = Inr h"
  shows "d_label (hd (openvm_containers cfg)) = CoordinatorName
    \<and> (\<forall>d. d \<in> set (openvm_containers cfg) \<longrightarrow> hostClient h (d_ssh d) \<noteq> None)
    \<and> (\<forall>d e. d \<in> set (openvm_containers cfg) \<longrightarrow> e \<in> set (openvm_containers cfg) \<longrightarrow>
        d_ssh d = d_ssh e \<longrightarrow> d_name d = d_name e \<longrightarrow> d = e)
    \<and> distinct (List.map_filter journalFile (openvm_containers cfg))"
proof -
  from assms(1,2) have ok: "openvm_ok cfg" by (simp add: openvm_validate_accepts)
  show ?thesis
    using openvm_backend.coordinator_first [OF ok] openvm_backend.listed_has_client [OF ok assms(3)]
      openvm_backend.name_identifies [OF ok] openvm_backend.journal_files_distinct [OF ok]
    by auto
qed

theorem openvm_deployment_witness:
  "\<exists>h. dialHosts (\<lambda>d. Inr d) (\<lambda>_. None :: unit option) (openvm_destinations openvm_sample) = Inr h
     \<and> hostClient h ''b'' = Some ''b'' \<and> d_label (hd (openvm_containers openvm_sample)) = CoordinatorName"
proof -
  have "\<exists>h. dialHosts (\<lambda>d. Inr d) (\<lambda>_. None :: unit option) (openvm_destinations openvm_sample) = Inr h
      \<and> hostClient h ''b'' = Some ''b''"
    by (simp add: dialHosts_def openvm_destinations_def openvm_sample_def no_hosts_def hostClient_def)
  moreover have "openvm_validate id openvm_sample = Inr ()"
    using openvm_sample_ok by (simp add: openvm_validate_accepts)
  ultimately show ?thesis using openvm_deployment [of id openvm_sample] by fastforce
qed

end
