(* ===== verification/Serve.thy ===== *)
theory Serve
  imports Complex_Main Runtime Wire_Text Pipeline Openvm_Config
begin

text \<open>
  \<open>internal/serve/server.go\<close>: the JSON-RPC server that proves one stateless payload per call. A
  prover is the pair of functions \<open>ready\<close> and \<open>prove\<close> of its interface; \<open>show\<close> is
  \<open>Error()\<close> of the prover's errors and \<open>hex_error\<close> that of \<open>hex.DecodeString\<close>. The
  JSON decoding of a body and of a parameter are parameters, and the lines the server prints are
  constructors. The server's mutex lets one \<open>prove\<close> run at a time, so a call is one function of
  the state. Rates are exact rational numbers.
\<close>

section \<open>The state and the messages\<close>

record serve_config =
  clientVersion :: string
  prove_timeout :: int
  failRunOnClusterError :: bool

record prove_payload =
  block_hash :: string
  block_number :: string
  gas_used :: string
  stateless_input :: string
  expected_output :: string

record payload_status =
  status_text :: string
  validation_error :: string
  stateless_output :: string

record metric_line =
  metric_number :: nat
  metric_hash :: string
  metric_gas :: nat
  total_ms :: int
  mgas_per_sec :: rat
  input_size :: nat
  proving_time_ms :: int
  cluster_time_ms :: int
  proof_size :: int
  output_matched :: bool
  metric_pipeline :: "pipeline option"

datatype serve_line =
    Still_not_ready string string
  | Waited_ready int string
  | Proving string nat
  | Phase_line string string
  | Proving_failed string string
  | Warming_failed string string
  | Warmed_again int string
  | Waited_admission int string
  | Metric metric_line

datatype rpc_result =
    Rpc_version string
  | Rpc_status payload_status
  | Rpc_error int string

record rpc_request =
  rpc_method :: string
  rpc_params :: "string list"
  rpc_id :: string

datatype http_answer =
    Bad_request
  | Rpc_answer "string option" rpc_result

record ('q, 'w) server_state =
  sv_machine :: "('q, 'w) machine"
  sv_lines :: "serve_line list"
  sv_exit :: "int option"

type_synonym ('e, 'q, 'w) ready_fun = "ctx \<Rightarrow> ('q, 'w) machine \<Rightarrow> (('e + unit) \<times> ('q, 'w) machine) option"
type_synonym ('e, 'q, 'w) prove_fun =
  "ctx \<Rightarrow> bytes \<Rightarrow> ('q, 'w) machine \<Rightarrow> (('e + prove_outcome) \<times> ('q, 'w) machine) option"

abbreviation sv_clock :: "('q, 'w) server_state \<Rightarrow> int" where
  "sv_clock st \<equiv> clock (sv_machine st)"

definition serve_printf :: "serve_line \<Rightarrow> ('q, 'w) server_state \<Rightarrow> ('q, 'w) server_state" where
  "serve_printf l st = st\<lparr>sv_lines := sv_lines st @ [l]\<rparr>"

section \<open>Values\<close>

definition outputMatched :: "bytes \<Rightarrow> bytes \<Rightarrow> bool" where
  "outputMatched publicValues expected \<longleftrightarrow>
     \<not> (length publicValues < length expected \<or> List.take (length expected) publicValues \<noteq> expected)
     \<and> list_all (\<lambda>b. b = 0) (drop (length expected) publicValues)"

definition maxUint64 :: nat where "maxUint64 = 2 ^ 64 - 1"

text \<open>The value \<open>strconv.ParseUint(s, base, 64)\<close> returns beside its error.\<close>

fun parse_uint :: "nat \<Rightarrow> nat \<Rightarrow> string \<Rightarrow> nat" where
  "parse_uint base n [] = n"
| "parse_uint base n (c # s) =
     (case hex_val c of
        None \<Rightarrow> 0
      | Some d \<Rightarrow>
          if base \<le> d then 0
          else if maxUint64 div base + 1 \<le> n then maxUint64
          else if maxUint64 < n * base + d then maxUint64
          else parse_uint base (n * base + d) s)"

definition parseQuantity :: "string \<Rightarrow> nat" where
  "parseQuantity v = (case cut_prefix ''0x'' v of Some after \<Rightarrow> parse_uint 16 0 after | None \<Rightarrow> parse_uint 10 0 v)"

definition decodeHex :: "(string \<Rightarrow> string) \<Rightarrow> string \<Rightarrow> string + bytes" where
  "decodeHex hex_error v =
     (case cut_prefix ''0x'' v of
        None \<Rightarrow> Inl ''missing 0x prefix''
      | Some trimmed \<Rightarrow> (case hex_decode trimmed of None \<Rightarrow> Inl (hex_error trimmed) | Some b \<Rightarrow> Inr b))"

text \<open>\<open>mustHex\<close> panics on \<open>None\<close>.\<close>

definition mustHex :: "string \<Rightarrow> bytes option" where
  "mustHex text = hex_decode text"

definition warmupOutput :: "bytes option" where
  "warmupOutput = mustHex ''c26fa548f160616d5ad455673ec0775fba5c1453196f8c8825af28391fa53bcb0101000000000000000115''"

definition round_second :: "int \<Rightarrow> int" where
  "round_second d = (let r = d mod second in if r + r < second then d - r else d + second - r)"

definition milliseconds :: "int \<Rightarrow> int" where
  "milliseconds d = (if 0 \<le> d then d div 1000000 else - ((- d) div 1000000))"

section \<open>Proving\<close>

definition proveTimeout :: "serve_config \<Rightarrow> int" where
  "proveTimeout cfg = (if prove_timeout cfg \<le> 0 then DefaultProveTimeout * second else prove_timeout cfg)"

text \<open>One call of the prover from a cleared phase log, so the phases it leaves are those it reported.\<close>

definition run_prove ::
  "('e, 'q, 'w) prove_fun \<Rightarrow> ctx \<Rightarrow> bytes \<Rightarrow> ('q, 'w) server_state
    \<Rightarrow> (('e + prove_outcome) \<times> ('q, 'w) server_state) option" where
  "run_prove prove c input st =
     map_option (\<lambda>(r, m). (r, st\<lparr>sv_machine := m\<rparr>)) (prove c input ((sv_machine st)\<lparr>phases := []\<rparr>))"

text \<open>The callback of \<open>prove\<close> prints a phase that differs from the last one printed.\<close>

fun phase_lines :: "string \<Rightarrow> string \<Rightarrow> string list \<Rightarrow> serve_line list" where
  "phase_lines hash lastPhase [] = []"
| "phase_lines hash lastPhase (p # ps) =
     (if p \<noteq> lastPhase then Phase_line hash p # phase_lines hash p ps else phase_lines hash lastPhase ps)"

definition warmup ::
  "('e, 'q, 'w) prove_fun \<Rightarrow> serve_config \<Rightarrow> bytes \<Rightarrow> ctx \<Rightarrow> ('q, 'w) server_state
    \<Rightarrow> ((('e + bytes) option \<times> ('q, 'w) server_state)) option" where
  "warmup prove cfg warmupInput c0 st =
     (case run_prove prove (with_timeout c0 (proveTimeout cfg) (sv_clock st)) warmupInput st of
        None \<Rightarrow> None
      | Some (Inl e, st1) \<Rightarrow> Some (Some (Inl e), st1)
      | Some (Inr outcome, st1) \<Rightarrow>
          Some (if outputMatched (public_values outcome) (the warmupOutput) then None
                else Some (Inr (public_values outcome)), st1))"

definition wait_ready ::
  "('e, 'q, 'w) ready_fun \<Rightarrow> ('e \<Rightarrow> string) \<Rightarrow> string \<Rightarrow> ctx \<Rightarrow> ('q, 'w) server_state \<Rightarrow> ('q, 'w) server_state option" where
  "wait_ready ready show hash requestCtx st =
     (case ready requestCtx (sv_machine st) of
        None \<Rightarrow> None
      | Some (r, m) \<Rightarrow>
          (let st1 = st\<lparr>sv_machine := m\<rparr>; waited = clock m - sv_clock st in
           Some (case r of
             Inl e \<Rightarrow> serve_printf (Still_not_ready hash (show e)) st1
           | Inr _ \<Rightarrow> if second < waited then serve_printf (Waited_ready (round_second waited) hash) st1 else st1)))"

definition cluster_failed ::
  "('e, 'q, 'w) prove_fun \<Rightarrow> ('e \<Rightarrow> string) \<Rightarrow> serve_config \<Rightarrow> bytes \<Rightarrow> string \<Rightarrow> ctx \<Rightarrow> 'e \<Rightarrow> ('q, 'w) server_state
    \<Rightarrow> (rpc_result option \<times> ('q, 'w) server_state) option" where
  "cluster_failed prove show cfg warmupInput hash requestCtx e st0 =
     (let st = serve_printf (Proving_failed hash (show e)) st0; answer = Some (Rpc_error (-32000) (show e)) in
      if ctx_done requestCtx (sv_clock st) then Some (answer, st)
      else if failRunOnClusterError cfg then Some (None, st\<lparr>sv_exit := Some 1\<rparr>)
      else (case run_prove prove (with_timeout requestCtx (proveTimeout cfg) (sv_clock st)) warmupInput st of
              None \<Rightarrow> None
            | Some (Inl e', st1) \<Rightarrow> Some (answer, serve_printf (Warming_failed hash (show e')) st1)
            | Some (Inr _, st1) \<Rightarrow>
                Some (answer, serve_printf (Warmed_again (round_second (sv_clock st1 - sv_clock st)) hash) st1)))"

definition proving_metric :: "prove_payload \<Rightarrow> nat \<Rightarrow> int \<Rightarrow> bool \<Rightarrow> prove_outcome \<Rightarrow> metric_line" where
  "proving_metric payload bytes_in provingTime matched outcome =
     (let gasUsed = parseQuantity (gas_used payload) in
      \<lparr>metric_number = parseQuantity (block_number payload), metric_hash = block_hash payload, metric_gas = gasUsed,
       total_ms = milliseconds provingTime,
       mgas_per_sec = (if 0 < provingTime then of_nat gasUsed / 1000000 / (of_int provingTime / 1000000000) else 0),
       input_size = bytes_in, proving_time_ms = milliseconds provingTime,
       cluster_time_ms = milliseconds (cluster_proving_time outcome), proof_size = proof_bytes outcome,
       output_matched = matched, metric_pipeline = outcome_pipeline outcome\<rparr>)"

definition verdict :: "bool \<Rightarrow> bytes \<Rightarrow> payload_status" where
  "verdict matched publicValues =
     (if matched then \<lparr>status_text = ''VALID'', validation_error = [], stateless_output = []\<rparr>
      else \<lparr>status_text = ''INVALID'', validation_error = ''stateless output mismatch'',
            stateless_output = ''0x'' @ hex_encode publicValues\<rparr>)"

definition report_proof ::
  "prove_payload \<Rightarrow> nat \<Rightarrow> bytes \<Rightarrow> int \<Rightarrow> prove_outcome \<Rightarrow> ('q, 'w) server_state \<Rightarrow> rpc_result \<times> ('q, 'w) server_state" where
  "report_proof payload bytes_in expected started outcome st =
     (let provingTime = sv_clock st - started - submit_wait outcome;
          st1 = (if second < submit_wait outcome
                 then serve_printf (Waited_admission (round_second (submit_wait outcome)) (block_hash payload)) st else st);
          matched = outputMatched (public_values outcome) expected
      in (Rpc_status (verdict matched (public_values outcome)),
          serve_printf (Metric (proving_metric payload bytes_in provingTime matched outcome)) st1))"

definition prove_locked ::
  "('e, 'q, 'w) ready_fun \<Rightarrow> ('e, 'q, 'w) prove_fun \<Rightarrow> ('e \<Rightarrow> string) \<Rightarrow> serve_config \<Rightarrow> bytes \<Rightarrow> prove_payload \<Rightarrow> bytes
    \<Rightarrow> bytes \<Rightarrow> ctx \<Rightarrow> ('q, 'w) server_state \<Rightarrow> (rpc_result option \<times> ('q, 'w) server_state) option" where
  "prove_locked ready prove show cfg warmupInput payload input expected requestCtx st =
     (let hash = block_hash payload in
      case wait_ready ready show hash requestCtx st of
        None \<Rightarrow> None
      | Some st1 \<Rightarrow>
          (let c = with_timeout requestCtx (proveTimeout cfg) (sv_clock st1);
               st2 = serve_printf (Proving hash (length input)) st1;
               started = sv_clock st2
           in case run_prove prove c input st2 of
                None \<Rightarrow> None
              | Some (r, st3) \<Rightarrow>
                  (let st4 = st3\<lparr>sv_lines := sv_lines st3 @ phase_lines hash [] (phases (sv_machine st3))\<rparr> in
                   case r of
                     Inl e \<Rightarrow> cluster_failed prove show cfg warmupInput hash requestCtx e st4
                   | Inr outcome \<Rightarrow>
                       (case report_proof payload (length input) expected started outcome st4 of
                          (answer, st5) \<Rightarrow> Some (Some answer, st5)))))"

definition bad_param :: "string \<Rightarrow> string \<Rightarrow> rpc_result" where
  "bad_param what message = Rpc_error (-32602) (what @ message)"

definition payload_of ::
  "(string \<Rightarrow> string + prove_payload) \<Rightarrow> (string \<Rightarrow> string) \<Rightarrow> string list \<Rightarrow> rpc_result + (prove_payload \<times> bytes \<times> bytes)" where
  "payload_of decode hex_error params =
     (case params of
        [] \<Rightarrow> Inl (bad_param [] ''params[0] is required'')
      | p # _ \<Rightarrow>
          rbind (rmap_err (bad_param ''params[0]: '') (decode p)) (\<lambda>payload.
          rbind (rmap_err (bad_param ''statelessInput: '')
            (decodeHex hex_error (stateless_input payload))) (\<lambda>input.
          rbind (rmap_err (bad_param ''expectedStatelessOutput: '')
            (decodeHex hex_error (expected_output payload))) (\<lambda>expected.
          Inr (payload, input, expected)))))"

definition serve_prove ::
  "('e, 'q, 'w) ready_fun \<Rightarrow> ('e, 'q, 'w) prove_fun \<Rightarrow> ('e \<Rightarrow> string) \<Rightarrow> serve_config \<Rightarrow> bytes
    \<Rightarrow> (string \<Rightarrow> string + prove_payload) \<Rightarrow> (string \<Rightarrow> string) \<Rightarrow> ctx \<Rightarrow> string list \<Rightarrow> ('q, 'w) server_state
    \<Rightarrow> (rpc_result option \<times> ('q, 'w) server_state) option" where
  "serve_prove ready prove show cfg warmupInput decode hex_error requestCtx params st =
     (case payload_of decode hex_error params of
        Inl e \<Rightarrow> Some (Some e, st)
      | Inr (payload, input, expected) \<Rightarrow>
          prove_locked ready prove show cfg warmupInput payload input expected requestCtx st)"

text \<open>The handler: the answer is \<open>None\<close> where the process has exited.\<close>

definition handler ::
  "('e, 'q, 'w) ready_fun \<Rightarrow> ('e, 'q, 'w) prove_fun \<Rightarrow> ('e \<Rightarrow> string) \<Rightarrow> serve_config \<Rightarrow> bytes
    \<Rightarrow> (string \<Rightarrow> string + prove_payload) \<Rightarrow> (string \<Rightarrow> string) \<Rightarrow> (string \<Rightarrow> rpc_request option) \<Rightarrow> ctx
    \<Rightarrow> string option \<Rightarrow> ('q, 'w) server_state \<Rightarrow> (http_answer option \<times> ('q, 'w) server_state) option" where
  "handler ready prove show cfg warmupInput decode hex_error decode_request requestCtx body st =
     (case body of
        None \<Rightarrow> Some (Some Bad_request, st)
      | Some b \<Rightarrow>
          (case decode_request b of
             None \<Rightarrow> Some (Some (Rpc_answer None (Rpc_error (-32700) ''parse error'')), st)
           | Some req \<Rightarrow>
               if rpc_method req = ''web3_clientVersion''
               then Some (Some (Rpc_answer (Some (rpc_id req)) (Rpc_version (clientVersion cfg))), st)
               else if rpc_method req = ''engine_proveStatelessValidator''
               then map_option (\<lambda>(r, st1). (map_option (Rpc_answer (Some (rpc_id req))) r, st1))
                      (serve_prove ready prove show cfg warmupInput decode hex_error requestCtx (rpc_params req) st)
               else Some (Some (Rpc_answer (Some (rpc_id req))
                      (Rpc_error (-32601) (''the method '' @ rpc_method req @ '' does not exist''))), st)))"

section \<open>Values: what they compute\<close>

lemma outputMatched_iff:
  "outputMatched publicValues expected \<longleftrightarrow> (\<exists>k. publicValues = expected @ replicate k 0)"
proof
  assume m: "outputMatched publicValues expected"
  let ?t = "drop (length expected) publicValues"
  from m have "\<forall>b \<in> set ?t. b = 0" by (simp add: outputMatched_def list_all_iff)
  then have "?t = replicate (length ?t) 0" by (rule replicate_length_same [symmetric])
  moreover have "publicValues = List.take (length expected) publicValues @ ?t" by simp
  with m have "publicValues = expected @ ?t" by (simp add: outputMatched_def)
  ultimately show "\<exists>k. publicValues = expected @ replicate k 0" by metis
qed (auto simp: outputMatched_def list_all_iff)

lemma hex_vals:
  "hex_val CHR ''0'' = Some 0"
  "hex_val CHR ''1'' = Some 1"
  "hex_val CHR ''2'' = Some 2"
  "hex_val CHR ''3'' = Some 3"
  "hex_val CHR ''4'' = Some 4"
  "hex_val CHR ''5'' = Some 5"
  "hex_val CHR ''6'' = Some 6"
  "hex_val CHR ''7'' = Some 7"
  "hex_val CHR ''8'' = Some 8"
  "hex_val CHR ''9'' = Some 9"
  "hex_val CHR ''a'' = Some 10"
  "hex_val CHR ''b'' = Some 11"
  "hex_val CHR ''c'' = Some 12"
  "hex_val CHR ''d'' = Some 13"
  "hex_val CHR ''e'' = Some 14"
  "hex_val CHR ''f'' = Some 15"
  by (simp_all add: hex_val_def)

lemma warmupOutput_decodes: "map_option length warmupOutput = Some 43"
  by (simp add: warmupOutput_def mustHex_def hex_vals)

text \<open>A numeral of digits of the base.\<close>

definition numeral_of :: "nat \<Rightarrow> string \<Rightarrow> bool" where
  "numeral_of base s \<longleftrightarrow> (\<forall>c \<in> set s. \<exists>d < base. hex_val c = Some d)"

definition num_val :: "nat \<Rightarrow> nat \<Rightarrow> string \<Rightarrow> nat" where
  "num_val base n s = foldl (\<lambda>acc c. acc * base + the (hex_val c)) n s"

lemma num_val_ge: "0 < base \<Longrightarrow> n \<le> num_val base n s"
proof (induction s arbitrary: n)
  case (Cons c s)
  have "n \<le> n * base + the (hex_val c)" using Cons.prems by (cases base) auto
  also have "\<dots> \<le> num_val base (n * base + the (hex_val c)) s" using Cons by blast
  finally show ?case by (simp add: num_val_def)
qed (simp add: num_val_def)

lemma parse_uint_saturates:
  assumes "0 < base"
  shows "numeral_of base s \<Longrightarrow> n \<le> maxUint64 \<Longrightarrow> parse_uint base n s = min maxUint64 (num_val base n s)"
proof (induction s arbitrary: n)
  case (Cons c s)
  then obtain d where d: "hex_val c = Some d" "d < base" by (auto simp: numeral_of_def)
  have step: "num_val base n (c # s) = num_val base (n * base + d) s" by (simp add: num_val_def d)
  show ?case
  proof (cases "n * base + d \<le> maxUint64")
    case True
    have "n \<le> maxUint64 div base" using True assms by (simp add: less_eq_div_iff_mult_less_eq)
    then have "parse_uint base n (c # s) = parse_uint base (n * base + d) s" using d True by simp
    also have "\<dots> = min maxUint64 (num_val base (n * base + d) s)"
      using Cons True by (auto simp: numeral_of_def)
    finally show ?thesis by (simp only: step)
  next
    case False
    then have "maxUint64 \<le> num_val base (n * base + d) s"
      using num_val_ge [OF assms, of "n * base + d" s] by simp
    moreover have "parse_uint base n (c # s) = maxUint64" using d False by simp
    ultimately show ?thesis by (simp only: step min_absorb1)
  qed
qed (simp add: num_val_def)

lemma hex_val_digit_char: "d < 10 \<Longrightarrow> hex_val (digit_char d) = Some d"
  by (simp add: hex_val_def of_char_digit_char)

lemma num_val_append: "num_val base n (s @ t) = num_val base (num_val base n s) t"
  by (simp add: num_val_def)

lemma num_val_nat_str: "num_val 10 0 (nat_str n) = n"
proof (induction n rule: nat_str.induct)
  case (1 n)
  show ?case
  proof (cases "n < 10")
    case True
    then show ?thesis by (simp add: nat_str.simps [of n] num_val_def hex_val_digit_char)
  next
    case False
    have "num_val 10 0 (nat_str n) = num_val 10 (n div 10) [digit_char (n mod 10)]"
      using False 1 by (simp add: nat_str.simps [of n] num_val_append)
    also have "\<dots> = n" by (simp add: num_val_def hex_val_digit_char)
    finally show ?thesis .
  qed
qed

lemma numeral_nat_str: "numeral_of 10 (nat_str n)"
  unfolding numeral_of_def
proof
  fix c
  assume "c \<in> set (nat_str n)"
  then have "is_digit c" using nat_str_digits by blast
  then show "\<exists>d < 10. hex_val c = Some d" by (auto simp: is_digit_def hex_val_def)
qed

lemma no_0x_nat_str: "cut_prefix ''0x'' (nat_str n) = None"
proof -
  have "CHR ''x'' \<notin> set (nat_str n)" using nat_str_digits [of n] by (auto simp: is_digit_def)
  then show ?thesis by (auto simp: cut_prefix_def has_prefix_iff)
qed

text \<open>A quantity in hexadecimal or decimal digits is read as its value, saturated at the greatest
  64-bit number (it is not zero there), so every printed 64-bit number is read back, while a
  quantity without a digit or with a foreign first character is zero.\<close>

theorem parse_quantity_saturates:
  "parseQuantity (nat_str n) = min maxUint64 n
   \<and> (numeral_of 16 s \<longrightarrow> parseQuantity (''0x'' @ s) = min maxUint64 (num_val 16 0 s))
   \<and> parseQuantity [] = 0 \<and> parseQuantity ''0x'' = 0
   \<and> (hex_val c = None \<longrightarrow> parseQuantity (''0x'' @ c # t) = 0)"
proof -
  have "parseQuantity (nat_str n) = min maxUint64 n"
    using parse_uint_saturates [of 10 "nat_str n" 0] numeral_nat_str
    by (simp add: parseQuantity_def no_0x_nat_str num_val_nat_str)
  moreover have "parseQuantity (''0x'' @ s) = min maxUint64 (num_val 16 0 s)" if "numeral_of 16 s"
    using parse_uint_saturates [of 16 s 0] that
    by (simp add: parseQuantity_def cut_prefix_append [of "''0x''" s, simplified])
  moreover have "parseQuantity (''0x'' @ c # t) = 0" if "hex_val c = None"
    using that by (simp add: parseQuantity_def cut_prefix_append [of "''0x''" "c # t", simplified])
  ultimately show ?thesis
    by (simp add: parseQuantity_def cut_prefix_def has_prefix_def)
qed

theorem parse_quantity_saturates_witness:
  "parseQuantity (''0x'' @ ''1ff'') = 511 \<and> parseQuantity (''0x'' @ ''z1'') = 0
    \<and> parseQuantity (nat_str (2 ^ 64)) = 2 ^ 64 - 1"
proof -
  have "numeral_of 16 ''1ff''" by (simp add: numeral_of_def hex_vals)
  moreover have "num_val 16 0 ''1ff'' = 511" by (simp add: num_val_def hex_vals)
  moreover have "hex_val CHR ''z'' = None" by (simp add: hex_val_def)
  ultimately have "parseQuantity (''0x'' @ ''1ff'') = min maxUint64 511" "parseQuantity (''0x'' @ ''z1'') = 0"
    "parseQuantity (nat_str (2 ^ 64)) = min maxUint64 (2 ^ 64)"
    using parse_quantity_saturates [of "2 ^ 64" "''1ff''" "CHR ''z''" "''1''"] by presburger+
  then show ?thesis by (simp only: maxUint64_def) simp
qed

section \<open>What a call does\<close>

lemma payload_of_Inr:
  "payload_of decode hex_error params = Inr (payload, input, expected) \<longleftrightarrow>
    (\<exists>p rest. params = p # rest \<and> decode p = Inr payload
      \<and> decodeHex hex_error (stateless_input payload) = Inr input
      \<and> decodeHex hex_error (expected_output payload) = Inr expected)"
  by (cases params) (auto simp: payload_of_def rbind_Inr_iff rmap_err_Inr_iff)

lemma payload_of_Inl: "payload_of decode hex_error params = Inl e \<Longrightarrow> \<exists>what message. e = bad_param what message"
  by (cases params) (auto simp: payload_of_def rbind_Inl_iff rmap_err_Inl_iff)

lemma run_prove_Some:
  "run_prove prove c input st = Some (r, st') \<longleftrightarrow>
    prove c input ((sv_machine st)\<lparr>phases := []\<rparr>) = Some (r, sv_machine st')
    \<and> st' = st\<lparr>sv_machine := sv_machine st'\<rparr>"
  by (auto simp: run_prove_def)

lemma serve_printf_simps [simp]:
  "sv_machine (serve_printf l st) = sv_machine st" "sv_exit (serve_printf l st) = sv_exit st"
  "sv_lines (serve_printf l st) = sv_lines st @ [l]"
  by (simp_all add: serve_printf_def)

lemma wait_ready_Some:
  assumes "wait_ready ready show hash c st = Some st1"
  shows "\<exists>r m new. ready c (sv_machine st) = Some (r, m) \<and> sv_machine st1 = m \<and> sv_exit st1 = sv_exit st
    \<and> sv_lines st1 = sv_lines st @ new"
  using assms by (auto simp: wait_ready_def Let_def split: option.splits sum.splits if_splits)

text \<open>The measured call: after the readiness wait, on the proof's own deadline, from a cleared log.\<close>

definition measured_call ::
  "('e, 'q, 'w) ready_fun \<Rightarrow> ('e, 'q, 'w) prove_fun \<Rightarrow> serve_config \<Rightarrow> bytes \<Rightarrow> ctx \<Rightarrow> ('q, 'w) machine \<Rightarrow> int
    \<Rightarrow> 'e + prove_outcome \<Rightarrow> ('q, 'w) machine \<Rightarrow> bool" where
  "measured_call ready prove cfg input c m started r m' \<longleftrightarrow>
     (\<exists>r0 m0. ready c m = Some (r0, m0) \<and> started = clock m0
        \<and> prove (with_timeout c (proveTimeout cfg) started) input (m0\<lparr>phases := []\<rparr>) = Some (r, m'))"

lemma prove_locked_cases:
  assumes "prove_locked ready prove show cfg warm payload input expected c st = Some (a, st')"
  obtains (proved) started outcome new where
      "measured_call ready prove cfg input c (sv_machine st) started (Inr outcome) (sv_machine st')"
      "a = Some (Rpc_status (verdict (outputMatched (public_values outcome) expected) (public_values outcome)))"
      "sv_lines st' = sv_lines st @ new @ [Metric (proving_metric payload (length input)
         (sv_clock st' - started - submit_wait outcome) (outputMatched (public_values outcome) expected) outcome)]"
      "sv_exit st' = sv_exit st"
  | (failed) started e st4 new where
      "measured_call ready prove cfg input c (sv_machine st) started (Inl e) (sv_machine st4)"
      "cluster_failed prove show cfg warm (block_hash payload) c e st4 = Some (a, st')"
      "sv_lines st4 = sv_lines st @ new" "sv_exit st4 = sv_exit st"
proof -
  from assms obtain st1 where w: "wait_ready ready show (block_hash payload) c st = Some st1"
    by (auto simp: prove_locked_def Let_def split: option.splits)
  from wait_ready_Some [OF w] obtain r0 new0 where r0: "ready c (sv_machine st) = Some (r0, sv_machine st1)"
    and new0: "sv_lines st1 = sv_lines st @ new0" "sv_exit st1 = sv_exit st" by blast
  let ?st2 = "serve_printf (Proving (block_hash payload) (length input)) st1"
  from assms w obtain r st3 where
    run: "run_prove prove (with_timeout c (proveTimeout cfg) (sv_clock st1)) input ?st2 = Some (r, st3)"
    by (auto simp: prove_locked_def Let_def split: option.splits)
  then have call: "measured_call ready prove cfg input c (sv_machine st) (sv_clock st1) r (sv_machine st3)"
    and st3: "sv_lines st3 = sv_lines st @ new0 @ [Proving (block_hash payload) (length input)]"
      "sv_exit st3 = sv_exit st"
    using r0 new0 by (auto simp: run_prove_def measured_call_def)
  let ?ps = "phase_lines (block_hash payload) [] (phases (sv_machine st3))"
  let ?st4 = "st3\<lparr>sv_lines := sv_lines st3 @ ?ps\<rparr>"
  show thesis
  proof (cases r)
    case (Inl e)
    with assms w run have "cluster_failed prove show cfg warm (block_hash payload) c e ?st4 = Some (a, st')"
      by (simp add: prove_locked_def Let_def)
    with call Inl st3 show thesis
      by (intro failed [of "sv_clock st1" e ?st4]) simp_all
  next
    case (Inr outcome)
    with assms w run have r: "report_proof payload (length input) expected (sv_clock st1) outcome ?st4 = (the a, st')"
      and a: "a \<noteq> None"
      by (auto simp: prove_locked_def Let_def split: prod.splits)
    let ?mark = "if second < submit_wait outcome
      then [Waited_admission (round_second (submit_wait outcome)) (block_hash payload)] else []"
    from r have "sv_machine st' = sv_machine st3" "sv_exit st' = sv_exit st3"
      "the a = Rpc_status (verdict (outputMatched (public_values outcome) expected) (public_values outcome))"
      "sv_lines st' = (sv_lines st3 @ ?ps @ ?mark) @ [Metric (proving_metric payload (length input)
         (sv_clock st3 - sv_clock st1 - submit_wait outcome) (outputMatched (public_values outcome) expected) outcome)]"
      by (auto simp: report_proof_def Let_def)
    with call Inr st3 a show thesis
      by (intro proved [of "sv_clock st1" outcome
            "new0 @ [Proving (block_hash payload) (length input)] @ ?ps @ ?mark"]) auto
  qed
qed

lemma serve_prove_Some:
  "serve_prove ready prove show cfg warm decode hex_error c params st = Some (a, st') \<longleftrightarrow>
    (\<exists>e. payload_of decode hex_error params = Inl e \<and> a = Some e \<and> st' = st)
    \<or> (\<exists>payload input expected. payload_of decode hex_error params = Inr (payload, input, expected)
        \<and> prove_locked ready prove show cfg warm payload input expected c st = Some (a, st'))"
  by (auto simp: serve_prove_def split: sum.splits)

lemma cluster_failed_error:
  "cluster_failed prove show cfg warm hash c e st = Some (Some r, st') \<Longrightarrow> r = Rpc_error (-32000) (show e)"
  by (auto simp: cluster_failed_def Let_def split: if_splits option.splits sum.splits)

lemma serve_status:
  assumes "serve_prove ready prove show cfg warm decode hex_error c params st = Some (Some (Rpc_status s), st')"
  shows "\<exists>payload input expected started outcome new.
    payload_of decode hex_error params = Inr (payload, input, expected)
    \<and> measured_call ready prove cfg input c (sv_machine st) started (Inr outcome) (sv_machine st')
    \<and> s = verdict (outputMatched (public_values outcome) expected) (public_values outcome)
    \<and> sv_lines st' = sv_lines st @ new @ [Metric (proving_metric payload (length input)
         (sv_clock st' - started - submit_wait outcome) (outputMatched (public_values outcome) expected) outcome)]"
proof -
  have "payload_of decode hex_error params \<noteq> Inl (Rpc_status s)"
    using payload_of_Inl [of decode hex_error params "Rpc_status s"] by (auto simp: bad_param_def)
  with assms obtain payload input expected where
    p: "payload_of decode hex_error params = Inr (payload, input, expected)"
    and l: "prove_locked ready prove show cfg warm payload input expected c st = Some (Some (Rpc_status s), st')"
    by (auto simp: serve_prove_Some)
  from l show ?thesis
  proof (cases rule: prove_locked_cases)
    case (proved started outcome new)
    with p show ?thesis by blast
  next
    case (failed started e st4 new)
    from cluster_failed_error [OF failed(2)] show ?thesis by simp
  qed
qed


definition sample_payload :: prove_payload where
  "sample_payload = \<lparr>block_hash = ''0xb'', block_number = ''0x10'', gas_used = ''21000'', stateless_input = ''0x07'',
     expected_output = ''0x07''\<rparr>"

definition sample_serve_config :: serve_config where
  "sample_serve_config = \<lparr>clientVersion = ''guest'', prove_timeout = 0, failRunOnClusterError = False\<rparr>"

definition idle_server :: "(unit, unit) server_state" where
  "idle_server = \<lparr>sv_machine = \<lparr>clock = 0, sent = [], phases = [], env = ()\<rparr>, sv_lines = [], sv_exit = None\<rparr>"

definition always_ready :: "(string, unit, unit) ready_fun" where
  "always_ready c m = Some (Inr (), m)"

definition echo_prove :: "(string, unit, unit) prove_fun" where
  "echo_prove c input m = Some (Inr \<lparr>public_values = input @ [0], proof_bytes = 5, cluster_proving_time = 1000000,
     submit_wait = 0, outcome_pipeline = None\<rparr>, m\<lparr>clock := clock m + 2000000, phases := [''a'', ''a'', ''b'']\<rparr>)"

definition down_prove :: "(string, unit, unit) prove_fun" where
  "down_prove c input m = Some (Inl ''down'', m\<lparr>clock := clock m + 3\<rparr>)"

lemma sample_payload_of:
  "payload_of (\<lambda>_. Inr sample_payload) (\<lambda>_. []) [[]] = Inr (sample_payload, [7], [7])"
  by (simp add: payload_of_def sample_payload_def decodeHex_def cut_prefix_def has_prefix_def hex_vals)


text \<open>C17: a call without a status is answered in one of four ways. A malformed parameter is refused
  without touching the prover or printing anything. A failed proof is answered with its error; where
  the caller has gone, nothing more is proved; else the run ends, if it is set to end on cluster
  errors, and otherwise the warmup block is proved once more, before the answer.\<close>

theorem serve_failure:
  assumes "serve_prove ready prove show cfg warm decode hex_error c params st = Some (a, st')"
    and "\<forall>s. a \<noteq> Some (Rpc_status s)"
  shows "(\<exists>what message. payload_of decode hex_error params = Inl (bad_param what message)
        \<and> a = Some (bad_param what message) \<and> st' = st)
    \<or> (\<exists>payload input expected started e m1 new.
        payload_of decode hex_error params = Inr (payload, input, expected)
        \<and> measured_call ready prove cfg input c (sv_machine st) started (Inl e) m1
        \<and> (ctx_done c (clock m1) \<and> a = Some (Rpc_error (-32000) (show e)) \<and> sv_machine st' = m1
              \<and> sv_exit st' = sv_exit st \<and> sv_lines st' = sv_lines st @ new @ [Proving_failed (block_hash payload) (show e)]
           \<or> \<not> ctx_done c (clock m1) \<and> failRunOnClusterError cfg \<and> a = None \<and> sv_exit st' = Some 1 \<and> sv_machine st' = m1
           \<or> \<not> ctx_done c (clock m1) \<and> \<not> failRunOnClusterError cfg \<and> a = Some (Rpc_error (-32000) (show e))
              \<and> sv_exit st' = sv_exit st
              \<and> (\<exists>r. prove (with_timeout c (proveTimeout cfg) (clock m1)) warm (m1\<lparr>phases := []\<rparr>)
                    = Some (r, sv_machine st'))))"
proof (cases "payload_of decode hex_error params")
  case (Inl e)
  with payload_of_Inl [OF Inl] assms(1) show ?thesis by (auto simp: serve_prove_Some)
next
  case (Inr x)
  obtain payload input expected where x: "x = (payload, input, expected)" by (cases x)
  with Inr assms(1) have l: "prove_locked ready prove show cfg warm payload input expected c st = Some (a, st')"
    by (simp add: serve_prove_Some)
  from l show ?thesis
  proof (cases rule: prove_locked_cases)
    case (proved started outcome new)
    with assms(2) show ?thesis by simp
  next
    case (failed started e st4 new)
    let ?m1 = "sv_machine st4"
    have "ctx_done c (clock ?m1) \<and> a = Some (Rpc_error (-32000) (show e)) \<and> sv_machine st' = ?m1
              \<and> sv_exit st' = sv_exit st \<and> sv_lines st' = sv_lines st @ new @ [Proving_failed (block_hash payload) (show e)]
           \<or> \<not> ctx_done c (clock ?m1) \<and> failRunOnClusterError cfg \<and> a = None \<and> sv_exit st' = Some 1 \<and> sv_machine st' = ?m1
           \<or> \<not> ctx_done c (clock ?m1) \<and> \<not> failRunOnClusterError cfg \<and> a = Some (Rpc_error (-32000) (show e))
              \<and> sv_exit st' = sv_exit st
              \<and> (\<exists>r. prove (with_timeout c (proveTimeout cfg) (clock ?m1)) warm (?m1\<lparr>phases := []\<rparr>)
                    = Some (r, sv_machine st'))"
      using failed(2,3,4)
      by (auto simp: cluster_failed_def Let_def run_prove_def split: if_splits option.splits sum.splits)
    with Inr x failed(1) show ?thesis by blast
  qed
qed

theorem serve_failure_witness:
  "\<exists>st'. serve_prove always_ready down_prove (\<lambda>e. e) sample_serve_config [1] (\<lambda>_. Inr sample_payload) (\<lambda>_. []) None
      [[]] idle_server = Some (Some (Rpc_error (-32000) ''down''), st')
    \<and> sv_clock st' = 6 \<and> sv_exit st' = None"
proof -
  obtain st' where r: "serve_prove always_ready down_prove (\<lambda>e. e) sample_serve_config [1] (\<lambda>_. Inr sample_payload)
      (\<lambda>_. []) None [[]] idle_server = Some (Some (Rpc_error (-32000) ''down''), st')" and "sv_clock st' = 6"
    by (simp add: serve_prove_def sample_payload_of prove_locked_def wait_ready_def always_ready_def idle_server_def
        run_prove_def down_prove_def cluster_failed_def ctx_done_def sample_serve_config_def second_def Let_def)
  with serve_failure [OF r] show ?thesis
    by (auto simp: idle_server_def sample_payload_of ctx_done_def)
qed

section \<open>The prover's contract\<close>

text \<open>What the server relies on: a proof is one the prover's verifier accepted, and the clock covers the
  wait the proof reports. The client packages provide it.\<close>

locale prover =
  fixes ready :: "('e, 'q, 'w) ready_fun"
    and prove :: "('e, 'q, 'w) prove_fun"
    and accepted :: "bytes \<Rightarrow> bool"
  assumes prove_accepted: "prove c input m = Some (Inr outcome, m') \<Longrightarrow> accepted (public_values outcome)"
    and prove_measured: "prove c input m = Some (Inr outcome, m') \<Longrightarrow>
      0 \<le> submit_wait outcome \<and> clock m + submit_wait outcome \<le> clock m'"
begin

lemma measured_accepted:
  assumes "measured_call ready prove cfg input c m started (Inr outcome) m'"
  shows "accepted (public_values outcome)
    \<and> 0 \<le> clock m' - started - submit_wait outcome \<and> clock m' - started - submit_wait outcome \<le> clock m' - started"
proof -
  from assms obtain r0 m0 where "started = clock m0"
    and p: "prove (with_timeout c (proveTimeout cfg) started) input (m0\<lparr>phases := []\<rparr>) = Some (Inr outcome, m')"
    by (auto simp: measured_call_def)
  with prove_accepted [OF p] prove_measured [OF p] show ?thesis by simp
qed

lemma valid_accepted:
  assumes "serve_prove ready prove show cfg warm decode hex_error c params st
      = Some (Some (Rpc_status s), st')" "status_text s = ''VALID''"
  shows "\<exists>payload input expected k. payload_of decode hex_error params = Inr (payload, input, expected)
    \<and> accepted (expected @ replicate k 0)"
  using serve_status [OF assms(1)] assms(2) measured_accepted
  by (fastforce simp: outputMatched_iff verdict_def split: if_splits)

lemma status_measured:
  assumes "serve_prove ready prove show cfg warm decode hex_error c params st
      = Some (Some (Rpc_status s), st')"
  shows "\<exists>line. last (sv_lines st') = Metric line \<and> 0 \<le> total_ms line \<and> 0 \<le> mgas_per_sec line
    \<and> (output_matched line \<longleftrightarrow> status_text s = ''VALID'')"
proof -
  from serve_status [OF assms] obtain payload input expected started outcome new where
    c: "measured_call ready prove cfg input c (sv_machine st) started (Inr outcome) (sv_machine st')"
    and s: "s = verdict (outputMatched (public_values outcome) expected) (public_values outcome)"
    and l: "sv_lines st' = sv_lines st @ new @ [Metric (proving_metric payload (length input)
         (sv_clock st' - started - submit_wait outcome) (outputMatched (public_values outcome) expected) outcome)]"
    by blast
  from measured_accepted [OF c] have "0 \<le> sv_clock st' - started - submit_wait outcome" by simp
  then show ?thesis
    by (auto simp: l s proving_metric_def Let_def milliseconds_def verdict_def intro!: divide_nonneg_nonneg)
qed

end

end
