(* ===== verification/Verifier.thy ===== *)
theory Verifier
  imports Bytes Prelude
begin

text \<open>
  \<open>internal/ereverifier/verifier.go\<close> and the guard the clients put on it: the wrapper of the
  native verifier, whose library is the parameter \<open>lib\<close>, and the read-write mutex under which
  \<open>verify\<close> and \<open>Close\<close> of both clients use one handle. The status codes of the C header
  are distinct constants, so they are constructors here.
\<close>

section \<open>The wrapper\<close>

datatype ere_status =
    ERE_OK
  | ERE_ERR_NULL_PTR
  | ERE_ERR_BAD_KIND
  | ERE_ERR_DECODE_PROGRAM_VK
  | ERE_ERR_DECODE_PROOF
  | ERE_ERR_VERIFY
  | ERE_ERR_INTERNAL
  | ERE_other int

datatype ere_error =
    ErrNullPtr
  | ErrBadKind
  | ErrDecodeProgramVK
  | ErrDecodeProof
  | ErrVerify
  | ErrInternal
  | Unknown_code int

datatype zkvm_kind = OpenVM | SP1 | Zisk | LambdaVM

fun statusToError :: "ere_status \<Rightarrow> ere_error option" where
  "statusToError ERE_OK = None"
| "statusToError ERE_ERR_NULL_PTR = Some ErrNullPtr"
| "statusToError ERE_ERR_BAD_KIND = Some ErrBadKind"
| "statusToError ERE_ERR_DECODE_PROGRAM_VK = Some ErrDecodeProgramVK"
| "statusToError ERE_ERR_DECODE_PROOF = Some ErrDecodeProof"
| "statusToError ERE_ERR_VERIFY = Some ErrVerify"
| "statusToError ERE_ERR_INTERNAL = Some ErrInternal"
| "statusToError (ERE_other n) = Some (Unknown_code n)"

text \<open>The native library: the status and the handle of \<open>ere_verifier_new\<close>, the status and the
  buffer of \<open>ere_verifier_verify\<close>, and the status and kind of \<open>ere_verifier_zkvm_kind\<close>.\<close>

record 'h ere_lib =
  lib_new :: "zkvm_kind \<Rightarrow> bytes \<Rightarrow> ere_status \<times> 'h"
  lib_verify :: "'h \<Rightarrow> bytes \<Rightarrow> ere_status \<times> bytes"
  lib_kind :: "'h \<Rightarrow> ere_status \<times> zkvm_kind"

text \<open>A \<open>*Verifier\<close>: \<open>None\<close> is the nil pointer, \<open>Some None\<close> a closed handle. The
  handles the library was asked to free are logged.\<close>

type_synonym 'h verifier = "'h option option"

definition ver_new :: "'h ere_lib \<Rightarrow> zkvm_kind \<Rightarrow> bytes \<Rightarrow> ere_error + 'h verifier" where
  "ver_new lib k vk =
     (case lib_new lib k vk of (status, h) \<Rightarrow>
        (case statusToError status of Some e \<Rightarrow> Inl e | None \<Rightarrow> Inr (Some (Some h))))"

definition ver_verify :: "'h ere_lib \<Rightarrow> 'h verifier \<Rightarrow> bytes \<Rightarrow> ere_error + bytes" where
  "ver_verify lib v proof =
     (case v of
        Some (Some h) \<Rightarrow>
          (case lib_verify lib h proof of (status, values) \<Rightarrow>
             (case statusToError status of Some e \<Rightarrow> Inl e | None \<Rightarrow> Inr values))
      | _ \<Rightarrow> Inl ErrNullPtr)"

definition ver_kind :: "'h ere_lib \<Rightarrow> 'h verifier \<Rightarrow> ere_error + zkvm_kind" where
  "ver_kind lib v =
     (case v of
        Some (Some h) \<Rightarrow>
          (case lib_kind lib h of (status, k) \<Rightarrow>
             (case statusToError status of Some e \<Rightarrow> Inl e | None \<Rightarrow> Inr k))
      | _ \<Rightarrow> Inl ErrNullPtr)"

definition ver_close :: "'h verifier \<Rightarrow> 'h list \<Rightarrow> 'h verifier \<times> 'h list" where
  "ver_close v freed =
     (case v of Some (Some h) \<Rightarrow> (Some None, freed @ [h]) | _ \<Rightarrow> (v, freed))"

lemma statusToError_None [simp]: "statusToError s = None \<longleftrightarrow> s = ERE_OK"
  by (cases s) auto

lemma ver_verify_Inr:
  "ver_verify lib v proof = Inr values \<longleftrightarrow>
    (\<exists>h. v = Some (Some h) \<and> lib_verify lib h proof = (ERE_OK, values))"
  by (auto simp: ver_verify_def split: option.splits prod.splits)

text \<open>A verifier accepts a proof exactly when its handle is open and the library accepts it, its
  values are then the library's, and a verifier that was closed once refuses everything and is not
  freed a second time.\<close>

lemma verifier_lifecycle:
  "(ver_verify lib v proof = Inr values \<longleftrightarrow>
      (\<exists>h. v = Some (Some h) \<and> lib_verify lib h proof = (ERE_OK, values)))
   \<and> ver_verify lib (fst (ver_close v freed)) proof = Inl ErrNullPtr
   \<and> ver_kind lib (fst (ver_close v freed)) = Inl ErrNullPtr
   \<and> ver_close (fst (ver_close v freed)) (snd (ver_close v freed)) = ver_close v freed"
  unfolding ver_verify_Inr
  by (auto simp: ver_close_def ver_verify_def ver_kind_def split: option.splits)

section \<open>The guard of the clients\<close>

text \<open>
  The goroutines of one client, which share \<open>verifierMu\<close> and the pointer it guards.
  \<open>verify\<close> takes the read lock, checks the pointer, hands it to the native call and releases
  the lock when it returns; \<open>Close\<close> takes the write lock, frees the handle, sets the pointer to
  nil and releases the lock. A read lock waits for a writer and a write lock for the readers.
\<close>

datatype phase =
    Idle
  | Read_locked
  | In_native
  | Refused
  | Write_locked
  | Freed_handle
  | Closed_pointer

record 'g guarded =
  at :: "'g \<Rightarrow> phase"
  bound :: bool
  frees :: nat

definition reading :: "phase \<Rightarrow> bool" where
  "reading p \<longleftrightarrow> p \<in> {Read_locked, In_native, Refused}"

definition writing :: "phase \<Rightarrow> bool" where
  "writing p \<longleftrightarrow> p \<in> {Write_locked, Freed_handle, Closed_pointer}"

lemmas lock_phases = reading_def writing_def

inductive guard_step :: "'g guarded \<Rightarrow> 'g guarded \<Rightarrow> bool" where
  rlock: "at s g = Idle \<Longrightarrow> \<forall>x. \<not> writing (at s x) \<Longrightarrow>
    guard_step s (s\<lparr>at := (at s)(g := Read_locked)\<rparr>)"
| use: "at s g = Read_locked \<Longrightarrow> bound s \<Longrightarrow> guard_step s (s\<lparr>at := (at s)(g := In_native)\<rparr>)"
| refuse: "at s g = Read_locked \<Longrightarrow> \<not> bound s \<Longrightarrow> guard_step s (s\<lparr>at := (at s)(g := Refused)\<rparr>)"
| runlock: "at s g \<in> {In_native, Refused} \<Longrightarrow> guard_step s (s\<lparr>at := (at s)(g := Idle)\<rparr>)"
| lock: "at s g = Idle \<Longrightarrow> \<forall>x. \<not> writing (at s x) \<and> \<not> reading (at s x) \<Longrightarrow>
    guard_step s (s\<lparr>at := (at s)(g := Write_locked)\<rparr>)"
| free: "at s g = Write_locked \<Longrightarrow>
    guard_step s (s\<lparr>at := (at s)(g := Freed_handle), frees := frees s + (if bound s then 1 else 0)\<rparr>)"
| clear: "at s g = Freed_handle \<Longrightarrow> guard_step s (s\<lparr>at := (at s)(g := Closed_pointer), bound := False\<rparr>)"
| unlock: "at s g = Closed_pointer \<Longrightarrow> guard_step s (s\<lparr>at := (at s)(g := Idle)\<rparr>)"

inductive guard_reach :: "'g guarded \<Rightarrow> bool" where
  start: "guard_reach \<lparr>at = \<lambda>_. Idle, bound = True, frees = 0\<rparr>"
| step: "guard_reach s \<Longrightarrow> guard_step s s' \<Longrightarrow> guard_reach s'"

inductive_cases guard_stepE: "guard_step s s'"

definition guard_ok :: "'g guarded \<Rightarrow> bool" where
  "guard_ok s \<longleftrightarrow>
     (\<forall>g h. writing (at s g) \<longrightarrow> (writing (at s h) \<or> reading (at s h)) \<longrightarrow> h = g)
     \<and> (\<forall>g. at s g = In_native \<longrightarrow> bound s)
     \<and> (\<forall>g. at s g = Closed_pointer \<longrightarrow> \<not> bound s)
     \<and> frees s = (if bound s \<and> (\<forall>g. at s g \<noteq> Freed_handle) then 0 else 1)"

lemma phase_split: "p = Idle \<or> reading p \<or> writing p"
  by (cases p) (auto simp: lock_phases)

lemma writer_alone: "guard_ok s \<Longrightarrow> writing (at s g) \<Longrightarrow> h \<noteq> g \<Longrightarrow> at s h = Idle"
  using phase_split unfolding guard_ok_def by blast

lemma reader_no_writer: "guard_ok s \<Longrightarrow> reading (at s g) \<Longrightarrow> \<not> writing (at s h)"
  unfolding guard_ok_def lock_phases by (metis insert_iff phase.distinct empty_iff)

lemma guard_ok_step: "guard_step s s' \<Longrightarrow> guard_ok s \<Longrightarrow> guard_ok s'"
proof (induction rule: guard_step.induct)
  case (use s g)
  then have "at s h \<noteq> Freed_handle" for h
    using reader_no_writer [of s g h] by (auto simp: lock_phases)
  with use show ?case unfolding guard_ok_def lock_phases by auto
next
  case (free s g)
  then have "at s h = Idle" if "h \<noteq> g" for h
    using that writer_alone [of s g h] by (simp add: lock_phases)
  with free have only: "at s = (\<lambda>_. Idle)(g := Write_locked)" by (auto simp: fun_eq_iff)
  with free have "frees s = (if bound s then 0 else 1)" by (auto simp: guard_ok_def)
  with only show ?case by (auto simp: guard_ok_def lock_phases)
next
  case (clear s g)
  then have "at s h = Idle" if "h \<noteq> g" for h
    using that writer_alone [of s g h] by (simp add: lock_phases)
  with clear have only: "at s = (\<lambda>_. Idle)(g := Freed_handle)" by (auto simp: fun_eq_iff)
  with clear have "frees s = 1" by (auto simp: guard_ok_def)
  with only show ?case by (auto simp: guard_ok_def lock_phases)
next
  case (rlock s g)
  then show ?case unfolding guard_ok_def lock_phases by auto
next
  case (refuse s g)
  then show ?case unfolding guard_ok_def lock_phases by auto
next
  case (runlock s g)
  then have "reading (at s g)" by (auto simp: lock_phases)
  then have nw: "\<not> writing (at s h)" for h by (rule reader_no_writer [OF runlock.prems])
  then have "at s h \<noteq> Freed_handle" "at s h \<noteq> Closed_pointer" for h
    by (metis insertCI writing_def)+
  with runlock.prems have "\<forall>h. at s h = In_native \<longrightarrow> bound s" "frees s = (if bound s then 0 else 1)"
    "\<forall>h. at s h \<noteq> Freed_handle \<and> at s h \<noteq> Closed_pointer" by (auto simp: guard_ok_def)
  moreover have "\<not> writing (at (s\<lparr>at := (at s)(g := Idle)\<rparr>) h)" for h
    using nw by (simp add: writing_def)
  ultimately show ?case unfolding guard_ok_def by auto
next
  case (lock s g)
  then have only: "at s = (\<lambda>_. Idle)" using phase_split by (auto simp: fun_eq_iff)
  with lock have "frees s = (if bound s then 0 else 1)" by (auto simp: guard_ok_def)
  with only show ?case by (auto simp: guard_ok_def lock_phases)
next
  case (unlock s g)
  then have "at s h = Idle" if "h \<noteq> g" for h
    using that writer_alone [of s g h] by (simp add: lock_phases)
  with unlock have only: "at s = (\<lambda>_. Idle)(g := Closed_pointer)" by (auto simp: fun_eq_iff)
  with unlock have "frees s = 1" "\<not> bound s" by (auto simp: guard_ok_def)
  with only show ?case by (auto simp: guard_ok_def lock_phases)
qed

lemma guard_ok_reach: "guard_reach s \<Longrightarrow> guard_ok s"
proof (induction rule: guard_reach.induct)
  case start
  then show ?case by (simp add: guard_ok_def lock_phases)
next
  case (step s s')
  then show ?case using guard_ok_step by blast
qed

text \<open>C38: however the goroutines of a client interleave, the handle is not freed while a proof is
  being verified against it, it is freed at most once, and once a \<open>Close\<close> has ended every
  verification is refused.\<close>

theorem verifier_guard_safe:
  assumes "guard_reach s"
  shows "((\<exists>g. at s g = In_native) \<longrightarrow> bound s \<and> frees s = 0) \<and> frees s \<le> 1
    \<and> ((\<exists>g. at s g = Closed_pointer) \<longrightarrow> \<not> bound s \<and> frees s = 1)"
proof -
  from assms have ok: "guard_ok s" by (rule guard_ok_reach)
  have "frees s = 0 \<and> bound s" if g: "at s g = In_native" for g
  proof -
    have "at s h \<noteq> Freed_handle" for h
      using reader_no_writer [OF ok, of g h] g by (auto simp: lock_phases)
    with ok g show ?thesis unfolding guard_ok_def by auto
  qed
  moreover have "frees s \<le> 1" "\<And>g. at s g = Closed_pointer \<Longrightarrow> \<not> bound s \<and> frees s = 1"
    using ok unfolding guard_ok_def by (auto split: if_splits)
  ultimately show ?thesis by blast
qed

theorem verifier_guard_safe_witness:
  "guard_reach \<lparr>at = (\<lambda>_. Idle)(0 :: nat := In_native), bound = True, frees = 0\<rparr>
    \<and> frees \<lparr>at = (\<lambda>_. Idle)(0 :: nat := In_native), bound = True, frees = 0\<rparr> = 0"
proof -
  let ?s0 = "\<lparr>at = \<lambda>_ :: nat. Idle, bound = True, frees = 0\<rparr>"
  have "guard_step ?s0 (?s0\<lparr>at := (at ?s0)(0 := Read_locked)\<rparr>)"
    by (rule guard_step.rlock) (auto simp: writing_def)
  then have r1: "guard_reach (?s0\<lparr>at := (at ?s0)(0 := Read_locked)\<rparr>)"
    by (rule guard_reach.step [OF guard_reach.start])
  let ?s1 = "?s0\<lparr>at := (at ?s0)(0 := Read_locked)\<rparr>"
  have "guard_step ?s1 (?s1\<lparr>at := (at ?s1)(0 := In_native)\<rparr>)" by (rule guard_step.use) auto
  with r1 have "guard_reach (?s1\<lparr>at := (at ?s1)(0 := In_native)\<rparr>)" by (rule guard_reach.step)
  then have r: "guard_reach \<lparr>at = (\<lambda>_. Idle)(0 :: nat := In_native), bound = True, frees = 0\<rparr>" by simp
  from verifier_guard_safe [OF r] have "frees \<lparr>at = (\<lambda>_. Idle)(0 :: nat := In_native), bound = True, frees = 0\<rparr> = 0"
    by auto
  with r show ?thesis by blast
qed

end
