(* ===== verification/Zisk_Pipeline.thy ===== *)
theory Zisk_Pipeline
  imports Pipeline Cluster_Config
begin

text \<open>
  \<open>internal/zisk/pipeline.go\<close>: the timeline of one ZisK proof from the coordinator's
  statistics. The messages of \<open>internal/zisk/api\<close> are records whose fields keep the widths of
  the protocol, and a nil message is the record its getters read, so \<open>executor\<close> holds zeros
  where the task reports no executor time. \<open>int64\<close> of a \<open>uint64\<close> is the signed reading
  \<open>sint\<close>.
\<close>

type_synonym u32 = "32 word"
type_synonym stamp = "64 word"

section \<open>The statistics\<close>

record executor_time =
  execution_duration :: stamp
  count_and_plan :: stamp
  count_and_plan_mo :: stamp

record proof_timing =
  pt_id :: u32
  pt_type :: u32
  pt_airgroup :: u32
  pt_air_name :: string
  pt_start :: stamp
  pt_end :: stamp
  pt_breakdown :: "string \<rightharpoonup> u32"

datatype job_phase =
    Phase_contributions
  | Phase_prove
  | Phase_recurse
  | Phase_other int

record task_timing =
  tt_worker :: string
  tt_phase :: job_phase
  tt_coordinator_start :: stamp
  tt_worker_start :: stamp
  tt_worker_end :: stamp
  tt_coordinator_end :: stamp
  tt_executor :: executor_time
  tt_proofs :: "proof_timing list"

text \<open>\<open>proof_start\<close> is \<open>UnixMilli\<close> of the stamp, \<open>None\<close> where it is nil.\<close>

record execution_stats =
  proof_start :: "int option"
  stat_tasks :: "task_timing list"
  duration_nanos :: stamp

datatype zisk_pipeline_error =
    Phase_unmapped job_phase
  | Proof_type_unmapped u32
  | Worker_unlisted string

section \<open>Kinds and labels\<close>

definition kindExecute :: int where "kindExecute = 0"
definition kindPrecalc :: int where "kindPrecalc = 1"
definition kindWitness :: int where "kindWitness = 2"
definition kindRecompute :: int where "kindRecompute = 3"
definition kindRecursionWitness :: int where "kindRecursionWitness = 4"
definition kindAggregationWitness :: int where "kindAggregationWitness = 5"
definition kindChallenge :: int where "kindChallenge = 6"
definition kindCommit :: int where "kindCommit = 7"
definition kindBasic :: int where "kindBasic = 8"
definition kindCompressor :: int where "kindCompressor = 9"
definition kindRecursive1 :: int where "kindRecursive1 = 10"
definition kindRecursive2 :: int where "kindRecursive2 = 11"
definition kindVadcopFinal :: int where "kindVadcopFinal = 12"
definition kindCompressed :: int where "kindCompressed = 13"
definition kindUnmapped :: int where "kindUnmapped = -1"

lemmas zisk_kinds = kindExecute_def kindPrecalc_def kindWitness_def kindRecompute_def
  kindRecursionWitness_def kindAggregationWitness_def kindChallenge_def kindCommit_def kindBasic_def
  kindCompressor_def kindRecursive1_def kindRecursive2_def kindVadcopFinal_def kindCompressed_def
  kindUnmapped_def

definition mk_kind :: "string \<Rightarrow> string \<Rightarrow> string \<Rightarrow> string \<Rightarrow> string \<Rightarrow> task_kind" where
  "mk_kind name label legend row phase =
     \<lparr>tk_name = name, tk_label = label, tk_legend = legend, tk_row = row, tk_phase = phase\<rparr>"

definition zisk_pipelineKinds :: "task_kind list" where
  "zisk_pipelineKinds =
    [mk_kind ''execute'' ''Execute'' ''Execute'' ''Execute'' PhaseExecution,
     mk_kind ''precalc'' ''Pre Calculate Witness Generation'' ''Witness Generation''
       ''Pre Calculate Witness Generation'' PhaseWitness,
     mk_kind ''witness'' ''Witness Generation'' ''Witness Generation'' ''Contribution'' PhaseWitness,
     mk_kind ''recompute'' ''Witness Recompute'' ''Witness Generation'' ''Proof'' PhaseWitness,
     mk_kind ''recursionwitness'' ''Recursion Witness Generation'' ''Witness Generation'' ''Proof'' PhaseWitness,
     mk_kind ''aggregationwitness'' ''Aggregation Witness Generation'' ''Witness Generation'' ''Fold'' PhaseWitness,
     mk_kind ''challenge'' ''Calculate Internal Contributions'' ''Contribution''
       ''Calculate Internal Contributions'' PhaseBase,
     mk_kind ''commit'' ''Contribution'' ''Contribution'' ''Contribution'' PhaseBase,
     mk_kind ''basic'' ''Basic Proof'' ''Basic Proof'' ''Proof'' PhaseBase,
     mk_kind ''compressor'' ''Compressor Proof'' ''Compressor Proof'' ''Proof'' PhaseRecursion,
     mk_kind ''recursive1'' ''Recursive1 Proof'' ''Recursive1 Proof'' ''Proof'' PhaseRecursion,
     mk_kind ''recursive2'' ''Recursive2 Proof'' ''Recursive2 Proof'' ''Fold'' PhaseRecursion,
     mk_kind ''vadcopfinal'' ''Vadcop Final Proof'' ''Wrap'' ''Vadcop Final Proof'' PhaseWrap,
     mk_kind ''compressed'' ''Vadcop Final Compressed Proof'' ''Wrap'' ''Vadcop Final Compressed Proof'' PhaseWrap]"

definition proofTypeKinds :: "int list" where
  "proofTypeKinds =
    [kindBasic, kindCompressor, kindRecursive1, kindRecursive2, kindVadcopFinal, kindCompressed,
     kindUnmapped, kindUnmapped,
     kindWitness, kindCommit, kindExecute, kindPrecalc, kindChallenge, kindRecompute,
     kindRecursionWitness, kindAggregationWitness]"

definition zisk_pipelineBreakdown :: "(string \<times> (executor_time \<Rightarrow> stamp)) list" where
  "zisk_pipelineBreakdown =
    [(''Compute Minimal Trace'', execution_duration), (''Plan Secondary'', count_and_plan),
     (''Wait Plan Mem Cpp'', count_and_plan_mo)]"

definition proofBreakdownLabels :: "string list" where
  "proofBreakdownLabels =
    [''Prepare Trace'', ''Commit Stage 1'', ''Calculate Accumulation Polynomials'',
     ''Calculate Intermediate Polynomials'', ''Commit Stage 2'', ''Quotient'', ''Evaluations'', ''FRI'',
     ''Load Custom Commits'', ''Trace Upload'', ''Load Const Tree'', ''Proof Readback'', ''Trace Unpack'',
     ''Compute LDE and Merkle'', ''Proof Write'', ''Witness Expansion'', ''Stream Wait'', ''Root Readback'',
     ''Circom Witness'', ''Prepare Witness Generation'', ''Witness Generation'', ''Reload Fixed Pols'',
     ''Harvest Wait'', ''Launch Prologue'', ''FFI Prologue'', ''Publics Staging'', ''GPU Enqueue Gap'']"

definition zisk_breakdownLabels :: "string list" where
  "zisk_breakdownLabels =
     map fst zisk_pipelineBreakdown @ proofBreakdownLabels @ [NetworkTransportLabel]"

definition proofKind :: "u32 \<Rightarrow> zisk_pipeline_error + int" where
  "proofKind ty =
     (if length proofTypeKinds \<le> unat ty then Inl (Proof_type_unmapped ty)
      else if proofTypeKinds ! unat ty = kindUnmapped then Inl (Proof_type_unmapped ty)
      else Inr (proofTypeKinds ! unat ty))"

definition proofID :: "int \<Rightarrow> proof_timing \<Rightarrow> bool \<Rightarrow> string" where
  "proofID kind p withAirgroup =
     (if kind \<in> {kindWitness, kindCommit, kindRecompute, kindRecursionWitness, kindBasic,
                 kindCompressor, kindRecursive1}
      then pt_air_name p @ '' #'' @ itoa (uint (pt_id p))
      else if kind \<in> {kindAggregationWitness, kindRecursive2}
      then (if withAirgroup
            then ''airgroup '' @ itoa (uint (pt_airgroup p)) @ '' #'' @ itoa (uint (pt_id p))
            else ''#'' @ itoa (uint (pt_id p)))
      else [])"

text \<open>\<open>slices.Index\<close>, -1 where the element is missing.\<close>

fun slices_index :: "'a list \<Rightarrow> 'a \<Rightarrow> int" where
  "slices_index [] x = -1"
| "slices_index (y # ys) x = (if y = x then 0 else let i = slices_index ys x in if i < 0 then i else i + 1)"

definition foldsManyAirgroups :: "task_timing list \<Rightarrow> bool" where
  "foldsManyAirgroups ts =
     (let recursive2Type = (word_of_int (slices_index proofTypeKinds kindRecursive2) :: u32);
          airgroups = concat (map (\<lambda>t. map pt_airgroup
            (filter (\<lambda>p. pt_type p = recursive2Type) (tt_proofs t))) ts)
      in 1 < length (remdups airgroups))"

section \<open>Breakdowns\<close>

definition zisk_mapBreakdown :: "executor_time \<Rightarrow> (int \<times> int) list" where
  "zisk_mapBreakdown ex =
     List.map_filter (\<lambda>(index, entry).
       if 0 < snd entry ex then Some (int index, sint (snd entry ex)) else None)
       (indexed zisk_pipelineBreakdown)"

definition mapProofBreakdown :: "(string \<rightharpoonup> u32) \<Rightarrow> (int \<times> int) list" where
  "mapProofBreakdown sections =
     List.map_filter (\<lambda>(index, label).
       let duration = (case sections label of Some d \<Rightarrow> d | None \<Rightarrow> 0) in
       if 0 < duration then Some (int (length zisk_pipelineBreakdown + index), uint duration) else None)
       (indexed proofBreakdownLabels)"

section \<open>Ranking the workers\<close>

text \<open>\<open>fmt.Sscanf\<close> under \<open>worker_%d-gpu_%s\<close>: a verb skips spaces first and fails on a
  newline, \<open>%d\<close> takes an optional sign and at least one digit within an \<open>int64\<close>, and
  \<open>%s\<close> needs one character that is no space. What follows is not read.\<close>

fun skip_space :: "string \<Rightarrow> string option" where
  "skip_space [] = Some []"
| "skip_space (c # s) =
     (if c = CHR 0x0A then None else if is_space c then skip_space s else Some (c # s))"

definition scan_int :: "string \<Rightarrow> (int \<times> string) option" where
  "scan_int s =
     (case skip_space s of None \<Rightarrow> None
      | Some s1 \<Rightarrow>
          let neg = (has_prefix ''-'' s1);
              s2 = (if has_prefix ''-'' s1 \<or> has_prefix ''+'' s1 then tl s1 else s1);
              ds = takeWhile is_digit s2;
              value = (if neg then - int (digits_val ds) else int (digits_val ds))
          in if ds = [] \<or> \<not> in_i64 value then None else Some (value, dropWhile is_digit s2))"

definition maxInt :: int where "maxInt = 2 ^ 63 - 1"

definition workerRank :: "string \<Rightarrow> int" where
  "workerRank s =
     (case cut_prefix ''worker_'' s of None \<Rightarrow> maxInt
      | Some s1 \<Rightarrow> (case scan_int s1 of None \<Rightarrow> maxInt
        | Some (rank, s2) \<Rightarrow> (case cut_prefix ''-gpu_'' s2 of None \<Rightarrow> maxInt
          | Some s3 \<Rightarrow> (case skip_space s3 of None \<Rightarrow> maxInt
            | Some label \<Rightarrow> if label = [] then maxInt else rank))))"

definition rank_cmp :: "string \<Rightarrow> string \<Rightarrow> int" where
  "rank_cmp a b = cmp_or (cmp_compare (workerRank a) (workerRank b)) (cmp_compare a b)"

definition zisk_mapRegistrations ::
  "(string list \<Rightarrow> string list) \<Rightarrow> task_timing list \<Rightarrow> string registration list" where
  "zisk_mapRegistrations ord ts =
     map (\<lambda>w. \<lparr>r_key = w, r_name = w, r_host = w\<rparr>)
       (sort_stable rank_cmp (ord (remdups (map tt_worker ts))))"

section \<open>Placing the records\<close>

text \<open>The arguments of one call of \<open>Place\<close>.\<close>

definition zisk_placement ::
  "task_timing \<Rightarrow> int \<Rightarrow> bool \<Rightarrow> int \<Rightarrow> proof_timing \<Rightarrow> string placement" where
  "zisk_placement t proofStartMs withAirgroup kind p =
     (let roundTrip = length (tt_proofs t) = 1 \<and> tt_coordinator_start t \<noteq> 0;
          bd = mapProofBreakdown (pt_breakdown p);
          bd1 = (if kind = kindExecute then zisk_mapBreakdown (tt_executor t) @ bd else bd);
          startMs = (if roundTrip then sint (tt_coordinator_start t) else sint (pt_start p));
          endMs = (if roundTrip then sint (tt_coordinator_end t) else sint (pt_end p));
          transportMs = cluster_networkTransportMs startMs (sint (tt_worker_start t))
            (sint (tt_worker_end t)) endMs;
          bd2 = (if roundTrip \<and> 0 < transportMs
                 then bd1 @ [(int (length zisk_breakdownLabels) - 1, transportMs)] else bd1)
      in \<lparr>p_kind = kind, p_worker = tt_worker t, p_id = proofID kind p withAirgroup,
          p_end = i64 (endMs - proofStartMs), p_duration = i64 (endMs - startMs), p_breakdown = bd2\<rparr>)"

fun placeProofs ::
  "task_timing \<Rightarrow> int \<Rightarrow> bool \<Rightarrow> proof_timing list \<Rightarrow> string builder
     \<Rightarrow> zisk_pipeline_error + string builder" where
  "placeProofs t proofStartMs withAirgroup [] b = Inr b"
| "placeProofs t proofStartMs withAirgroup (p # ps) b =
     rbind (proofKind (pt_type p)) (\<lambda>kind.
       placeProofs t proofStartMs withAirgroup ps
         (place1 (zisk_placement t proofStartMs withAirgroup kind p) b))"

fun place_tasks ::
  "int \<Rightarrow> bool \<Rightarrow> task_timing list \<Rightarrow> string builder \<Rightarrow> zisk_pipeline_error + string builder" where
  "place_tasks proofStartMs withAirgroup [] b = Inr b"
| "place_tasks proofStartMs withAirgroup (t # ts) b =
     (case tt_phase t of
        Phase_other n \<Rightarrow> Inl (Phase_unmapped (Phase_other n))
      | _ \<Rightarrow> rbind (placeProofs t proofStartMs withAirgroup (tt_proofs t) b)
               (place_tasks proofStartMs withAirgroup ts))"

definition zisk_mapPipeline ::
  "(string list \<Rightarrow> string list) \<Rightarrow> execution_stats \<Rightarrow> zisk_pipeline_error + pipeline option" where
  "zisk_mapPipeline ord stats =
     (case proof_start stats of None \<Rightarrow> Inr None
      | Some proofStartMs \<Rightarrow>
          if stat_tasks stats = [] then Inr None
          else rbind (place_tasks proofStartMs (foldsManyAirgroups (stat_tasks stats)) (stat_tasks stats)
                 (newPipelineBuilder (zisk_mapRegistrations ord (stat_tasks stats)))) (\<lambda>b.
               rbind (rmap_err Worker_unlisted
                 (finish_pipeline zisk_pipelineKinds zisk_breakdownLabels b)) (\<lambda>p.
               if tasks p = [] then Inr None else Inr (Some p))))"

section \<open>The ranks\<close>

lemma skip_space_id: "s \<noteq> [] \<Longrightarrow> \<not> is_space (hd s) \<Longrightarrow> hd s \<noteq> CHR 0x0A \<Longrightarrow> skip_space s = Some s"
  by (cases s) auto

lemma scan_int_nat:
  assumes "int n < 2 ^ 63" "rest = [] \<or> \<not> is_digit (hd rest)"
  shows "scan_int (nat_str n @ rest) = Some (int n, rest)"
proof -
  let ?s = "nat_str n @ rest"
  have hd: "hd ?s = hd (nat_str n)" by simp
  have dig: "is_digit (hd ?s)" unfolding hd by simp
  then have "hd ?s \<noteq> CHR 0x0A" "hd ?s \<noteq> CHR ''-''" "hd ?s \<noteq> CHR ''+''" by (auto simp: is_digit_def)
  then have skip: "skip_space ?s = Some ?s"
    using is_digit_not_space [OF dig] by (intro skip_space_id) auto
  have pre: "\<not> has_prefix ''-'' ?s" "\<not> has_prefix ''+'' ?s"
    using \<open>hd ?s \<noteq> CHR ''-''\<close> \<open>hd ?s \<noteq> CHR ''+''\<close> unfolding has_prefix_iff by (metis append_Cons list.sel(1))+
  have "takeWhile is_digit ?s = nat_str n"
    using nat_str_digits [of n] assms(2)
    by (cases rest) (auto simp: takeWhile_append takeWhile_eq_all_conv)
  moreover have "dropWhile is_digit ?s = rest"
    using nat_str_digits [of n] assms(2) by (cases rest) (auto simp: dropWhile_append)
  moreover have "in_i64 (int n)" using assms(1) by (simp add: in_i64_def)
  ultimately show ?thesis by (simp add: scan_int_def skip pre)
qed

lemma workerRank_workerName:
  assumes "device_ids g \<noteq> []" "int i < 2 ^ 63"
  shows "workerRank (workerName i g) = int i"
proof -
  have name: "workerName i g = ''worker_'' @ (nat_str i @ ''-gpu_'' @ gpu_label g)"
    by (simp add: workerName_def)
  obtain d ds where ids: "device_ids g = d # ds" using assms(1) by (cases "device_ids g") auto
  then obtain s where label: "gpu_label g = itoa d @ s"
    by (cases ds) (auto simp: gpu_label_def)
  have hd: "hd (gpu_label g) = hd (itoa d)" by (simp add: label)
  have "hd (itoa d) \<in> set (itoa d)" by simp
  from itoa_chars [OF this] have "\<not> is_space (hd (gpu_label g))" "hd (gpu_label g) \<noteq> CHR 0x0A"
    unfolding hd by (auto dest: is_digit_not_space simp: is_digit_def is_space_def)
  then have "skip_space (gpu_label g) = Some (gpu_label g)" "gpu_label g \<noteq> []"
    by (auto intro: skip_space_id simp: label)
  moreover have "scan_int (nat_str i @ ''-gpu_'' @ gpu_label g) = Some (int i, ''-gpu_'' @ gpu_label g)"
    using assms(2) by (intro scan_int_nat) (auto simp: is_digit_def)
  ultimately show ?thesis
    by (simp only: workerRank_def name cut_prefix_append option.case prod.case if_False)
qed

interpretation rank_order: key_comparator rank_cmp "\<lambda>s. (workerRank s, s)"
  by unfold_locales (simp add: rank_cmp_def cmp_or_le_0)

text \<open>The order in which Go ranges over the map of workers does not show.\<close>

lemma rank_sort_order:
  assumes "mset ys = mset xs"
  shows "sort_stable rank_cmp ys = sort_stable rank_cmp xs"
proof (rule rank_order.unique)
  show "mset (sort_stable rank_cmp ys) = mset xs" using assms by simp
  show "sorted (map (\<lambda>s. (workerRank s, s)) (sort_stable rank_cmp ys))" by (rule rank_order.sorted_keys)
  fix k
  have one: "filter (\<lambda>y. (workerRank y, y) = k) zs
      = replicate (count (mset zs) (snd k)) (snd k)" if "fst k = workerRank (snd k)" for zs
    using that by (induction zs) (auto simp: prod_eq_iff)
  have none: "filter (\<lambda>y. (workerRank y, y) = k) zs = []" if "fst k \<noteq> workerRank (snd k)" for zs
    using that by (auto simp: filter_empty_conv)
  show "filter (\<lambda>y. (workerRank y, y) = k) (sort_stable rank_cmp ys)
      = filter (\<lambda>y. (workerRank y, y) = k) xs"
    using one none assms by (cases "fst k = workerRank (snd k)") auto
qed

section \<open>The errors\<close>

definition task_mapped :: "task_timing \<Rightarrow> bool" where
  "task_mapped t \<longleftrightarrow> tt_phase t \<in> {Phase_contributions, Phase_prove, Phase_recurse}
     \<and> (\<forall>p \<in> set (tt_proofs t). \<not> isl (proofKind (pt_type p)))"

definition kind_of :: "proof_timing \<Rightarrow> int" where
  "kind_of p = projr (proofKind (pt_type p))"

definition zisk_placements :: "int \<Rightarrow> bool \<Rightarrow> task_timing list \<Rightarrow> string placement list" where
  "zisk_placements s w ts =
     concat (map (\<lambda>t. map (\<lambda>p. zisk_placement t s w (kind_of p) p) (tt_proofs t)) ts)"

lemma proofKind_Inl: "proofKind ty = Inl e \<Longrightarrow> e = Proof_type_unmapped ty"
  by (auto simp: proofKind_def split: if_splits)

lemma placeProofs_mapped:
  "\<forall>p \<in> set ps. \<not> isl (proofKind (pt_type p)) \<Longrightarrow>
    placeProofs t s w ps b = Inr (place_all (map (\<lambda>p. zisk_placement t s w (kind_of p) p) ps) b)"
proof (induction ps arbitrary: b)
  case (Cons p ps)
  then obtain k where "proofKind (pt_type p) = Inr k" by (auto simp: isl_def split: sum.splits) (metis sum.exhaust)
  with Cons show ?case by (simp add: kind_of_def)
qed simp

lemma placeProofs_unmapped:
  "\<exists>p \<in> set ps. isl (proofKind (pt_type p)) \<Longrightarrow> \<exists>ty. placeProofs t s w ps b = Inl (Proof_type_unmapped ty)"
proof (induction ps arbitrary: b)
  case (Cons p ps)
  show ?case
  proof (cases "proofKind (pt_type p)")
    case (Inl e)
    with proofKind_Inl [OF this] show ?thesis by simp
  next
    case (Inr k)
    with Cons show ?thesis by simp
  qed
qed simp

lemma place_tasks_mapped:
  "\<forall>t \<in> set ts. task_mapped t \<Longrightarrow> place_tasks s w ts b = Inr (place_all (zisk_placements s w ts) b)"
proof (induction ts arbitrary: b)
  case (Cons t ts)
  then have "\<forall>p \<in> set (tt_proofs t). \<not> isl (proofKind (pt_type p))" by (simp add: task_mapped_def)
  from placeProofs_mapped [OF this] Cons show ?case
    by (cases "tt_phase t") (simp_all add: zisk_placements_def place_all_append task_mapped_def)
qed (simp add: zisk_placements_def)

lemma place_tasks_unmapped:
  "\<exists>t \<in> set ts. \<not> task_mapped t \<Longrightarrow>
    \<exists>e. place_tasks s w ts b = Inl e \<and> (\<forall>k. e \<noteq> Worker_unlisted k)"
proof (induction ts arbitrary: b)
  case (Cons t ts)
  show ?case
  proof (cases "task_mapped t")
    case True
    then have "\<forall>p \<in> set (tt_proofs t). \<not> isl (proofKind (pt_type p))" by (simp add: task_mapped_def)
    from placeProofs_mapped [OF this] True Cons show ?thesis
      by (cases "tt_phase t") (auto simp: task_mapped_def)
  next
    case False
    show ?thesis
    proof (cases "\<exists>p \<in> set (tt_proofs t). isl (proofKind (pt_type p))")
      case True
      from placeProofs_unmapped [OF this, of t s w b] show ?thesis by (cases "tt_phase t") auto
    next
      case no: False
      with False have "\<exists>n. tt_phase t = Phase_other n" by (cases "tt_phase t") (auto simp: task_mapped_def)
      then show ?thesis by auto
    qed
  qed
qed simp

section \<open>The timeline\<close>

definition worker_ids :: "task_timing list \<Rightarrow> string list" where
  "worker_ids ts = sort_key (\<lambda>s. (workerRank s, s)) (remdups (map tt_worker ts))"

lemma set_worker_ids [simp]: "set (worker_ids ts) = set (map tt_worker ts)"
  by (simp add: worker_ids_def)

lemma distinct_worker_ids [simp]: "distinct (worker_ids ts)"
  by (simp add: worker_ids_def)

lemma mapRegistrations_eq:
  assumes "\<And>xs. mset (ord xs) = mset xs"
  shows "zisk_mapRegistrations ord ts = map (\<lambda>w. \<lparr>r_key = w, r_name = w, r_host = w\<rparr>) (worker_ids ts)"
  using rank_sort_order [OF assms, of "remdups (map tt_worker ts)"]
  by (simp only: zisk_mapRegistrations_def worker_ids_def rank_order.sort_stable_key)

lemma first_seen_distinct: "distinct (acc @ xs) \<Longrightarrow> first_seen acc xs = acc @ xs"
  by (induction xs arbitrary: acc) auto

lemma position_nth: "distinct xs \<Longrightarrow> i < length xs \<Longrightarrow> position (xs ! i) xs = i"
  using nth_position [of "xs ! i" xs] position_less [of "xs ! i" xs] by (simp add: nth_eq_iff_index_eq)

lemma registered_at:
  assumes "distinct ids" "w \<in> set ids"
  shows "b_index (newPipelineBuilder (map (\<lambda>w. \<lparr>r_key = w, r_name = w, r_host = w\<rparr>) ids)) w
    = Some (position w ids)"
proof -
  let ?rs = "map (\<lambda>w. \<lparr>r_key = w, r_name = w, r_host = w\<rparr>) ids"
  have "distinct (map r_key ?rs)" using assms(1) by (simp add: comp_def)
  moreover have "position w ids < length ?rs" using assms(2) by (simp add: position_less)
  ultimately have "b_index (newPipelineBuilder ?rs) (r_key (?rs ! position w ids)) = Some (position w ids)"
    unfolding newPipelineBuilder_def by (subst register_index) auto
  moreover have "r_key (?rs ! position w ids) = w"
    using assms(2) by (simp add: position_less nth_position)
  ultimately show ?thesis by simp
qed

lemma zisk_placements_in_i64: "p \<in> set (zisk_placements s w ts) \<Longrightarrow> in_i64 (p_end p)"
  by (auto simp: zisk_placements_def zisk_placement_def Let_def)

lemma zisk_placements_worker:
  "p \<in> set (zisk_placements s w ts) \<Longrightarrow> p_worker p \<in> set (map tt_worker ts)"
  by (auto simp: zisk_placements_def zisk_placement_def Let_def)

definition zisk_timeline :: "int \<Rightarrow> task_timing list \<Rightarrow> pipeline" where
  "zisk_timeline s ts =
     \<lparr>schema_version = 2, kinds = zisk_pipelineKinds, breakdown = zisk_breakdownLabels,
      workers = map (\<lambda>(i, w). \<lparr>tw_name = w, tw_node = ''node'' @ itoa (int (i + 1))\<rparr>) (indexed (worker_ids ts)),
      tasks = sort_key (\<lambda>t. (t_start t, t_kind t))
        (List.map_filter (bar (\<lambda>w. Some (position w (worker_ids ts))))
          (zisk_placements s (foldsManyAirgroups ts) ts))\<rparr>"

lemma zisk_workers_eq:
  "distinct ids \<Longrightarrow>
    map (\<lambda>w. \<lparr>tw_name = w, tw_node = ''node'' @ itoa (int (position w ids + 1))\<rparr>) ids
    = map (\<lambda>(i, w). \<lparr>tw_name = w, tw_node = ''node'' @ itoa (int (i + 1))\<rparr>) (indexed ids)"
  by (rule nth_equalityI) (auto simp: position_nth)

lemma zisk_finish:
  assumes "\<And>xs. mset (ord xs) = mset xs"
  shows "finish_pipeline zisk_pipelineKinds zisk_breakdownLabels
      (place_all (zisk_placements s (foldsManyAirgroups ts) ts) (newPipelineBuilder (zisk_mapRegistrations ord ts)))
    = Inr (zisk_timeline s ts)"
proof -
  let ?ids = "worker_ids ts" and ?ps = "zisk_placements s (foldsManyAirgroups ts) ts"
  let ?b = "newPipelineBuilder (zisk_mapRegistrations ord ts)"
  have keys: "set (map r_key (zisk_mapRegistrations ord ts)) = set (map tt_worker ts)"
    by (simp add: mapRegistrations_eq [OF assms] image_comp comp_def)
  have listed: "b_index ?b k = None \<longleftrightarrow> k \<notin> set (map tt_worker ts)" for k
    by (metis domIff keys new_builder_rest(3))
  have "find (\<lambda>k. k \<notin> set (map tt_worker ts)) (map p_worker ?ps) = None"
    unfolding find_None_iff using zisk_placements_worker by fastforce
  then have un: "b_unlisted (place_all ?ps ?b) = None"
    by (simp only: place_all_unlisted new_builder_rest option.case listed)
  have ix: "b_index ?b w = Some (position w ?ids)" if "w \<in> set (map tt_worker ts)" for w
    unfolding mapRegistrations_eq [OF assms] using that by (intro registered_at) auto
  have bars: "List.map_filter (bar (b_index ?b)) ?ps
      = List.map_filter (bar (\<lambda>w. Some (position w ?ids))) ?ps"
  proof (rule map_filter_cong)
    fix p assume "p \<in> set ?ps"
    then have "b_index ?b (p_worker p) = Some (position (p_worker p) ?ids)"
      by (intro ix zisk_placements_worker)
    then show "bar (b_index ?b) p = bar (\<lambda>w. Some (position w ?ids)) p"
      by (auto simp: bar_def Let_def)
  qed
  have "\<forall>p \<in> set ?ps. in_i64 (p_end p) \<and> b_index ?b (p_worker p) \<noteq> None"
  proof
    fix p assume "p \<in> set ?ps"
    then show "in_i64 (p_end p) \<and> b_index ?b (p_worker p) \<noteq> None"
      using zisk_placements_in_i64 ix [OF zisk_placements_worker] by simp
  qed
  then have tasks: "b_tasks (place_all ?ps ?b) = List.map_filter (bar (b_index ?b)) ?ps"
    by (simp add: place_all_tasks)
  have "first_seen [] ?ids = ?ids" by (subst first_seen_distinct) auto
  then have "b_workers (place_all ?ps ?b)
      = map (\<lambda>w. \<lparr>tw_name = w, tw_node = ''node'' @ itoa (int (position w ?ids + 1))\<rparr>) ?ids"
    by (simp add: new_builder_workers mapRegistrations_eq [OF assms] comp_def host_node_def node_name_def)
  also have "\<dots> = map (\<lambda>(i, w). \<lparr>tw_name = w, tw_node = ''node'' @ itoa (int (i + 1))\<rparr>) (indexed ?ids)"
    by (rule zisk_workers_eq) simp
  finally show ?thesis
    unfolding finish_pipeline_def un tasks bars zisk_timeline_def
    by (simp only: option.case PipelineSchemaVersion_def task_order.sort_stable_key)
qed

lemma zisk_mapPipeline_mapped:
  assumes "\<And>xs. mset (ord xs) = mset xs" "proof_start stats = Some s"
    and "\<forall>t \<in> set (stat_tasks stats). task_mapped t"
  shows "zisk_mapPipeline ord stats =
    Inr (if stat_tasks stats = [] \<or> tasks (zisk_timeline s (stat_tasks stats)) = [] then None
         else Some (zisk_timeline s (stat_tasks stats)))"
  using assms(2,3) by (simp add: zisk_mapPipeline_def place_tasks_mapped zisk_finish [OF assms(1)])

text \<open>The ZisK timeline fails exactly on a job that carries a start and a task of a phase or a
  record of a type the timeline does not map, and never for a worker the job does not list.\<close>

theorem zisk_pipeline_errors:
  assumes "\<And>xs. mset (ord xs) = mset xs"
  shows "isl (zisk_mapPipeline ord stats) =
      (proof_start stats \<noteq> None \<and> (\<exists>t \<in> set (stat_tasks stats). \<not> task_mapped t))
    \<and> zisk_mapPipeline ord stats \<noteq> Inl (Worker_unlisted k)"
proof (cases "proof_start stats")
  case None
  then show ?thesis by (simp add: zisk_mapPipeline_def)
next
  case (Some s)
  show ?thesis
  proof (cases "\<forall>t \<in> set (stat_tasks stats). task_mapped t")
    case True
    with zisk_mapPipeline_mapped [OF assms Some True] show ?thesis by auto
  next
    case False
    from place_tasks_unmapped [of "stat_tasks stats"] False obtain e where
      "place_tasks s (foldsManyAirgroups (stat_tasks stats)) (stat_tasks stats)
        (newPipelineBuilder (zisk_mapRegistrations ord (stat_tasks stats))) = Inl e"
      "\<forall>k. e \<noteq> Worker_unlisted k" by blast
    with Some False show ?thesis by (auto simp: zisk_mapPipeline_def)
  qed
qed

definition sample_proof :: proof_timing where
  "sample_proof = \<lparr>pt_id = 0, pt_type = 10, pt_airgroup = 0, pt_air_name = [], pt_start = 65, pt_end = 1866,
     pt_breakdown = Map.empty\<rparr>"

definition sample_task :: "string \<Rightarrow> task_timing" where
  "sample_task w = \<lparr>tt_worker = w, tt_phase = Phase_contributions, tt_coordinator_start = 50,
     tt_worker_start = 60, tt_worker_end = 1870, tt_coordinator_end = 1884,
     tt_executor = \<lparr>execution_duration = 1421, count_and_plan = 214, count_and_plan_mo = 0\<rparr>,
     tt_proofs = [sample_proof]\<rparr>"

definition sample_stats :: "job_phase \<Rightarrow> execution_stats" where
  "sample_stats ph = \<lparr>proof_start = Some 0,
     stat_tasks = [sample_task ''worker_1-gpu_0'', (sample_task ''worker_0-gpu_0'')\<lparr>tt_phase := ph\<rparr>],
     duration_nanos = 7\<rparr>"

theorem zisk_pipeline_errors_witness: "isl (zisk_mapPipeline rev (sample_stats (Phase_other 0)))"
  using zisk_pipeline_errors [of rev "sample_stats (Phase_other 0)" undefined]
  by (simp add: sample_stats_def task_mapped_def)



lemma sample_ids:
  "worker_ids [sample_task ''worker_1-gpu_0'', sample_task ''worker_0-gpu_0''] = [''worker_0-gpu_0'', ''worker_1-gpu_0'']"
proof -
  have n: "''worker_0-gpu_0'' = workerName 0 \<lparr>device_ids = [0]\<rparr>" "''worker_1-gpu_0'' = workerName 1 \<lparr>device_ids = [0]\<rparr>"
    by code_simp+
  have "workerRank ''worker_0-gpu_0'' = 0" "workerRank ''worker_1-gpu_0'' = 1"
    unfolding n by (simp_all add: workerRank_workerName)
  then show ?thesis by (simp add: worker_ids_def sample_task_def)
qed


section \<open>The sections of a bar\<close>

lemma zisk_mapBreakdown_keys:
  "sorted_wrt (<) (map fst (zisk_mapBreakdown ex))"
  "k \<in> set (map fst (zisk_mapBreakdown ex)) \<Longrightarrow> 0 \<le> k \<and> k < 3"
proof -
  let ?h = "\<lambda>(index, entry). if 0 < snd entry ex then Some (int index, sint (snd entry ex)) else None"
  have h: "\<forall>i x k v. ?h (i, x) = Some (k, v) \<longrightarrow> k = int (0 + i)" by auto
  from map_filter_indexed_keys [OF h, of zisk_pipelineBreakdown]
  show "sorted_wrt (<) (map fst (zisk_mapBreakdown ex))"
    "k \<in> set (map fst (zisk_mapBreakdown ex)) \<Longrightarrow> 0 \<le> k \<and> k < 3"
    unfolding zisk_mapBreakdown_def by (auto simp: zisk_pipelineBreakdown_def)
qed

lemma mapProofBreakdown_keys:
  "sorted_wrt (<) (map fst (mapProofBreakdown m))"
  "k \<in> set (map fst (mapProofBreakdown m)) \<Longrightarrow> 3 \<le> k \<and> k < 30"
proof -
  let ?h = "\<lambda>(index, label). let duration = (case m label of Some d \<Rightarrow> d | None \<Rightarrow> 0) in
       if 0 < duration then Some (int (length zisk_pipelineBreakdown + index), uint duration) else None"
  have h: "\<forall>i x k v. ?h (i, x) = Some (k, v) \<longrightarrow> k = int (3 + i)"
    by (auto simp: Let_def zisk_pipelineBreakdown_def)
  have "length proofBreakdownLabels = 27" by (simp add: proofBreakdownLabels_def)
  with map_filter_indexed_keys [OF h, of proofBreakdownLabels]
  show "sorted_wrt (<) (map fst (mapProofBreakdown m))"
    "k \<in> set (map fst (mapProofBreakdown m)) \<Longrightarrow> 3 \<le> k \<and> k < 30"
    unfolding mapProofBreakdown_def by auto
qed

lemma length_breakdownLabels: "length zisk_breakdownLabels = 31"
  by (simp add: zisk_breakdownLabels_def zisk_pipelineBreakdown_def proofBreakdownLabels_def)

lemma proofKind_range: "proofKind ty = Inr k \<Longrightarrow> 0 \<le> k \<and> k < 14"
proof -
  assume k: "proofKind ty = Inr k"
  have "\<forall>x \<in> set proofTypeKinds. x = -1 \<or> (0 \<le> x \<and> x < 14)"
    by (simp add: proofTypeKinds_def zisk_kinds)
  with k nth_mem [of "unat ty" proofTypeKinds] show ?thesis
    by (auto simp: proofKind_def kindUnmapped_def split: if_splits)
qed

text \<open>A bar of a drawn record has a kind of the timeline, and its sections index the timeline's
  labels in label order: the executor durations on an Execute bar only, then the sections of the
  record, then the network transport, which is positive and only on a round trip.\<close>

lemma zisk_bar_sections:
  assumes "proofKind (pt_type p) = Inr kind"
  shows "0 \<le> kind \<and> kind < int (length zisk_pipelineKinds)
    \<and> sorted_wrt (<) (map fst (p_breakdown (zisk_placement t s w kind p)))
    \<and> (\<forall>(i, ms) \<in> set (p_breakdown (zisk_placement t s w kind p)).
         0 \<le> i \<and> i < int (length zisk_breakdownLabels)
         \<and> (i < 3 \<longrightarrow> kind = kindExecute)
         \<and> (i = 30 \<longrightarrow> length (tt_proofs t) = 1 \<and> tt_coordinator_start t \<noteq> 0 \<and> 0 < ms))"
proof -
  note e = zisk_mapBreakdown_keys [where ex = "tt_executor t"] and m = mapProofBreakdown_keys [where m = "pt_breakdown p"]
  have kinds: "length zisk_pipelineKinds = 14" by (simp add: zisk_pipelineKinds_def)
  let ?bd = "(if kind = kindExecute then zisk_mapBreakdown (tt_executor t) else []) @ mapProofBreakdown (pt_breakdown p)"
  let ?T = "cluster_networkTransportMs (sint (tt_coordinator_start t)) (sint (tt_worker_start t))
    (sint (tt_worker_end t)) (sint (tt_coordinator_end t))"
  let ?trip = "length (tt_proofs t) = 1 \<and> tt_coordinator_start t \<noteq> 0 \<and> 0 < ?T"
  define tail where "tail = (if ?trip then [(30 :: int, ?T)] else [])"
  have bd: "p_breakdown (zisk_placement t s w kind p) = ?bd @ tail"
    by (simp add: zisk_placement_def Let_def length_breakdownLabels tail_def)
  have tail: "tail = [] \<or> (\<exists>ms > 0. tail = [(30, ms)] \<and> length (tt_proofs t) = 1 \<and> tt_coordinator_start t \<noteq> 0)"
    by (simp add: tail_def)
  have sorted_bd: "sorted_wrt (<) (map fst ?bd)"
    using e m by (fastforce simp: sorted_wrt_append)
  have bd_range: "0 \<le> i \<and> i < 30 \<and> (i < 3 \<longrightarrow> kind = kindExecute)" if "i \<in> set (map fst ?bd)" for i
  proof -
    from that have "(kind = kindExecute \<and> i \<in> set (map fst (zisk_mapBreakdown (tt_executor t))))
        \<or> i \<in> set (map fst (mapProofBreakdown (pt_breakdown p)))"
      unfolding map_append set_append by (cases "kind = kindExecute") simp_all
    then show ?thesis using e(2) m(2) by fastforce
  qed
  have srt: "sorted_wrt (<) (map fst (?bd @ tail))"
  proof (cases "tail = []")
    case True
    with sorted_bd show ?thesis by simp
  next
    case False
    with tail obtain ms where "map fst tail = [30]" by auto
    moreover have "\<forall>i \<in> set (map fst ?bd). i < 30" using bd_range by blast
    ultimately show ?thesis using sorted_bd unfolding map_append sorted_wrt_append by simp
  qed
  have each: "0 \<le> i \<and> i < 31 \<and> (i < 3 \<longrightarrow> kind = kindExecute)
      \<and> (i = 30 \<longrightarrow> length (tt_proofs t) = 1 \<and> tt_coordinator_start t \<noteq> 0 \<and> 0 < ms)"
    if "(i, ms) \<in> set (?bd @ tail)" for i ms
  proof (cases "(i, ms) \<in> set ?bd")
    case True
    then have "i \<in> set (map fst ?bd)" by (metis fst_conv image_eqI list.set_map)
    from bd_range [OF this] show ?thesis by auto
  next
    case False
    with that have "(i, ms) \<in> set tail" by auto
    with tail show ?thesis by auto
  qed
  show ?thesis
    unfolding bd kinds length_breakdownLabels
  proof (intro conjI ballI)
    show "0 \<le> kind" "kind < int 14" using proofKind_range [OF assms] by auto
    fix x
    assume "x \<in> set (?bd @ tail)"
    with each show "case x of (i, ms) \<Rightarrow> 0 \<le> i \<and> i < int 31 \<and> (i < 3 \<longrightarrow> kind = kindExecute)
        \<and> (i = 30 \<longrightarrow> length (tt_proofs t) = 1 \<and> tt_coordinator_start t \<noteq> 0 \<and> 0 < ms)"
      by (cases x) simp
  qed (rule srt)
qed

lemma zisk_bar_sections_witness:
  "sorted_wrt (<) (map fst (p_breakdown (zisk_placement (sample_task ''w'') 0 False 0 sample_proof)))"
proof -
  have "proofKind (pt_type sample_proof) = Inr 0"
    by (simp add: sample_proof_def proofKind_def proofTypeKinds_def zisk_kinds)
  from zisk_bar_sections [OF this] show ?thesis by blast
qed

end
