(* ===== verification/Zisk_Client.thy ===== *)
theory Zisk_Client
  imports Runtime Verifier Framing Wire_Text Zisk_Pipeline Zisk_Proof
begin

text \<open>
  \<open>internal/zisk/client.go\<close>: restarting the coordinator and registering a guest, the setup of a
  program, submitting a prove job, following it and verifying what it answers. The coordinator and
  its supervisor are the service \<open>srv\<close>; a reply carries the fields of every message a call may
  answer, of which the model reads those the code reads. \<open>phase_name\<close> is the generated
  \<open>String\<close> of a job phase, \<open>ord\<close> the order Go ranges over a map in, \<open>conn_ok\<close>
  whether \<open>grpc.NewClient\<close> accepts a target.
\<close>

section \<open>The API\<close>

datatype zisk_request =
    Dial_supervisor string
  | Write_supervisor string
  | Read_supervisor
  | Register_guest bytes
  | Setup_job string
  | Prove_job string bytes
  | Wait_job string nat
  | Cancel_job string

datatype grpc_code =
    Code_unavailable
  | Code_internal
  | Code_other nat

datatype grpc_error =
    Grpc_status grpc_code string
  | Not_a_status string

datatype job_failure =
    Failure_timeout job_phase
  | Failure_input string
  | Failure_execution string
  | Failure_internal string
  | Failure_cancelled

datatype job_status =
    Job_completed
  | Job_failed "job_failure option"
  | Job_cancelled
  | Job_queued
  | Job_running job_phase
  | Job_waiting_for_input

record prove_response =
  pr_proof :: "bytes option"
  pr_stats :: "execution_stats option"

datatype job_result =
    Setup_result bytes string
  | Prove_result prove_response
  | Other_result

datatype read_end =
    Line_ended
  | Stream_ended
  | Read_failed

record zisk_reply =
  zr_error :: "grpc_error option"
  zr_hash_id :: string
  zr_job_id :: string
  zr_status :: "job_status option"
  zr_result :: "job_result option"
  zr_net_error :: bool
  zr_text :: string
  zr_end :: read_end

datatype zisk_error =
    Endpoint_malformed string
  | Supervisor_unreachable string
  | Supervisor_unasked string
  | Supervisor_answered string string
  | Supervisor_broken string
  | Coordinator_undialled string
  | Zisk_binding ere_error
  | Registering grpc_error
  | Setup_not_done string
  | Coordinator_unavailable string
  | Unclassified grpc_error
  | Submitting_setup zisk_error
  | Waiting_for_job string grpc_error
  | Job_without_status string
  | Job_without_result string
  | Job_has_failed string string
  | Job_was_cancelled string
  | Not_a_setup_result string
  | Other_hash_family string
  | Other_program_vk bytes string
  | Input_over_cap nat
  | Job_submission_timed_out zisk_error
  | Job_timed_out string zisk_error
  | Not_a_prove_result string
  | No_proof_or_stats string
  | Prove_job_error string zisk_error
  | Zisk_client_closed
  | Transcoding transcode_error
  | Decoding_transcoded ere_error
  | Zisk_proof_refused ere_error
  | Zisk_verifier_failed ere_error
  | Mapping_timeline zisk_pipeline_error

record 'h zisk_client =
  hash_id :: string
  zc_verifier :: "'h verifier"
  program_vk :: bytes

type_synonym 'w zisk_machine = "(zisk_request, 'w) machine"
type_synonym 'w coordinator = "(zisk_request, zisk_reply, 'w) service"

definition maxMessageBytes :: nat where "maxMessageBytes = 128 * 2 ^ 20"
definition setupTimeout :: int where "setupTimeout = 600 * second"
definition zisk_submitRetryInterval :: int where "zisk_submitRetryInterval = 5 * second"
definition waitHoldSeconds :: nat where "waitHoldSeconds = 5"
definition restartTimeout :: int where "restartTimeout = 30 * second"
definition registerTimeout :: int where "registerTimeout = 60 * second"
definition clusterReadyBudget :: int where "clusterReadyBudget = 300 * second"
definition restartVerb :: string where "restartVerb = ''restart''"
definition coordinatorRestartPort :: int where "coordinatorRestartPort = 7002"

text \<open>\<open>errors.Is\<close> against the two sentinels looks through the wrapping of a setup's and of a
  submission's error.\<close>

fun is_setup_not_done :: "zisk_error \<Rightarrow> bool" where
  "is_setup_not_done (Setup_not_done _) = True"
| "is_setup_not_done (Submitting_setup e) = is_setup_not_done e"
| "is_setup_not_done (Job_submission_timed_out e) = is_setup_not_done e"
| "is_setup_not_done (Job_timed_out _ e) = is_setup_not_done e"
| "is_setup_not_done (Prove_job_error _ e) = is_setup_not_done e"
| "is_setup_not_done _ = False"

fun is_unavailable :: "zisk_error \<Rightarrow> bool" where
  "is_unavailable (Coordinator_unavailable _) = True"
| "is_unavailable (Submitting_setup e) = is_unavailable e"
| "is_unavailable (Job_submission_timed_out e) = is_unavailable e"
| "is_unavailable (Job_timed_out _ e) = is_unavailable e"
| "is_unavailable (Prove_job_error _ e) = is_unavailable e"
| "is_unavailable _ = False"

section \<open>Restarting the coordinator\<close>

definition restartAddress :: "string \<Rightarrow> zisk_error + string" where
  "restartAddress endpoint =
     (case split_host_port (trim_prefix ''http://'' endpoint) of
        None \<Rightarrow> Inl (Endpoint_malformed endpoint)
      | Some (host, _) \<Rightarrow> Inr (join_host_port host (itoa coordinatorRestartPort)))"

definition askRestart ::
  "'w coordinator \<Rightarrow> ctx \<Rightarrow> string \<Rightarrow> 'w zisk_machine \<Rightarrow> (zisk_error + unit) \<times> 'w zisk_machine" where
  "askRestart srv c0 address m =
     (let c = with_timeout c0 restartTimeout (clock m) in
      case call srv c (Dial_supervisor address) m of (r1, m1) \<Rightarrow>
        if zr_net_error r1 then (Inl (Supervisor_unreachable address), m1)
        else (case call srv c (Write_supervisor (restartVerb @ [CHR 0x0A])) m1 of (r2, m2) \<Rightarrow>
          if zr_net_error r2 then (Inl (Supervisor_unasked address), m2)
          else (case call srv c Read_supervisor m2 of (r3, m3) \<Rightarrow>
            let answer = trim_space (zr_text r3) in
            if answer \<noteq> [] then (Inl (Supervisor_answered address answer), m3)
            else if zr_end r3 = Read_failed then (Inl (Supervisor_broken address), m3)
            else (Inr (), m3))))"

definition restartCoordinator ::
  "'w coordinator \<Rightarrow> ctx \<Rightarrow> string \<Rightarrow> 'w zisk_machine \<Rightarrow> (zisk_error + unit) \<times> 'w zisk_machine" where
  "restartCoordinator srv c endpoint m =
     (case restartAddress endpoint of
        Inl e \<Rightarrow> (Inl e, m)
      | Inr address \<Rightarrow> askRestart srv c address m)"

section \<open>Jobs\<close>

definition classifySubmitError :: "grpc_error \<Rightarrow> zisk_error" where
  "classifySubmitError e =
     (case e of
        Not_a_status _ \<Rightarrow> Unclassified e
      | Grpc_status code message \<Rightarrow>
          if contains_str ''setup not done'' message then Setup_not_done message
          else if code = Code_unavailable \<or> code = Code_internal then Coordinator_unavailable message
          else Unclassified e)"

fun runningPhase :: "job_phase \<Rightarrow> string" where
  "runningPhase Phase_contributions = ''contributions''"
| "runningPhase Phase_prove = ''prove''"
| "runningPhase Phase_recurse = ''recurse''"
| "runningPhase (Phase_other _) = ''running''"

fun failureReason :: "(job_phase \<Rightarrow> string) \<Rightarrow> job_failure option \<Rightarrow> string" where
  "failureReason phase_name (Some (Failure_timeout p)) = ''timeout in phase '' @ phase_name p"
| "failureReason phase_name (Some (Failure_input reason)) = ''input: '' @ reason"
| "failureReason phase_name (Some (Failure_execution reason)) = ''execution: '' @ reason"
| "failureReason phase_name (Some (Failure_internal trace)) = ''internal error, trace '' @ trace"
| "failureReason phase_name (Some Failure_cancelled) = ''cancelled''"
| "failureReason phase_name None = ''unknown failure''"

text \<open>\<open>report\<close> is the caller's \<open>onPhase\<close>. A status of no variant is an error, so the loop
  goes on exactly on the three that report a phase.\<close>

fun waitJob ::
  "nat \<Rightarrow> 'w coordinator \<Rightarrow> (job_phase \<Rightarrow> string) \<Rightarrow> (string \<Rightarrow> 'w zisk_machine \<Rightarrow> 'w zisk_machine) \<Rightarrow> ctx
    \<Rightarrow> string \<Rightarrow> 'w zisk_machine \<Rightarrow> ((zisk_error + job_result) \<times> 'w zisk_machine) option" where
  "waitJob 0 srv phase_name report c job m = None"
| "waitJob (Suc fuel) srv phase_name report c job m =
     (case call srv c (Wait_job job waitHoldSeconds) m of (r, m1) \<Rightarrow>
        case zr_error r of
          Some e \<Rightarrow> Some (Inl (Waiting_for_job job e), m1)
        | None \<Rightarrow>
            (case zr_status r of
               None \<Rightarrow> Some (Inl (Job_without_status job), m1)
             | Some Job_completed \<Rightarrow>
                 (case zr_result r of
                    None \<Rightarrow> Some (Inl (Job_without_result job), m1)
                  | Some res \<Rightarrow> Some (Inr res, m1))
             | Some (Job_failed f) \<Rightarrow> Some (Inl (Job_has_failed job (failureReason phase_name f)), m1)
             | Some Job_cancelled \<Rightarrow> Some (Inl (Job_was_cancelled job), m1)
             | Some Job_queued \<Rightarrow> waitJob fuel srv phase_name report c job (report ''queued'' m1)
             | Some (Job_running p) \<Rightarrow> waitJob fuel srv phase_name report c job (report (runningPhase p) m1)
             | Some Job_waiting_for_input \<Rightarrow>
                 waitJob fuel srv phase_name report c job (report ''waiting for input'' m1)))"

definition check_setup :: "'h zisk_client \<Rightarrow> string \<Rightarrow> job_result \<Rightarrow> zisk_error + unit" where
  "check_setup cl job res =
     (case res of
        Setup_result vk hashMode \<Rightarrow>
          if hashMode \<noteq> [] \<and> hashMode \<noteq> vadcopFinalHashFamily then Inl (Other_hash_family hashMode)
          else if vk \<noteq> program_vk cl then Inl (Other_program_vk vk (hash_id cl))
          else Inr ()
      | _ \<Rightarrow> Inl (Not_a_setup_result job))"

definition zisk_setup ::
  "nat \<Rightarrow> 'w coordinator \<Rightarrow> (job_phase \<Rightarrow> string) \<Rightarrow> 'h zisk_client \<Rightarrow> ctx \<Rightarrow> 'w zisk_machine
    \<Rightarrow> ((zisk_error + unit) \<times> 'w zisk_machine) option" where
  "zisk_setup fuel srv phase_name cl c0 m =
     (let c = with_timeout c0 setupTimeout (clock m) in
      case call srv c (Setup_job (hash_id cl)) m of (r, m1) \<Rightarrow>
        case zr_error r of
          Some e \<Rightarrow> Some (Inl (Submitting_setup (classifySubmitError e)), m1)
        | None \<Rightarrow>
            (case waitJob fuel srv phase_name (\<lambda>_ m. m) c (zr_job_id r) m1 of
               None \<Rightarrow> None
             | Some (Inl e, m2) \<Rightarrow> Some (Inl e, m2)
             | Some (Inr res, m2) \<Rightarrow> Some (check_setup cl (zr_job_id r) res, m2)))"

section \<open>Submitting\<close>

definition createProveJob ::
  "'w coordinator \<Rightarrow> string \<Rightarrow> ctx \<Rightarrow> bytes \<Rightarrow> 'w zisk_machine \<Rightarrow> (zisk_error + string) \<times> 'w zisk_machine" where
  "createProveJob srv hash c input m =
     (let framed = zisk_framedStdin input in
      if maxMessageBytes < length framed then (Inl (Input_over_cap (length framed)), m)
      else (case call srv c (Prove_job hash framed) m of (r, m1) \<Rightarrow>
        case zr_error r of
          Some e \<Rightarrow> (Inl (classifySubmitError e), m1)
        | None \<Rightarrow> (Inr (zr_job_id r), m1)))"

definition prove_attempt ::
  "'w coordinator \<Rightarrow> string \<Rightarrow> ctx \<Rightarrow> bytes \<Rightarrow> int \<Rightarrow> 'w zisk_machine
    \<Rightarrow> ((zisk_error + (string \<times> int)) \<times> 'w zisk_machine) option" where
  "prove_attempt srv hash c input started m =
     (let submitWait = clock m - started in
      case createProveJob srv hash c input m of
        (Inl e, m1) \<Rightarrow> Some (Inl e, m1)
      | (Inr job, m1) \<Rightarrow> Some (Inr (job, submitWait), m1))"

definition waiting_phase :: string where "waiting_phase = ''waiting for the cluster''"

definition prove_handle ::
  "nat \<Rightarrow> 'w coordinator \<Rightarrow> (job_phase \<Rightarrow> string) \<Rightarrow> 'h zisk_client \<Rightarrow> ctx \<Rightarrow> zisk_error \<Rightarrow> 'w zisk_machine
    \<Rightarrow> (zisk_error option \<times> 'w zisk_machine) option" where
  "prove_handle fuel srv phase_name cl c e m =
     (if is_setup_not_done e then
        (case zisk_setup fuel srv phase_name cl c m of
           None \<Rightarrow> None
         | Some (Inl e', m1) \<Rightarrow> Some (Some e', m1)
         | Some (Inr _, m1) \<Rightarrow> Some (None, on_phase waiting_phase m1))
      else if is_unavailable e then Some (None, on_phase waiting_phase m)
      else Some (Some e, m))"

definition job_submit_error :: "zisk_error gave_up \<Rightarrow> zisk_error" where
  "job_submit_error g = (case g of Permanent e \<Rightarrow> e | Expired e \<Rightarrow> Job_submission_timed_out e)"

definition submitProveJob ::
  "nat \<Rightarrow> 'w coordinator \<Rightarrow> (job_phase \<Rightarrow> string) \<Rightarrow> 'h zisk_client \<Rightarrow> ctx \<Rightarrow> bytes \<Rightarrow> 'w zisk_machine
    \<Rightarrow> ((zisk_error + (string \<times> int)) \<times> 'w zisk_machine) option" where
  "submitProveJob fuel srv phase_name cl c input m =
     map_option (\<lambda>(r, m'). (rmap_err job_submit_error r, m'))
       (oretry fuel (prove_attempt srv (hash_id cl) c input (clock m)) (prove_handle fuel srv phase_name cl c) c
          zisk_submitRetryInterval m)"

section \<open>The result\<close>

definition zisk_verifyProof :: "'h ere_lib \<Rightarrow> 'h verifier \<Rightarrow> bytes \<Rightarrow> zisk_error + bytes" where
  "zisk_verifyProof lib v envelope =
     (case transcodeProof envelope of
        Inl e \<Rightarrow> Inl (Transcoding e)
      | Inr proof \<Rightarrow>
          (case ver_verify lib v proof of
             Inr values \<Rightarrow> Inr values
           | Inl e \<Rightarrow> Inl (if e = ErrDecodeProof then Decoding_transcoded e
                        else if e = ErrVerify then Zisk_proof_refused e else Zisk_verifier_failed e)))"

definition zisk_verify :: "'h ere_lib \<Rightarrow> 'h verifier \<Rightarrow> bytes \<Rightarrow> zisk_error + bytes" where
  "zisk_verify lib v envelope = (if v = None then Inl Zisk_client_closed else zisk_verifyProof lib v envelope)"

definition prove_result ::
  "(string list \<Rightarrow> string list) \<Rightarrow> 'h ere_lib \<Rightarrow> 'h verifier \<Rightarrow> string \<Rightarrow> job_result \<Rightarrow> zisk_error + prove_outcome" where
  "prove_result ord lib v job res =
     (case res of
        Prove_result pr \<Rightarrow>
          (case (pr_proof pr, pr_stats pr) of
             (Some proof, Some stats) \<Rightarrow>
               (case zisk_verify lib v proof of
                  Inl e \<Rightarrow> Inl (Prove_job_error job e)
                | Inr values \<Rightarrow>
                    (case zisk_mapPipeline ord stats of
                       Inl e \<Rightarrow> Inl (Prove_job_error job (Mapping_timeline e))
                     | Inr p \<Rightarrow>
                         Inr \<lparr>public_values = values, proof_bytes = int (length proof),
                              cluster_proving_time = sint (duration_nanos stats), submit_wait = 0,
                              outcome_pipeline = p\<rparr>))
           | _ \<Rightarrow> Inl (No_proof_or_stats job))
      | _ \<Rightarrow> Inl (Not_a_prove_result job))"

definition waitProveJob ::
  "nat \<Rightarrow> 'w coordinator \<Rightarrow> (job_phase \<Rightarrow> string) \<Rightarrow> (string list \<Rightarrow> string list) \<Rightarrow> 'h ere_lib \<Rightarrow> 'h verifier
    \<Rightarrow> ctx \<Rightarrow> string \<Rightarrow> 'w zisk_machine \<Rightarrow> ((zisk_error + prove_outcome) \<times> 'w zisk_machine) option" where
  "waitProveJob fuel srv phase_name ord lib v c job m =
     (case waitJob fuel srv phase_name on_phase c job m of
        None \<Rightarrow> None
      | Some (Inl e, m1) \<Rightarrow> Some (Inl e, m1)
      | Some (Inr res, m1) \<Rightarrow> Some (prove_result ord lib v job res, m1))"

definition cancelProveJob :: "'w coordinator \<Rightarrow> ctx \<Rightarrow> string \<Rightarrow> 'w zisk_machine \<Rightarrow> 'w zisk_machine" where
  "cancelProveJob srv c job m = snd (call srv c (Cancel_job job) m)"

definition zisk_waitReady :: "'w zisk_machine \<Rightarrow> (zisk_error + unit) \<times> 'w zisk_machine" where
  "zisk_waitReady m = (Inr (), m)"

definition zisk_prove ::
  "nat \<Rightarrow> 'w coordinator \<Rightarrow> (job_phase \<Rightarrow> string) \<Rightarrow> (string list \<Rightarrow> string list) \<Rightarrow> 'h ere_lib \<Rightarrow> 'h zisk_client
    \<Rightarrow> ctx \<Rightarrow> bytes \<Rightarrow> 'w zisk_machine \<Rightarrow> ((zisk_error + prove_outcome) \<times> 'w zisk_machine) option" where
  "zisk_prove fuel srv phase_name ord lib cl c input m =
     (case submitProveJob fuel srv phase_name cl c input m of
        None \<Rightarrow> None
      | Some (Inl e, m1) \<Rightarrow> Some (Inl e, m1)
      | Some (Inr (job, submitWait), m1) \<Rightarrow>
          (case waitProveJob fuel srv phase_name ord lib (zc_verifier cl) c job m1 of
             None \<Rightarrow> None
           | Some (Inl e, m2) \<Rightarrow>
               if ctx_done c (clock m2)
               then Some (Inl (Job_timed_out job e),
                 cancelProveJob srv (with_timeout (without_cancel c) (10 * second) (clock m2)) job m2)
               else Some (Inl e, m2)
           | Some (Inr outcome, m2) \<Rightarrow> Some (Inr (outcome\<lparr>submit_wait := submitWait\<rparr>), m2)))"

section \<open>Dialing\<close>

definition zisk_newClient ::
  "(string \<Rightarrow> bool) \<Rightarrow> 'h ere_lib \<Rightarrow> string \<Rightarrow> bytes \<Rightarrow> zisk_error + 'h zisk_client" where
  "zisk_newClient conn_ok lib endpoint programVK =
     (if \<not> conn_ok (trim_prefix ''http://'' endpoint) then Inl (Coordinator_undialled endpoint)
      else (case ver_new lib Zisk programVK of
              Inl e \<Rightarrow> Inl (Zisk_binding e)
            | Inr v \<Rightarrow> Inr \<lparr>hash_id = [], zc_verifier = v, program_vk = programVK\<rparr>))"

definition register_attempt ::
  "'w coordinator \<Rightarrow> ctx \<Rightarrow> bytes \<Rightarrow> 'w zisk_machine \<Rightarrow> (zisk_error + string) \<times> 'w zisk_machine" where
  "register_attempt srv c elf m =
     (case call srv (with_timeout c registerTimeout (clock m)) (Register_guest elf) m of (r, m1) \<Rightarrow>
        case zr_error r of
          None \<Rightarrow> (Inr (zr_hash_id r), m1)
        | Some e \<Rightarrow> (Inl (Registering e), m1))"

definition register_handle :: "zisk_error \<Rightarrow> 'w zisk_machine \<Rightarrow> zisk_error option \<times> 'w zisk_machine" where
  "register_handle e m = (None, m)"

definition given_up :: "'e gave_up \<Rightarrow> 'e" where
  "given_up g = (case g of Permanent e \<Rightarrow> e | Expired e \<Rightarrow> e)"

definition zisk_register ::
  "nat \<Rightarrow> 'w coordinator \<Rightarrow> ctx \<Rightarrow> bytes \<Rightarrow> 'h zisk_client \<Rightarrow> 'w zisk_machine
    \<Rightarrow> ((zisk_error + 'h zisk_client) \<times> 'w zisk_machine) option" where
  "zisk_register fuel srv c0 elf cl m =
     (let c = with_timeout c0 clusterReadyBudget (clock m) in
      case retry fuel (register_attempt srv c elf) register_handle c zisk_submitRetryInterval m of
        None \<Rightarrow> None
      | Some (Inl g, m1) \<Rightarrow> Some (Inl (given_up g), m1)
      | Some (Inr h, m1) \<Rightarrow> Some (Inr (cl\<lparr>hash_id := h\<rparr>), m1))"

definition zisk_close :: "'h zisk_client \<Rightarrow> 'h list \<Rightarrow> 'h zisk_client \<times> 'h list" where
  "zisk_close cl freed = (cl\<lparr>zc_verifier := None\<rparr>, snd (ver_close (zc_verifier cl) freed))"

definition setup_handle :: "zisk_error \<Rightarrow> 'w zisk_machine \<Rightarrow> (zisk_error option \<times> 'w zisk_machine) option" where
  "setup_handle e m = Some (if is_unavailable e then None else Some e, m)"

definition zisk_dial ::
  "nat \<Rightarrow> 'w coordinator \<Rightarrow> (job_phase \<Rightarrow> string) \<Rightarrow> (string \<Rightarrow> bool) \<Rightarrow> 'h ere_lib \<Rightarrow> ctx \<Rightarrow> string \<Rightarrow> bytes \<Rightarrow> bytes
    \<Rightarrow> 'h list \<Rightarrow> 'w zisk_machine \<Rightarrow> ((zisk_error + 'h zisk_client) \<times> 'h list \<times> 'w zisk_machine) option" where
  "zisk_dial fuel srv phase_name conn_ok lib c endpoint elf programVK freed m =
     (case restartCoordinator srv c endpoint m of
        (Inl e, m1) \<Rightarrow> Some (Inl e, freed, m1)
      | (Inr _, m1) \<Rightarrow>
          (case zisk_newClient conn_ok lib endpoint programVK of
             Inl e \<Rightarrow> Some (Inl e, freed, m1)
           | Inr cl0 \<Rightarrow>
               (case zisk_register fuel srv c elf cl0 m1 of
                  None \<Rightarrow> None
                | Some (Inl e, m2) \<Rightarrow> Some (Inl e, snd (zisk_close cl0 freed), m2)
                | Some (Inr cl, m2) \<Rightarrow>
                    (let readyCtx = with_timeout c clusterReadyBudget (clock m2) in
                     case oretry fuel (zisk_setup fuel srv phase_name cl c) setup_handle readyCtx
                            zisk_submitRetryInterval m2 of
                       None \<Rightarrow> None
                     | Some (Inr _, m3) \<Rightarrow> Some (Inr cl, freed, m3)
                     | Some (Inl g, m3) \<Rightarrow> Some (Inl (given_up g), snd (zisk_close cl freed), m3)))))"

end
