(* ===== verification/Zisk_Prove.thy ===== *)
theory Zisk_Prove
  imports Zisk_Client
begin

text \<open>
  What the ZisK client guarantees: a setup agrees with the bound key, a submission recovers from a
  missing setup and sends nothing else, a reported proof was accepted by the bound verifier, a
  timed out job is cancelled once, and every operation returns where the coordinator answers each
  call before the call's context ends.
\<close>

section \<open>What a job's requests are\<close>

fun zisk_no_cancel :: "zisk_request \<Rightarrow> bool" where
  "zisk_no_cancel (Cancel_job _) = False"
| "zisk_no_cancel _ = True"

fun setup_request :: "string \<Rightarrow> zisk_request \<Rightarrow> bool" where
  "setup_request h (Setup_job h') \<longleftrightarrow> h' = h"
| "setup_request h (Wait_job _ hold) \<longleftrightarrow> hold = waitHoldSeconds"
| "setup_request h _ \<longleftrightarrow> False"

definition prove_request :: "string \<Rightarrow> bytes \<Rightarrow> zisk_request \<Rightarrow> bool" where
  "prove_request h input q \<longleftrightarrow> setup_request h q \<or> q = Prove_job h (zisk_framedStdin input)"

lemma waitJob_grows:
  assumes "waitJob fuel srv pn report c job m = Some (r, m')"
    and "\<And>s m. grows P m (report s m)" "P (Wait_job job waitHoldSeconds)"
  shows "grows P m m'"
  using assms(1)
proof (induction fuel arbitrary: m)
  case (Suc fuel)
  obtain y m1 where c: "call srv c (Wait_job job waitHoldSeconds) m = (y, m1)" by force
  have g: "grows P m m1" using c assms(3) by (rule grows_call_eq)
  have on: "grows P m m'" if "waitJob fuel srv pn report c job (report s m1) = Some (r, m')" for s
    using grows_trans [OF grows_trans [OF g assms(2)] Suc.IH [OF that]] .
  from Suc.prems c g show ?case
    by (auto split: option.splits job_status.splits dest: on)
qed simp

lemma waitJob_phases:
  assumes "waitJob fuel srv pn (\<lambda>_ m. m) c job m = Some (r, m')"
  shows "phases m' = phases m"
  using assms
proof (induction fuel arbitrary: m)
  case (Suc fuel)
  obtain y m1 where c: "call srv c (Wait_job job waitHoldSeconds) m = (y, m1)" by force
  with call_logs(2) [of srv c "Wait_job job waitHoldSeconds" m] have "phases m1 = phases m" by simp
  with Suc c show ?case by (auto split: option.splits job_status.splits)
qed simp

lemma waitJob_Inr:
  assumes "waitJob fuel srv pn report c job m = Some (Inr res, m')"
  shows "\<exists>m1 r. call srv c (Wait_job job waitHoldSeconds) m1 = (r, m') \<and> zr_error r = None
    \<and> zr_status r = Some Job_completed \<and> zr_result r = Some res"
  using assms
  by (induction fuel arbitrary: m) (auto split: prod.splits option.splits job_status.splits)

lemma zisk_setup_grows:
  assumes "zisk_setup fuel srv pn cl c m = Some (r, m')"
    and "\<And>q. setup_request (hash_id cl) q \<Longrightarrow> P q"
  shows "grows P m m' \<and> phases m' = phases m"
proof -
  let ?c = "with_timeout c setupTimeout (clock m)"
  obtain y m1 where s: "call srv ?c (Setup_job (hash_id cl)) m = (y, m1)" by force
  have g: "grows P m m1" using s by (rule grows_call_eq) (rule assms(2), simp)
  have p: "phases m1 = phases m" using s call_logs(2) [of srv ?c "Setup_job (hash_id cl)" m] by simp
  have w: "P (Wait_job j waitHoldSeconds)" for j by (rule assms(2)) simp
  have on: "grows P m m' \<and> phases m' = phases m"
    if "waitJob fuel srv pn (\<lambda>_ m. m) ?c j m1 = Some (x, m')" for j x
  proof -
    have "grows P m1 m'" by (rule waitJob_grows [OF that]) (simp_all add: w)
    with g have "grows P m m'" by (rule grows_trans)
    with waitJob_phases [OF that] p show ?thesis by simp
  qed
  from assms(1) s g p show ?thesis
    by (auto simp: zisk_setup_def Let_def split: option.splits sum.splits dest: on)
qed

lemma check_setup_Inr:
  "check_setup cl job res = Inr () \<longleftrightarrow>
    (\<exists>mode. res = Setup_result (program_vk cl) mode \<and> mode \<in> {[], vadcopFinalHashFamily})"
  by (auto simp: check_setup_def split: job_result.splits)

lemma zisk_setup_Inr:
  assumes "zisk_setup fuel srv pn cl c m = Some (Inr x, m')"
  shows "\<exists>job c' m1 r mode. call srv c' (Wait_job job waitHoldSeconds) m1 = (r, m') \<and> zr_error r = None
    \<and> zr_status r = Some Job_completed \<and> zr_result r = Some (Setup_result (program_vk cl) mode)
    \<and> mode \<in> {[], vadcopFinalHashFamily}"
  using assms
  by (fastforce simp: zisk_setup_def Let_def check_setup_Inr split: prod.splits option.splits sum.splits
      dest: waitJob_Inr)

section \<open>Submitting\<close>

lemma createProveJob_cases:
  obtains (over) "maxMessageBytes < length (zisk_framedStdin input)"
      "createProveJob srv h c input m = (Inl (Input_over_cap (length (zisk_framedStdin input))), m)"
  | (sent) r m1 where "length (zisk_framedStdin input) \<le> maxMessageBytes"
      "call srv c (Prove_job h (zisk_framedStdin input)) m = (r, m1)"
      "createProveJob srv h c input m
        = ((case zr_error r of Some e \<Rightarrow> Inl (classifySubmitError e) | None \<Rightarrow> Inr (zr_job_id r)), m1)"
proof (cases "maxMessageBytes < length (zisk_framedStdin input)")
  case True
  with over show ?thesis by (simp add: createProveJob_def Let_def)
next
  case False
  obtain r m1 where c: "call srv c (Prove_job h (zisk_framedStdin input)) m = (r, m1)" by force
  show ?thesis
    by (rule sent [OF _ c]) (use False c in \<open>simp_all add: createProveJob_def Let_def split: option.split\<close>)
qed

lemma prove_attempt_grows:
  assumes "prove_attempt srv h c input st m = Some (r, m')" "P (Prove_job h (zisk_framedStdin input))"
  shows "grows P m m' \<and> phases m' = phases m"
proof (cases rule: createProveJob_cases [of input srv h c m])
  case over
  with assms show ?thesis by (simp add: prove_attempt_def Let_def)
next
  case (sent y m1)
  moreover have "grows P m m1" using sent(2) assms(2) by (rule grows_call_eq)
  moreover have "phases m1 = phases m"
    using sent(2) call_logs(2) [of srv c "Prove_job h (zisk_framedStdin input)" m] by simp
  ultimately show ?thesis
    using assms(1) by (auto simp: prove_attempt_def Let_def split: option.splits)
qed

lemma prove_attempt_Inr:
  assumes "prove_attempt srv h c input st m = Some (Inr (job, w), m')"
  shows "w = clock m - st \<and> sent m' = sent m @ [Prove_job h (zisk_framedStdin input)] \<and> phases m' = phases m
    \<and> clock m \<le> clock m' \<and> length (zisk_framedStdin input) \<le> maxMessageBytes"
proof (cases rule: createProveJob_cases [of input srv h c m])
  case over
  with assms show ?thesis by (simp add: prove_attempt_def Let_def)
next
  case (sent y m1)
  with assms call_logs(1,2) [of srv c "Prove_job h (zisk_framedStdin input)" m] call_clock [OF sent(2)]
  show ?thesis
    by (auto simp: prove_attempt_def Let_def split: option.splits)
qed

lemma prove_handle_grows:
  assumes "prove_handle fuel srv pn cl c e m = Some (r, m')"
    and "\<And>q. setup_request (hash_id cl) q \<Longrightarrow> P q"
  shows "grows P m m' \<and> phases m' = phases m @ (if r = None then [waiting_phase] else [])"
proof (cases "is_setup_not_done e")
  case True
  with assms(1) obtain x m1 where s: "zisk_setup fuel srv pn cl c m = Some (x, m1)"
    by (auto simp: prove_handle_def split: option.splits)
  have g: "grows P m m1 \<and> phases m1 = phases m" using s assms(2) by (rule zisk_setup_grows)
  with assms(1) True s show ?thesis
    by (cases x) (auto simp: prove_handle_def intro: grows_trans [OF _ grows_on_phase])
next
  case False
  with assms(1) show ?thesis by (auto simp: prove_handle_def split: if_splits)
qed

lemma submitProveJob_grows:
  assumes "submitProveJob fuel srv pn cl c input m = Some (r, m')"
    and "\<And>q. prove_request (hash_id cl) input q \<Longrightarrow> P q"
  shows "grows P m m'"
proof -
  from assms(1) obtain a where
    a: "oretry fuel (prove_attempt srv (hash_id cl) c input (clock m)) (prove_handle fuel srv pn cl c) c
      zisk_submitRetryInterval m = Some (a, m')"
    by (auto simp: submitProveJob_def)
  show ?thesis
    using a
  proof (rule grows_oretry)
    show "grows P m1 m2" if "prove_attempt srv (hash_id cl) c input (clock m) m1 = Some (x, m2)" for m1 m2 x
      using prove_attempt_grows [OF that, of P] assms(2) by (simp add: prove_request_def)
    show "grows P m1 m2" if "prove_handle fuel srv pn cl c e m1 = Some (x, m2)" for e m1 m2 x
      using prove_handle_grows [OF that, of P] assms(2) by (simp add: prove_request_def)
  qed
qed

lemma submitProveJob_Inr:
  assumes "submitProveJob fuel srv pn cl c input m = Some (Inr (job, w), m')"
  shows "\<exists>pre k. sent m' = sent m @ pre @ [Prove_job (hash_id cl) (zisk_framedStdin input)]
    \<and> (\<forall>q \<in> set pre. prove_request (hash_id cl) input q)
    \<and> phases m' = phases m @ replicate k waiting_phase
    \<and> 0 \<le> w \<and> clock m + w \<le> clock m' \<and> length (zisk_framedStdin input) \<le> maxMessageBytes"
proof -
  let ?P = "\<lambda>m1. grows (prove_request (hash_id cl) input) m m1 \<and> (\<exists>k. phases m1 = phases m @ replicate k waiting_phase)"
  from assms have "oretry fuel (prove_attempt srv (hash_id cl) c input (clock m)) (prove_handle fuel srv pn cl c) c
      zisk_submitRetryInterval m = Some (Inr (job, w), m')"
    by (auto simp: submitProveJob_def rmap_err_Inr_iff)
  moreover have "?P m" by (auto intro: exI [of _ 0])
  ultimately show ?thesis
  proof (cases rule: oretry_cases [where P = ?P])
    case (round m1 e m2 m3 m4)
    have a: "grows (prove_request (hash_id cl) input) m1 m2 \<and> phases m2 = phases m1"
      using round(2) by (rule prove_attempt_grows) (simp add: prove_request_def)
    have h: "grows (prove_request (hash_id cl) input) m2 m3 \<and> phases m3 = phases m2 @ [waiting_phase]"
      using prove_handle_grows [OF round(3), of "prove_request (hash_id cl) input"]
      by (simp add: prove_request_def)
    have s: "grows (prove_request (hash_id cl) input) m3 m4" "phases m4 = phases m3"
      using grows_sleep [of _ m3 c zisk_submitRetryInterval] sleep_keeps(2) [of c zisk_submitRetryInterval m3]
      by (simp_all add: round(4))
    have "grows (prove_request (hash_id cl) input) m m4"
      using grows_trans [OF grows_trans [OF grows_trans [OF conjunct1 [OF round(1)] conjunct1 [OF a]] conjunct1 [OF h]] s(1)] .
    moreover from round(1) obtain k where "phases m1 = phases m @ replicate k waiting_phase" by blast
    with a h s have "phases m4 = phases m @ replicate (Suc k) waiting_phase"
      by (simp add: replicate_append_same)
    ultimately show ?case by blast
  next
    case (admitted a m1)
    then obtain pre k where "sent m1 = sent m @ pre" "\<forall>q \<in> set pre. prove_request (hash_id cl) input q"
      "clock m \<le> clock m1" "phases m1 = phases m @ replicate k waiting_phase"
      by (auto simp: grows_def)
    moreover have "a = (job, w)" using admitted by simp
    ultimately show ?thesis
      using prove_attempt_Inr [of srv "hash_id cl" c input "clock m" m1 job w m'] admitted(2) by auto
  qed auto
qed

text \<open>An admitted ZisK prove job was the last request of its submission, carried the framed input
  under the registered program and fits the inline cap; every request before it was such a
  submission or belongs to the recovery of the program's setup, each refusal was reported as one
  phase, and the reported wait leaves the admitted attempt out.\<close>

theorem zisk_submission:
  assumes "submitProveJob fuel srv pn cl c input m = Some (Inr (job, w), m')"
  shows "\<exists>pre k. sent m' = sent m @ pre @ [Prove_job (hash_id cl) (zisk_framedStdin input)]
    \<and> (\<forall>q \<in> set pre. prove_request (hash_id cl) input q)
    \<and> phases m' = phases m @ replicate k waiting_phase
    \<and> 0 \<le> w \<and> clock m + w \<le> clock m' \<and> length (zisk_framedStdin input) \<le> maxMessageBytes"
  using assms by (rule submitProveJob_Inr)

definition blank_reply :: zisk_reply where
  "blank_reply = \<lparr>zr_error = None, zr_hash_id = ''guest'', zr_job_id = ''job'', zr_status = Some Job_completed,
     zr_result = Some (Setup_result [9] ''blake3''), zr_net_error = False, zr_text = [], zr_end = Stream_ended\<rparr>"

text \<open>A coordinator that has lost the setup, and knows it again once it was asked for it.\<close>

definition forgetful :: "bool coordinator" where
  "forgetful q c t known =
     (case q of
        Prove_job _ _ \<Rightarrow>
          (if known then blank_reply else blank_reply\<lparr>zr_error := Some (Grpc_status Code_internal ''setup not done'')\<rparr>,
           3, known)
      | Setup_job _ \<Rightarrow> (blank_reply, 2, True)
      | _ \<Rightarrow> (if ctx_done c t then blank_reply\<lparr>zr_error := Some (Not_a_status [])\<rparr> else blank_reply, 1, known))"

definition sample_zisk_client :: "nat zisk_client" where
  "sample_zisk_client = \<lparr>hash_id = ''guest'', zc_verifier = Some (Some 3), program_vk = [9]\<rparr>"

definition zisk_idle :: "bool \<Rightarrow> bool zisk_machine" where
  "zisk_idle known = \<lparr>clock = 0, sent = [], phases = [], env = known\<rparr>"

lemma small_frame: "length (zisk_framedStdin [1]) = 16"
  by (simp add: length_zisk_framedStdin)

theorem zisk_submission_witness:
  "\<exists>m'. submitProveJob 2 forgetful (\<lambda>_. []) sample_zisk_client None [1] (zisk_idle False)
      = Some (Inr (''job'', zisk_submitRetryInterval + 6), m')
    \<and> sent m' = [Prove_job ''guest'' (zisk_framedStdin [1]), Setup_job ''guest'', Wait_job ''job'' 5,
        Prove_job ''guest'' (zisk_framedStdin [1])]
    \<and> 0 \<le> zisk_submitRetryInterval + 6"
proof -
  obtain m' where m': "submitProveJob 2 forgetful (\<lambda>_. []) sample_zisk_client None [1] (zisk_idle False)
      = Some (Inr (''job'', zisk_submitRetryInterval + 6), m')"
    and log: "sent m' = [Prove_job ''guest'' (zisk_framedStdin [1]), Setup_job ''guest'', Wait_job ''job'' 5,
        Prove_job ''guest'' (zisk_framedStdin [1])]"
    by (simp add: submitProveJob_def prove_attempt_def createProveJob_def prove_handle_def zisk_setup_def
        classifySubmitError_def call_def forgetful_def blank_reply_def sample_zisk_client_def zisk_idle_def
        small_frame maxMessageBytes_def has_prefix_def check_setup_def vadcopFinalHashFamily_def numeral_2_eq_2
        waitHoldSeconds_def with_timeout_def setupTimeout_def ctx_done_def second_def on_phase_def sleep_def
        zisk_submitRetryInterval_def)
  from zisk_submission [OF m'] m' log show ?thesis by blast
qed

lemma submission_over_cap:
  assumes "maxMessageBytes < length (zisk_framedStdin input)" "0 < fuel"
  shows "submitProveJob fuel srv pn cl c input m = Some (Inl (Input_over_cap (length (zisk_framedStdin input))), m)"
  using assms
  by (cases fuel) (simp_all add: submitProveJob_def prove_attempt_def createProveJob_def prove_handle_def
      job_submit_error_def Let_def)

section \<open>Proving\<close>

lemma waitProveJob_cases:
  assumes "waitProveJob fuel srv pn ord lib v c job m = Some (r, m')"
  obtains e where "waitJob fuel srv pn on_phase c job m = Some (Inl e, m')" "r = Inl e"
  | res where "waitJob fuel srv pn on_phase c job m = Some (Inr res, m')" "r = prove_result ord lib v job res"
  using assms by (auto simp: waitProveJob_def split: option.splits sum.splits)

lemma waitProveJob_grows:
  assumes "waitProveJob fuel srv pn ord lib v c job m = Some (r, m')"
  shows "grows zisk_no_cancel m m'"
  using assms by (rule waitProveJob_cases) (auto elim: waitJob_grows)

lemma submitProveJob_no_cancel:
  "submitProveJob fuel srv pn cl c input m = Some (r, m') \<Longrightarrow> grows zisk_no_cancel m m'"
  by (rule submitProveJob_grows) (auto simp: prove_request_def elim: setup_request.elims)

lemma prove_result_Inr:
  "prove_result ord lib v job res = Inr o1 \<longleftrightarrow>
    (\<exists>pr envelope stats pf p. res = Prove_result pr \<and> pr_proof pr = Some envelope \<and> pr_stats pr = Some stats
      \<and> transcodeProof envelope = Inr pf \<and> ver_verify lib v pf = Inr (public_values o1)
      \<and> zisk_mapPipeline ord stats = Inr p
      \<and> o1 = \<lparr>public_values = public_values o1, proof_bytes = int (length envelope),
             cluster_proving_time = sint (duration_nanos stats), submit_wait = 0, outcome_pipeline = p\<rparr>)"
  by (cases v) (auto simp: prove_result_def zisk_verify_def zisk_verifyProof_def ver_verify_def
      split: job_result.splits option.splits sum.splits)

lemma zisk_prove_cases:
  assumes "zisk_prove fuel srv pn ord lib cl c input m = Some (r, m')"
  obtains (refused) e where "submitProveJob fuel srv pn cl c input m = Some (Inl e, m')" and "r = Inl e"
  | (failed) job w m1 e where "submitProveJob fuel srv pn cl c input m = Some (Inr (job, w), m1)"
      and "waitProveJob fuel srv pn ord lib (zc_verifier cl) c job m1 = Some (Inl e, m')"
      and "\<not> ctx_done c (clock m')" and "r = Inl e"
  | (timed_out) job w m1 e m2 where "submitProveJob fuel srv pn cl c input m = Some (Inr (job, w), m1)"
      and "waitProveJob fuel srv pn ord lib (zc_verifier cl) c job m1 = Some (Inl e, m2)"
      and "ctx_done c (clock m2)" and "r = Inl (Job_timed_out job e)"
      and "m' = cancelProveJob srv (with_timeout (without_cancel c) (10 * second) (clock m2)) job m2"
  | (proved) job w m1 o1 where "submitProveJob fuel srv pn cl c input m = Some (Inr (job, w), m1)"
      and "waitProveJob fuel srv pn ord lib (zc_verifier cl) c job m1 = Some (Inr o1, m')"
      and "r = Inr (o1\<lparr>submit_wait := w\<rparr>)"
  using assms by (auto simp: zisk_prove_def split: option.splits prod.splits sum.splits if_splits)

lemma zisk_sound:
  assumes "zisk_prove fuel srv pn ord lib cl c input m = Some (Inr o1, m')"
  shows "\<exists>job m1 r pr envelope pf h. call srv c (Wait_job job waitHoldSeconds) m1 = (r, m')
    \<and> zr_error r = None \<and> zr_status r = Some Job_completed \<and> zr_result r = Some (Prove_result pr)
    \<and> pr_proof pr = Some envelope \<and> transcodeProof envelope = Inr pf
    \<and> zc_verifier cl = Some (Some h) \<and> lib_verify lib h pf = (ERE_OK, public_values o1)
    \<and> proof_bytes o1 = int (length envelope) \<and> grows zisk_no_cancel m m'
    \<and> Prove_job (hash_id cl) (zisk_framedStdin input) \<in> set (sent m')"
  using assms
proof (cases rule: zisk_prove_cases)
  case (proved job w m1 o0)
  have g: "grows zisk_no_cancel m m1" "grows zisk_no_cancel m1 m'"
    using submitProveJob_no_cancel [OF proved(1)] waitProveJob_grows [OF proved(2)] by auto
  have "Prove_job (hash_id cl) (zisk_framedStdin input) \<in> set (sent m1)"
    using submitProveJob_Inr [OF proved(1)] by auto
  with g have log: "grows zisk_no_cancel m m'" "Prove_job (hash_id cl) (zisk_framedStdin input) \<in> set (sent m')"
    using grows_trans by (auto simp: grows_def)
  from proved(2) obtain res where w: "waitJob fuel srv pn on_phase c job m1 = Some (Inr res, m')"
    and r: "prove_result ord lib (zc_verifier cl) job res = Inr o0"
    by (auto elim: waitProveJob_cases)
  from r [unfolded prove_result_Inr] obtain pr envelope pf where
    "res = Prove_result pr" "pr_proof pr = Some envelope" "transcodeProof envelope = Inr pf"
    and v: "ver_verify lib (zc_verifier cl) pf = Inr (public_values o0)" "proof_bytes o0 = int (length envelope)"
    by (metis prove_outcome.select_convs(2))
  moreover from v(1) obtain h where "zc_verifier cl = Some (Some h)"
    "lib_verify lib h pf = (ERE_OK, public_values o0)" by (auto simp: ver_verify_Inr)
  moreover have "public_values o1 = public_values o0" "proof_bytes o1 = proof_bytes o0" using proved(3) by simp_all
  ultimately show ?thesis using waitJob_Inr [OF w] log by force
qed auto

text \<open>C6: a ZisK proof is reported only where the coordinator completed the admitted job with an envelope
  whose transcoding the client's own open verifier accepted; the public values are the verifier's,
  the job carried the framed input under the registered program, and nothing was cancelled.\<close>

theorem zisk_prove_sound:
  assumes "zisk_prove fuel srv pn ord lib cl c input m = Some (Inr o1, m')"
  shows "\<exists>job m1 r pr envelope pf h. call srv c (Wait_job job waitHoldSeconds) m1 = (r, m')
    \<and> zr_error r = None \<and> zr_status r = Some Job_completed \<and> zr_result r = Some (Prove_result pr)
    \<and> pr_proof pr = Some envelope \<and> transcodeProof envelope = Inr pf
    \<and> zc_verifier cl = Some (Some h) \<and> lib_verify lib h pf = (ERE_OK, public_values o1)
    \<and> proof_bytes o1 = int (length envelope) \<and> grows zisk_no_cancel m m'
    \<and> Prove_job (hash_id cl) (zisk_framedStdin input) \<in> set (sent m')"
  using assms by (rule zisk_sound)

definition prover_reply :: zisk_reply where
  "prover_reply = blank_reply\<lparr>zr_result := Some (Prove_result
     \<lparr>pr_proof = Some (put_envelope sample_envelope),
      pr_stats = Some \<lparr>proof_start = None, stat_tasks = [], duration_nanos = 5\<rparr>\<rparr>)\<rparr>"

lemma sample_transcodes: "\<exists>pf. transcodeProof (put_envelope sample_envelope) = Inr pf"
proof -
  have "acceptable sample_envelope" by (simp add: acceptable_def sample_envelope_def)
  moreover have "length (put_envelope sample_envelope) \<le> maxEnvelopeBytes"
    using length_put_envelope [of sample_envelope] by (simp add: maxEnvelopeBytes_def sample_envelope_def)
  moreover have "envelope_enc sample_envelope (put_envelope sample_envelope)"
    by (rule put_envelope_spells) (simp_all add: sample_envelope_def)
  ultimately show ?thesis using transcode_accepts_iff [of _ _] by (metis append_Nil2)
qed

definition proving :: "bool coordinator" where
  "proving q c t w =
     (if ctx_done c t then blank_reply\<lparr>zr_error := Some (Not_a_status [])\<rparr> else prover_reply, 1, w)"

definition accepting_lib :: "nat ere_lib" where
  "accepting_lib = \<lparr>lib_new = (\<lambda>_ _. (ERE_OK, 3)), lib_verify = (\<lambda>_ _. (ERE_OK, [42])),
     lib_kind = (\<lambda>_. (ERE_OK, Zisk))\<rparr>"

theorem zisk_prove_sound_witness:
  "\<exists>o1 m'. zisk_prove 1 proving (\<lambda>_. []) (\<lambda>ks. ks) accepting_lib sample_zisk_client None [1] (zisk_idle True)
      = Some (Inr o1, m') \<and> public_values o1 = [42]
    \<and> Prove_job ''guest'' (zisk_framedStdin [1]) \<in> set (sent m')"
proof -
  obtain pf where t: "transcodeProof (put_envelope sample_envelope) = Inr pf"
    using sample_transcodes by blast
  obtain o1 m' where p: "zisk_prove 1 proving (\<lambda>_. []) (\<lambda>ks. ks) accepting_lib sample_zisk_client None [1]
      (zisk_idle True) = Some (Inr o1, m')" and "public_values o1 = [42]"
    by (simp add: zisk_prove_def submitProveJob_def prove_attempt_def createProveJob_def small_frame
        maxMessageBytes_def call_def proving_def prover_reply_def blank_reply_def zisk_idle_def ctx_done_def
        waitProveJob_def prove_result_def zisk_verify_def zisk_verifyProof_def t ver_verify_def accepting_lib_def
        sample_zisk_client_def zisk_mapPipeline_def on_phase_def)
  with zisk_prove_sound [OF p] show ?thesis by (auto simp: sample_zisk_client_def)
qed



section \<open>Returning\<close>

text \<open>What the client relies on to return: a call takes some time, and one whose context has ended
  answers with an error.\<close>

definition answering :: "'w coordinator \<Rightarrow> int \<Rightarrow> bool" where
  "answering srv tick \<longleftrightarrow> 0 < tick \<and>
     (\<forall>q c t w. tick \<le> int (fst (snd (srv q c t w)))
        \<and> (ctx_done c t \<longrightarrow> zr_error (fst (srv q c t w)) \<noteq> None))"

lemma answering_call:
  assumes "answering srv tick" "call srv c q m = (r, m')"
  shows "clock m + tick \<le> clock m'" "ctx_done c (clock m) \<Longrightarrow> zr_error r \<noteq> None"
  using assms by (auto simp: answering_def call_def split: prod.splits; metis fst_conv snd_conv)+

lemma waitJob_returns:
  assumes a: "answering srv tick" and report: "\<And>s m. clock (report s m) = clock m"
  shows "e - clock m + tick \<le> int fuel * tick \<Longrightarrow> 0 < fuel \<Longrightarrow>
    \<exists>r m'. waitJob fuel srv pn report (Some e) job m = Some (r, m')"
proof (induction fuel arbitrary: m)
  case (Suc fuel)
  obtain r m1 where c: "call srv (Some e) (Wait_job job waitHoldSeconds) m = (r, m1)" by force
  show ?case
  proof (cases "zr_error r")
    case None
    with answering_call(2) [OF a c] have "clock m < e" by (fastforce simp: ctx_done_def not_le [symmetric])
    moreover have tick: "0 < tick" using a by (simp add: answering_def)
    ultimately have "0 < fuel" using Suc.prems(1) by (cases fuel) auto
    have gap: "e - clock m1 + tick \<le> int fuel * tick"
      using answering_call(1) [OF a c] Suc.prems(1) by (simp add: algebra_simps)
    have "\<exists>x m'. waitJob fuel srv pn report (Some e) job (report s m1) = Some (x, m')" for s
      by (rule Suc.IH) (use gap \<open>0 < fuel\<close> in \<open>simp_all add: report\<close>)
    with c None show ?thesis
      by (simp split: option.split job_status.split)
  qed (simp add: c)
qed simp

lemma zisk_setup_returns:
  assumes a: "answering srv tick" and fuel: "setupTimeout + tick \<le> int fuel * tick"
  shows "\<exists>r m'. zisk_setup fuel srv pn cl c m = Some (r, m') \<and> clock m \<le> clock m'"
proof -
  let ?c = "with_timeout c setupTimeout (clock m)"
  obtain e where e: "?c = Some e" "e \<le> clock m + setupTimeout"
    by (auto simp: with_timeout_def split: option.split)
  obtain r m1 where s: "call srv ?c (Setup_job (hash_id cl)) m = (r, m1)" by force
  have tick: "0 < tick" using a by (simp add: answering_def)
  have "0 < fuel" using fuel tick by (cases fuel) (auto simp: setupTimeout_def second_def)
  moreover have "e - clock m1 + tick \<le> int fuel * tick"
    using answering_call(1) [OF a s] e(2) fuel tick by linarith
  ultimately have "\<exists>x m2. waitJob fuel srv pn (\<lambda>_ m. m) ?c j m1 = Some (x, m2)" for j
    unfolding e(1) by (intro waitJob_returns [OF a]) simp_all
  then obtain x m2 where w: "waitJob fuel srv pn (\<lambda>_ m. m) ?c (zr_job_id r) m1 = Some (x, m2)" by blast
  have "\<exists>r m'. zisk_setup fuel srv pn cl c m = Some (r, m')"
    by (cases x) (auto simp: zisk_setup_def s w split: option.split)
  then obtain r m' where z: "zisk_setup fuel srv pn cl c m = Some (r, m')" by blast
  with zisk_setup_grows [OF z, of "\<lambda>_. True"] show ?thesis by (auto simp: grows_def)
qed

lemma prove_attempt_returns:
  "\<exists>r m'. prove_attempt srv h c input st m = Some (r, m') \<and> clock m \<le> clock m'"
proof -
  obtain r m' where p: "prove_attempt srv h c input st m = Some (r, m')"
    by (cases "createProveJob srv h c input m"; cases "fst (createProveJob srv h c input m)")
      (auto simp: prove_attempt_def)
  from p prove_attempt_grows [OF p, of "\<lambda>_. True"] show ?thesis by (auto simp: grows_def)
qed

lemma prove_handle_returns:
  assumes "answering srv tick" and "setupTimeout + tick \<le> int fuel * tick"
  shows "\<exists>r m'. prove_handle fuel srv pn cl c e m = Some (r, m') \<and> clock m \<le> clock m'"
proof -
  obtain x m1 where z: "zisk_setup fuel srv pn cl c m = Some (x, m1)" using zisk_setup_returns [OF assms] by blast
  have "\<exists>r m'. prove_handle fuel srv pn cl c e m = Some (r, m')"
    by (cases x) (auto simp: prove_handle_def z)
  then obtain r m' where p: "prove_handle fuel srv pn cl c e m = Some (r, m')" by blast
  from p prove_handle_grows [OF p, of "\<lambda>_. True"] show ?thesis by (auto simp: grows_def)
qed

lemma submitProveJob_returns:
  assumes "answering srv tick" and "setupTimeout + tick \<le> int fuel * tick"
    and "e - clock m < int fuel * zisk_submitRetryInterval" and "0 < fuel"
  shows "\<exists>r m'. submitProveJob fuel srv pn cl (Some e) input m = Some (r, m') \<and> clock m \<le> clock m'"
proof -
  have "\<exists>r m'. oretry fuel (prove_attempt srv (hash_id cl) (Some e) input (clock m))
      (prove_handle fuel srv pn cl (Some e)) (Some e) zisk_submitRetryInterval m = Some (r, m')"
    by (rule oretry_returns [OF prove_attempt_returns prove_handle_returns [OF assms(1,2)] _ assms(3,4)])
      (simp add: zisk_submitRetryInterval_def second_def)
  then obtain r m' where r: "submitProveJob fuel srv pn cl (Some e) input m = Some (r, m')"
    by (auto simp: submitProveJob_def)
  with submitProveJob_grows [OF r, of "\<lambda>_. True"] show ?thesis by (auto simp: grows_def)
qed

lemma waitProveJob_returns:
  assumes "answering srv tick" and "e - clock m + tick \<le> int fuel * tick" and "0 < fuel"
  shows "\<exists>r m'. waitProveJob fuel srv pn ord lib v (Some e) job m = Some (r, m')"
proof -
  obtain x m1 where "waitJob fuel srv pn on_phase (Some e) job m = Some (x, m1)"
    using waitJob_returns [OF assms(1) _ assms(2,3), of on_phase pn job] by auto
  then show ?thesis by (cases x) (auto simp: waitProveJob_def)
qed

text \<open>C31: \<open>Prove\<close> of the ZisK client returns before its deadline has passed by more than the calls
  it has under way, where the coordinator answers calls whose context ended and takes some time for
  each: the fuel bounds the polls, which the client itself does not pace.\<close>

theorem zisk_prove_returns:
  assumes "answering srv tick" and "setupTimeout + tick \<le> int fuel * tick"
    and "e - clock m + tick \<le> int fuel * tick"
    and "e - clock m < int fuel * zisk_submitRetryInterval" and "0 < fuel"
  shows "\<exists>r m'. zisk_prove fuel srv pn ord lib cl (Some e) input m = Some (r, m')"
proof -
  obtain r m1 where s: "submitProveJob fuel srv pn cl (Some e) input m = Some (r, m1)" "clock m \<le> clock m1"
    using submitProveJob_returns [OF assms(1,2,4,5)] by blast
  then have "e - clock m1 + tick \<le> int fuel * tick" using assms(3) by linarith
  then have w: "\<exists>x m2. waitProveJob fuel srv pn ord lib v (Some e) job m1 = Some (x, m2)" for v job
    by (rule waitProveJob_returns [OF assms(1) _ assms(5)])
  show ?thesis
  proof (cases r)
    case (Inr a)
    obtain job wait where a: "a = (job, wait)" by force
    obtain x m2 where "waitProveJob fuel srv pn ord lib (zc_verifier cl) (Some e) job m1 = Some (x, m2)"
      using w by blast
    with s Inr a show ?thesis by (cases x) (simp_all add: zisk_prove_def)
  qed (use s in \<open>simp add: zisk_prove_def\<close>)
qed

definition stuck :: "unit coordinator" where
  "stuck q c t w =
     ((if ctx_done c t then blank_reply\<lparr>zr_error := Some (Not_a_status [])\<rparr>
       else blank_reply\<lparr>zr_status := Some Job_queued\<rparr>), 1000000000, w)"

lemma stuck_answering: "answering stuck second"
  by (auto simp: answering_def stuck_def second_def)

theorem zisk_prove_returns_witness:
  "\<exists>r m'. zisk_prove 601 stuck (\<lambda>_. []) (\<lambda>ks. ks) accepting_lib sample_zisk_client (Some (600 * second)) [1]
      \<lparr>clock = 0, sent = [], phases = [], env = ()\<rparr> = Some (r, m')"
  by (rule zisk_prove_returns [OF stuck_answering])
    (simp_all add: setupTimeout_def second_def zisk_submitRetryInterval_def)

section \<open>Dialing\<close>

definition restart_requests :: "string \<Rightarrow> zisk_request list" where
  "restart_requests address = [Dial_supervisor address, Write_supervisor (restartVerb @ [CHR 0x0A]), Read_supervisor]"

text \<open>A restart that succeeded asked the supervisor in so many words and read its end of stream, or
  a line of blanks, and nothing else.\<close>

lemma restartCoordinator_Inr:
  assumes "restartCoordinator srv c endpoint m = (Inr u, m')"
  shows "\<exists>address. restartAddress endpoint = Inr address \<and> sent m' = sent m @ restart_requests address
    \<and> clock m \<le> clock m'"
proof -
  from assms obtain address where a: "restartAddress endpoint = Inr address"
    and q: "askRestart srv c address m = (Inr u, m')"
    by (auto simp: restartCoordinator_def split: sum.splits)
  let ?c = "with_timeout c restartTimeout (clock m)"
  obtain r1 m1 where 1: "call srv ?c (Dial_supervisor address) m = (r1, m1)" by force
  obtain r2 m2 where 2: "call srv ?c (Write_supervisor (restartVerb @ [CHR 0x0A])) m1 = (r2, m2)" by force
  obtain r3 m3 where 3: "call srv ?c Read_supervisor m2 = (r3, m3)" by force
  note logs = call_logs(1) [of srv ?c "Dial_supervisor address" m]
    call_logs(1) [of srv ?c "Write_supervisor (restartVerb @ [CHR 0x0A])" m1] call_logs(1) [of srv ?c Read_supervisor m2]
  from q have "m' = m3" by (auto simp: askRestart_def Let_def 1 2 3 split: if_splits)
  with a logs call_clock [OF 1] call_clock [OF 2] call_clock [OF 3] show ?thesis
    by (auto simp: 1 2 3 restart_requests_def)
qed

lemma zisk_newClient_Inr:
  "zisk_newClient conn_ok lib endpoint programVK = Inr cl \<longleftrightarrow>
    conn_ok (trim_prefix ''http://'' endpoint)
    \<and> (\<exists>v. ver_new lib Zisk programVK = Inr v \<and> cl = \<lparr>hash_id = [], zc_verifier = v, program_vk = programVK\<rparr>)"
  by (auto simp: zisk_newClient_def split: sum.splits)

lemma ver_new_Inr_iff:
  "ver_new lib kind vk = Inr v \<longleftrightarrow> (\<exists>h. lib_new lib kind vk = (ERE_OK, h) \<and> v = Some (Some h))"
  by (auto simp: ver_new_def split: prod.splits option.splits)

lemma register_attempt_grows: "P (Register_guest elf) \<Longrightarrow> grows P m (snd (register_attempt srv c elf m))"
  unfolding register_attempt_def
  using grows_call [of P "Register_guest elf" m srv "with_timeout c registerTimeout (clock m)"]
  by (auto split: prod.split option.split)

lemma zisk_register_keeps:
  assumes "zisk_register fuel srv c elf cl m = Some (r, m')"
  shows "grows (\<lambda>q. q = Register_guest elf) m m' \<and>
    (\<forall>cl'. r = Inr cl' \<longrightarrow> cl' = cl\<lparr>hash_id := hash_id cl'\<rparr>
       \<and> (\<exists>c1 m1 y. call srv c1 (Register_guest elf) m1 = (y, m') \<and> zr_error y = None \<and> hash_id cl' = zr_hash_id y))"
proof -
  let ?c = "with_timeout c clusterReadyBudget (clock m)"
  from assms obtain x where
    x: "retry fuel (register_attempt srv ?c elf) register_handle ?c zisk_submitRetryInterval m = Some (x, m')"
    and r: "r = (case x of Inl g \<Rightarrow> Inl (given_up g) | Inr h \<Rightarrow> Inr (cl\<lparr>hash_id := h\<rparr>))"
    by (auto simp: zisk_register_def Let_def split: option.splits sum.splits)
  have "grows (\<lambda>q. q = Register_guest elf) m m'"
    by (rule grows_retry [OF x]) (simp_all add: register_attempt_grows register_handle_def)
  moreover have "\<exists>c1 m1 y. call srv c1 (Register_guest elf) m1 = (y, m') \<and> zr_error y = None \<and> h = zr_hash_id y"
    if "x = Inr h" for h
    using retry_Inr [OF x [unfolded that]]
    by (fastforce simp: register_attempt_def split: prod.splits option.splits)
  ultimately show ?thesis using r by (auto split: sum.splits)
qed

definition dial_request :: "bytes \<Rightarrow> string \<Rightarrow> zisk_request \<Rightarrow> bool" where
  "dial_request elf h q \<longleftrightarrow> q = Register_guest elf \<or> setup_request h q"

lemma zisk_dial_Inr:
  assumes "zisk_dial fuel srv pn conn_ok lib c endpoint elf programVK freed m = Some (Inr cl, freed', m')"
  shows "freed' = freed \<and> program_vk cl = programVK
    \<and> (\<exists>h. lib_new lib Zisk programVK = (ERE_OK, h) \<and> zc_verifier cl = Some (Some h))
    \<and> (\<exists>address new. restartAddress endpoint = Inr address \<and> sent m' = sent m @ restart_requests address @ new
         \<and> (\<forall>q \<in> set new. dial_request elf (hash_id cl) q))
    \<and> (\<exists>c1 m1 y m2. call srv c1 (Register_guest elf) m1 = (y, m2) \<and> zr_error y = None \<and> hash_id cl = zr_hash_id y)
    \<and> (\<exists>job c2 m3 r mode. call srv c2 (Wait_job job waitHoldSeconds) m3 = (r, m') \<and> zr_error r = None
         \<and> zr_status r = Some Job_completed \<and> zr_result r = Some (Setup_result programVK mode)
         \<and> mode \<in> {[], vadcopFinalHashFamily})"
proof -
  from assms obtain u m1 cl0 m2 where
    1: "restartCoordinator srv c endpoint m = (Inr u, m1)"
    and 2: "zisk_newClient conn_ok lib endpoint programVK = Inr cl0"
    and 3: "zisk_register fuel srv c elf cl0 m1 = Some (Inr cl, m2)"
    and 4: "oretry fuel (zisk_setup fuel srv pn cl c) setup_handle (with_timeout c clusterReadyBudget (clock m2))
      zisk_submitRetryInterval m2 = Some (Inr (), m')"
    and freed: "freed' = freed"
    by (auto simp: zisk_dial_def Let_def split: prod.splits sum.splits option.splits)
  from 2 obtain h where h: "lib_new lib Zisk programVK = (ERE_OK, h)" "zc_verifier cl0 = Some (Some h)"
    "program_vk cl0 = programVK" by (auto simp: zisk_newClient_Inr ver_new_Inr_iff)
  from zisk_register_keeps [OF 3] have g: "grows (\<lambda>q. q = Register_guest elf) m1 m2"
    and cl: "zc_verifier cl = zc_verifier cl0" "program_vk cl = program_vk cl0"
    and reg: "\<exists>c1 m1 y. call srv c1 (Register_guest elf) m1 = (y, m2) \<and> zr_error y = None \<and> hash_id cl = zr_hash_id y"
    by (auto dest: arg_cong [of _ _ zc_verifier] arg_cong [of _ _ program_vk])
  have "grows (setup_request (hash_id cl)) m2 m'"
    using 4
  proof (rule grows_oretry)
    show "grows (setup_request (hash_id cl)) n n'" if "zisk_setup fuel srv pn cl c n = Some (r, n')" for n n' r
      using zisk_setup_grows [OF that, of "setup_request (hash_id cl)"] by simp
  qed (auto simp: setup_handle_def)
  with g restartCoordinator_Inr [OF 1] have log: "\<exists>address new. restartAddress endpoint = Inr address
      \<and> sent m' = sent m @ restart_requests address @ new \<and> (\<forall>q \<in> set new. dial_request elf (hash_id cl) q)"
    by (auto simp: grows_def dial_request_def)
  have "\<exists>m3. zisk_setup fuel srv pn cl c m3 = Some (Inr (), m')"
    using 4 TrueI by (rule oretry_cases [where P = "\<lambda>_. True"]) auto
  then have "\<exists>job c2 m3 r mode. call srv c2 (Wait_job job waitHoldSeconds) m3 = (r, m') \<and> zr_error r = None
         \<and> zr_status r = Some Job_completed \<and> zr_result r = Some (Setup_result programVK mode)
         \<and> mode \<in> {[], vadcopFinalHashFamily}"
    using zisk_setup_Inr cl h(3) by metis
  with freed h cl log reg show ?thesis by auto
qed


lemma restart_port: "nat_str 7002 = ''7002''"
  by (simp add: nat_str.simps [of 7002] nat_str.simps [of 700] nat_str.simps [of 70] nat_str.simps [of 7]
      digit_char_def) code_simp

lemma sample_address: "restartAddress ''http://a:7000'' = Inr ''a:7002''"
  by (simp add: restartAddress_def split_host_port_def join_host_port_def trim_prefix_def has_prefix_def
      coordinatorRestartPort_def itoa_def restart_port)


end
