(* ===== verification/Openvm_Pipeline.thy ===== *)
theory Openvm_Pipeline
  imports Complex_Main Pipeline
begin

text \<open>
  \<open>internal/openvm/pipeline.go\<close>: the timeline of one OpenVM proof from the manager's view of
  its task results. A sub metric is a \<open>float64\<close>, a rational number here, since the code only
  rounds it to whole milliseconds. The host of a worker URL is \<open>net/url\<close>'s parse and is the
  parameter \<open>parse\<close>, \<open>None\<close> where the URL does not parse. The manager lists a worker id
  once, so its sort has no ties.
\<close>

section \<open>The view\<close>

record view_timing =
  vt_worker :: int
  dispatched_at :: int
  worker_start :: int
  worker_end :: int
  completed_at :: int
  segment_start :: int
  segment_end :: int
  layer_index :: int
  queue_wait :: int
  metered_time :: int
  fast_forward :: int
  stark_prove :: int
  compression :: int
  sub_metrics :: "string \<rightharpoonup> rat"
  wrap_sub_metrics :: "string \<rightharpoonup> rat"

record pipeline_view =
  view_start :: int
  app_proofs :: "view_timing list"
  leaf_proofs :: "view_timing list"
  internal_proofs :: "view_timing list"

record worker_registration =
  wr_id :: int
  wr_url :: string

definition ov_kindExecution :: int where "ov_kindExecution = 0"
definition ov_kindFastForward :: int where "ov_kindFastForward = 1"
definition ov_kindSegment :: int where "ov_kindSegment = 2"
definition ov_kindLeaf :: int where "ov_kindLeaf = 3"
definition ov_kindInternal :: int where "ov_kindInternal = 4"
definition ov_kindWrap :: int where "ov_kindWrap = 5"

lemmas openvm_kinds = ov_kindExecution_def ov_kindFastForward_def ov_kindSegment_def ov_kindLeaf_def
  ov_kindInternal_def ov_kindWrap_def

definition openvm_pipelineKinds :: "task_kind list" where
  "openvm_pipelineKinds =
    map (\<lambda>(name, label, row, phase). \<lparr>tk_name = name, tk_label = label, tk_legend = label,
        tk_row = row, tk_phase = phase\<rparr>)
    [(''execution'', ''Metered Execution'', ''Segment'', PhaseExecution),
     (''fastfwd'', ''Fast Forward'', ''Segment'', PhaseExecution),
     (''segment'', ''Segment'', ''Segment'', PhaseBase),
     (''leaf'', ''Leaf Aggregation'', ''Leaf Aggregation'', PhaseRecursion),
     (''internal'', ''Internal Aggregation'', ''Internal Aggregation'', PhaseRecursion),
     (''wrap'', ''Wrap'', ''Internal Aggregation'', PhaseWrap)]"

definition openvm_pipelineBreakdown :: "(string \<times> string) list" where
  "openvm_pipelineBreakdown =
    [(''Execute Preflight'', ''execute_preflight_time_ms''),
     (''Postflight'', ''postflight_time_ms''),
     (''Trace Gen'', ''trace_gen_time_ms''),
     (''Main Trace Commit'', ''prover.main_trace_commit_time_ms''),
     (''LogUp GKR'', ''prover.rap_constraints.logup_gkr_time_ms''),
     (''Sumcheck Round 0'', ''prover.rap_constraints.round0_time_ms''),
     (''Sumcheck MLE Rounds'', ''prover.rap_constraints.mle_rounds_time_ms''),
     (''Openings'', ''prover.openings_time_ms'')]"

definition openvm_breakdownLabels :: "string list" where
  "openvm_breakdownLabels = map fst openvm_pipelineBreakdown @ [NetworkTransportLabel]"

section \<open>Reading one result\<close>

text \<open>\<open>math.Round\<close>: to the nearest integer, halves away from zero.\<close>

definition math_round :: "rat \<Rightarrow> int" where
  "math_round x = (if 0 \<le> x then \<lfloor>x + 1 / 2\<rfloor> else \<lceil>x - 1 / 2\<rceil>)"

definition openvm_mapBreakdown :: "(string \<rightharpoonup> rat) \<Rightarrow> (int \<times> int) list" where
  "openvm_mapBreakdown m =
     List.map_filter (\<lambda>(index, entry).
       case m (snd entry) of Some v \<Rightarrow> Some (int index, math_round v) | None \<Rightarrow> None)
       (indexed openvm_pipelineBreakdown)"

definition withTransport :: "(int \<times> int) list \<Rightarrow> int \<Rightarrow> (int \<times> int) list" where
  "withTransport bd transportMs =
     (if transportMs = 0 then bd else bd @ [(int (length openvm_pipelineBreakdown), transportMs)])"

definition openvm_networkTransportMs :: "view_timing \<Rightarrow> int" where
  "openvm_networkTransportMs v =
     cluster_networkTransportMs (if dispatched_at v \<noteq> 0 then dispatched_at v else worker_start v)
       (worker_start v) (worker_end v) (completed_at v)"

definition segmentRange :: "view_timing \<Rightarrow> string" where
  "segmentRange v = itoa (segment_start v) @ ''-'' @ itoa (segment_end v)"

definition workerHost :: "(string \<Rightarrow> string option) \<Rightarrow> string \<Rightarrow> string" where
  "workerHost parse url = (case parse url of None \<Rightarrow> url | Some host \<Rightarrow> host)"

definition worker_cmp :: "worker_registration \<Rightarrow> worker_registration \<Rightarrow> int" where
  "worker_cmp a b = cmp_compare (wr_id a) (wr_id b)"

definition openvm_mapRegistrations ::
  "(string \<Rightarrow> string option) \<Rightarrow> worker_registration list \<Rightarrow> int registration list" where
  "openvm_mapRegistrations parse rs =
     map (\<lambda>r. \<lparr>r_key = wr_id r, r_name = ''worker_'' @ itoa (wr_id r), r_host = workerHost parse (wr_url r)\<rparr>)
       (sort_stable worker_cmp rs)"

interpretation worker_order: key_comparator worker_cmp wr_id
  by unfold_locales (simp add: worker_cmp_def)

section \<open>Placing the results\<close>

definition place_app :: "int \<Rightarrow> view_timing \<Rightarrow> int builder \<Rightarrow> int builder" where
  "place_app proofStartMs v b =
     (let ident = ''#'' @ itoa (segment_start v);
          endMs = i64 (completed_at v - proofStartMs);
          transportMs = openvm_networkTransportMs v;
          durationMs = (if dispatched_at v = 0
            then i64 (completed_at v - worker_start v - fast_forward v)
            else i64 (stark_prove v + transportMs));
          (segmentStartMs, b1) = place ov_kindSegment (vt_worker v) ident endMs durationMs
            (withTransport (openvm_mapBreakdown (sub_metrics v)) transportMs) b;
          (fastForwardStartMs, b2) = place ov_kindFastForward (vt_worker v) ident segmentStartMs
            (fast_forward v) [] b1
      in snd (place ov_kindExecution (vt_worker v) ident (i64 (fastForwardStartMs - queue_wait v))
           (metered_time v) [] b2))"

definition place_leaf :: "int \<Rightarrow> view_timing \<Rightarrow> int builder \<Rightarrow> int builder" where
  "place_leaf proofStartMs v b =
     snd (place ov_kindLeaf (vt_worker v) (segmentRange v) (i64 (completed_at v - proofStartMs))
       (i64 (completed_at v - dispatched_at v))
       (withTransport (openvm_mapBreakdown (sub_metrics v)) (openvm_networkTransportMs v)) b)"

definition place_internal :: "int \<Rightarrow> view_timing \<Rightarrow> int builder \<Rightarrow> int builder" where
  "place_internal proofStartMs v b =
     (let ident = ''L'' @ itoa (layer_index v) @ '' '' @ segmentRange v;
          endMs = i64 (completed_at v - proofStartMs);
          wrapStartMs = i64 (endMs - compression v);
          b1 = snd (place ov_kindInternal (vt_worker v) ident wrapStartMs
            (i64 (wrapStartMs - i64 (dispatched_at v - proofStartMs)))
            (withTransport (openvm_mapBreakdown (sub_metrics v)) (openvm_networkTransportMs v)) b)
      in snd (place ov_kindWrap (vt_worker v) ident endMs (compression v)
           (openvm_mapBreakdown (wrap_sub_metrics v)) b1))"

definition openvm_mapPipeline ::
  "(string \<Rightarrow> string option) \<Rightarrow> pipeline_view \<Rightarrow> worker_registration list \<Rightarrow> int + pipeline" where
  "openvm_mapPipeline parse view rs =
     (let b0 = newPipelineBuilder (openvm_mapRegistrations parse rs);
          s = view_start view;
          b1 = fold (place_app s) (app_proofs view) b0;
          b2 = fold (place_leaf s) (leaf_proofs view) b1;
          b3 = fold (place_internal s) (internal_proofs view) b2
      in finish_pipeline openvm_pipelineKinds openvm_breakdownLabels b3)"

section \<open>The placements of a result\<close>

definition bar_start :: "int \<Rightarrow> int \<Rightarrow> int" where
  "bar_start e d = (let s = max (i64 (e - d)) 0 in if max e 0 \<le> s then max e 0 else s)"

lemma fst_place: "fst (place kd w i e d bd b) = bar_start e d"
  by (simp add: place_def bar_start_def Let_def)

lemma bar_start_range: "0 \<le> bar_start e d" "bar_start e d \<le> max e 0"
  by (simp_all add: bar_start_def Let_def max_def)

lemma in_i64_bar_start: "in_i64 e \<Longrightarrow> in_i64 (bar_start e d)"
  by (simp add: bar_start_def Let_def)

definition segment_placement :: "int \<Rightarrow> view_timing \<Rightarrow> int placement" where
  "segment_placement s v = \<lparr>p_kind = ov_kindSegment, p_worker = vt_worker v, p_id = ''#'' @ itoa (segment_start v),
     p_end = i64 (completed_at v - s),
     p_duration = (if dispatched_at v = 0 then i64 (completed_at v - worker_start v - fast_forward v)
       else i64 (stark_prove v + openvm_networkTransportMs v)),
     p_breakdown = withTransport (openvm_mapBreakdown (sub_metrics v)) (openvm_networkTransportMs v)\<rparr>"

definition fast_forward_placement :: "int \<Rightarrow> view_timing \<Rightarrow> int placement" where
  "fast_forward_placement s v = \<lparr>p_kind = ov_kindFastForward, p_worker = vt_worker v,
     p_id = ''#'' @ itoa (segment_start v),
     p_end = bar_start (p_end (segment_placement s v)) (p_duration (segment_placement s v)),
     p_duration = fast_forward v, p_breakdown = []\<rparr>"

definition execution_placement :: "int \<Rightarrow> view_timing \<Rightarrow> int placement" where
  "execution_placement s v = \<lparr>p_kind = ov_kindExecution, p_worker = vt_worker v,
     p_id = ''#'' @ itoa (segment_start v),
     p_end = i64 (bar_start (p_end (fast_forward_placement s v)) (fast_forward v) - queue_wait v),
     p_duration = metered_time v, p_breakdown = []\<rparr>"

definition leaf_placement :: "int \<Rightarrow> view_timing \<Rightarrow> int placement" where
  "leaf_placement s v = \<lparr>p_kind = ov_kindLeaf, p_worker = vt_worker v, p_id = segmentRange v,
     p_end = i64 (completed_at v - s), p_duration = i64 (completed_at v - dispatched_at v),
     p_breakdown = withTransport (openvm_mapBreakdown (sub_metrics v)) (openvm_networkTransportMs v)\<rparr>"

definition internal_placement :: "int \<Rightarrow> view_timing \<Rightarrow> int placement" where
  "internal_placement s v = \<lparr>p_kind = ov_kindInternal, p_worker = vt_worker v,
     p_id = ''L'' @ itoa (layer_index v) @ '' '' @ segmentRange v,
     p_end = i64 (i64 (completed_at v - s) - compression v),
     p_duration = i64 (i64 (i64 (completed_at v - s) - compression v) - i64 (dispatched_at v - s)),
     p_breakdown = withTransport (openvm_mapBreakdown (sub_metrics v)) (openvm_networkTransportMs v)\<rparr>"

definition wrap_placement :: "int \<Rightarrow> view_timing \<Rightarrow> int placement" where
  "wrap_placement s v = \<lparr>p_kind = ov_kindWrap, p_worker = vt_worker v,
     p_id = ''L'' @ itoa (layer_index v) @ '' '' @ segmentRange v,
     p_end = i64 (completed_at v - s), p_duration = compression v,
     p_breakdown = openvm_mapBreakdown (wrap_sub_metrics v)\<rparr>"

definition openvm_placements :: "pipeline_view \<Rightarrow> int placement list" where
  "openvm_placements view = (let s = view_start view in
     concat (map (\<lambda>v. [segment_placement s v, fast_forward_placement s v, execution_placement s v]) (app_proofs view))
     @ map (leaf_placement s) (leaf_proofs view)
     @ concat (map (\<lambda>v. [internal_placement s v, wrap_placement s v]) (internal_proofs view)))"

lemma place_app_eq:
  "place_app s v = place_all [segment_placement s v, fast_forward_placement s v, execution_placement s v]"
  by (rule ext)
    (simp add: place_app_def place1_def segment_placement_def fast_forward_placement_def
      execution_placement_def case_prod_unfold fst_place Let_def)

lemma place_leaf_eq: "place_leaf s v = place_all [leaf_placement s v]"
  by (rule ext) (simp add: place_leaf_def place1_def leaf_placement_def)

lemma place_internal_eq: "place_internal s v = place_all [internal_placement s v, wrap_placement s v]"
  by (rule ext) (simp add: place_internal_def place1_def internal_placement_def wrap_placement_def Let_def)

lemma fold_place_all: "fold (\<lambda>v. place_all (f v)) vs b = place_all (concat (map f vs)) b"
  by (induction vs arbitrary: b) (simp_all add: place_all_append)

lemma openvm_mapPipeline_eq:
  "openvm_mapPipeline parse view rs =
    finish_pipeline openvm_pipelineKinds openvm_breakdownLabels
      (place_all (openvm_placements view) (newPipelineBuilder (openvm_mapRegistrations parse rs)))"
  by (simp add: openvm_mapPipeline_def openvm_placements_def Let_def place_app_eq [abs_def]
      place_leaf_eq [abs_def] place_internal_eq [abs_def] fold_place_all place_all_append
      concat_map_singleton)

lemma openvm_placements_in_i64: "p \<in> set (openvm_placements view) \<Longrightarrow> in_i64 (p_end p)"
  by (auto simp: openvm_placements_def Let_def segment_placement_def fast_forward_placement_def
      execution_placement_def leaf_placement_def internal_placement_def wrap_placement_def
      in_i64_bar_start)

section \<open>The timeline\<close>


lemma bar_end: "bar ix p = Some t \<Longrightarrow> t_start t + t_duration t = p_end p
    \<and> t_start t = bar_start (p_end p) (p_duration p) \<and> 0 < p_end p"
  by (auto simp: bar_def bar_start_def Let_def split: if_splits)

text \<open>The bars one result draws on one row never overlap. Those of an app segment follow each
  other from the metering over the fast forward to the segment, and a wrap starts where its internal
  aggregation has ended, whatever the stamps are.\<close>

lemma openvm_bars_disjoint:
  assumes "0 \<le> queue_wait v" "in_i64 (queue_wait v)"
  shows "sorted_wrt (\<lambda>a b. t_start b + t_duration b \<le> t_start a) (List.map_filter (bar ix)
      [segment_placement s v, fast_forward_placement s v, execution_placement s v])
    \<and> sorted_wrt (\<lambda>a b. t_start a + t_duration a \<le> t_start b) (List.map_filter (bar ix)
      [internal_placement s v, wrap_placement s v])"
proof -
  let ?sg = "segment_placement s v" and ?ff = "fast_forward_placement s v"
    and ?ex = "execution_placement s v"
  let ?segStart = "bar_start (p_end ?sg) (p_duration ?sg)" and ?ffStart = "bar_start (p_end ?ff) (p_duration ?ff)"
  have ff: "p_end ?ff = ?segStart" "p_duration ?ff = fast_forward v"
    by (simp_all add: fast_forward_placement_def)
  have "0 \<le> ?segStart" "in_i64 ?segStart"
    by (simp_all add: bar_start_range in_i64_bar_start segment_placement_def)
  then have ffs: "?ffStart \<le> ?segStart" "0 \<le> ?ffStart" "in_i64 ?ffStart"
    using bar_start_range [of ?segStart "fast_forward v"]
    by (auto simp: ff in_i64_bar_start)
  then have "in_i64 (?ffStart - queue_wait v)" using assms by (simp add: in_i64_def)
  then have ex: "p_end ?ex \<le> ?ffStart"
    using assms by (simp add: execution_placement_def ff i64_id)
  have "t_start b + t_duration b \<le> t_start a" if "bar ix ?sg = Some a" "bar ix ?ff = Some b" for a b
    using bar_end [OF that(1)] bar_end [OF that(2)] ff by simp
  moreover have "t_start b + t_duration b \<le> t_start a" if "bar ix ?sg = Some a" "bar ix ?ex = Some b" for a b
    using bar_end [OF that(1)] bar_end [OF that(2)] ffs ex by simp
  moreover have "t_start b + t_duration b \<le> t_start a" if "bar ix ?ff = Some a" "bar ix ?ex = Some b" for a b
    using bar_end [OF that(1)] bar_end [OF that(2)] ex by simp
  moreover have "t_start a + t_duration a \<le> t_start b"
    if "bar ix (internal_placement s v) = Some a" "bar ix (wrap_placement s v) = Some b" for a b
  proof -
    have "p_end (internal_placement s v) = i64 (p_end (wrap_placement s v) - p_duration (wrap_placement s v))"
      by (simp add: internal_placement_def wrap_placement_def)
    with bar_end [OF that(1)] that(2) show ?thesis
      by (auto simp: bar_def Let_def split: if_splits)
  qed
  ultimately show ?thesis by (auto simp: List.map_filter_simps split: option.split)
qed

definition sample_timing :: view_timing where
  "sample_timing = \<lparr>vt_worker = 0, dispatched_at = 0, worker_start = 100, worker_end = 380, completed_at = 400,
     segment_start = 0, segment_end = 1, layer_index = 0, queue_wait = 10, metered_time = 20,
     fast_forward = 30, stark_prove = 200, compression = 50, sub_metrics = Map.empty,
     wrap_sub_metrics = Map.empty\<rparr>"

lemma openvm_bars_disjoint_witness:
  "sorted_wrt (\<lambda>a b. t_start b + t_duration b \<le> t_start a) (List.map_filter (bar (\<lambda>_. Some 0))
      [segment_placement 0 sample_timing, fast_forward_placement 0 sample_timing,
       execution_placement 0 sample_timing])"
proof -
  have "0 \<le> queue_wait sample_timing" "in_i64 (queue_wait sample_timing)"
    by (simp_all add: sample_timing_def in_i64_def)
  from openvm_bars_disjoint [OF this] show ?thesis by blast
qed

section \<open>The sections of a bar\<close>

lemma math_round_near: "\<bar>of_int (math_round x) - x\<bar> \<le> 1 / 2"
proof (cases "0 \<le> x")
  case True
  have "- (1 / 2) \<le> of_int \<lfloor>x + 1 / 2\<rfloor> - x" "of_int \<lfloor>x + 1 / 2\<rfloor> - x \<le> 1 / 2" by linarith+
  with True show ?thesis unfolding math_round_def by (simp only: if_True abs_le_iff minus_le_iff)
next
  case False
  have "- (1 / 2) \<le> of_int \<lceil>x - 1 / 2\<rceil> - x" "of_int \<lceil>x - 1 / 2\<rceil> - x \<le> 1 / 2" by linarith+
  with False show ?thesis unfolding math_round_def by (simp only: if_False abs_le_iff minus_le_iff)
qed

text \<open>The sections of a bar index the labels in label order, one per reported sub metric and
  none for one the task lacks, each rounded to a nearest whole millisecond; the transport comes last
  and only where there is one.\<close>

lemma openvm_sections:
  "sorted_wrt (<) (map fst (withTransport (openvm_mapBreakdown m) ms))
   \<and> (\<forall>i ms'. (i, ms') \<in> set (withTransport (openvm_mapBreakdown m) ms) \<longleftrightarrow>
        (i = 8 \<and> ms' = ms \<and> ms \<noteq> 0)
        \<or> (\<exists>n < 8. i = int n \<and> (\<exists>v. m (snd (openvm_pipelineBreakdown ! n)) = Some v \<and> ms' = math_round v)))
   \<and> \<bar>of_int (math_round x) - x\<bar> \<le> 1 / 2"
proof -
  let ?h = "\<lambda>(index, entry). case m (snd entry) of Some v \<Rightarrow> Some (int index, math_round v) | None \<Rightarrow> None"
  have h: "\<forall>i e k v. ?h (i, e) = Some (k, v) \<longrightarrow> k = int (0 + i)" by (auto split: option.splits)
  have len: "length openvm_pipelineBreakdown = 8" by (simp add: openvm_pipelineBreakdown_def)
  from map_filter_indexed_keys [OF h, of openvm_pipelineBreakdown]
  have srt: "sorted_wrt (<) (map fst (openvm_mapBreakdown m))"
    and rng: "\<forall>k \<in> set (map fst (openvm_mapBreakdown m)). k < 8"
    by (auto simp: openvm_mapBreakdown_def len)
  have mem: "(i, ms') \<in> set (openvm_mapBreakdown m) \<longleftrightarrow>
      (\<exists>n < 8. i = int n \<and> (\<exists>v. m (snd (openvm_pipelineBreakdown ! n)) = Some v \<and> ms' = math_round v))" for i ms'
  proof -
    have "(i, ms') \<in> set (openvm_mapBreakdown m)
        \<longleftrightarrow> (\<exists>q \<in> set (indexed openvm_pipelineBreakdown). ?h q = Some (i, ms'))"
      unfolding openvm_mapBreakdown_def by (rule in_map_filter)
    also have "\<dots> \<longleftrightarrow> (\<exists>n < 8. ?h (n, openvm_pipelineBreakdown ! n) = Some (i, ms'))"
      unfolding bex_indexed len ..
    moreover have "?h (n, e) = Some (i, ms') \<longleftrightarrow> i = int n \<and> (\<exists>v. m (snd e) = Some v \<and> ms' = math_round v)"
      for n and e :: "string \<times> string"
      by (auto split: option.splits)
    ultimately show ?thesis by simp
  qed
  have "sorted_wrt (<) (map fst (withTransport (openvm_mapBreakdown m) ms))"
    using srt rng by (auto simp: withTransport_def sorted_wrt_append len)
  moreover have "(i, ms') \<in> set (withTransport (openvm_mapBreakdown m) ms) \<longleftrightarrow>
      (i = 8 \<and> ms' = ms \<and> ms \<noteq> 0) \<or> (i, ms') \<in> set (openvm_mapBreakdown m)" for i ms'
    by (auto simp: withTransport_def len)
  ultimately show ?thesis by (simp only: mem math_round_near simp_thms)
qed

end
