(* ===== verification/Openvm_Client.thy ===== *)
theory Openvm_Client
  imports Runtime Verifier Framing Wire_Text Openvm_Pipeline
begin

text \<open>
  \<open>internal/openvm/client.go\<close>: submitting a proof to the edge-manager, following its status
  stream, and fetching, verifying and describing the result. The manager is the service
  \<open>srv\<close>, which answers the requests of the API; Go's JSON decoders of the replies are the
  record \<open>js\<close>, whose list for a map is in the order Go ranges over it, and \<open>parse\<close> is
  the host of a URL as in \<open>Openvm_Pipeline\<close>. \<open>draw\<close> is the random identifier of
  \<open>newProofUUID\<close>. An error wraps what the code wraps and keeps the class
  \<open>errors.Is\<close> looks for. A latency is an exact rational number of milliseconds, truncated to
  nanoseconds as the conversion does.
\<close>

section \<open>The API\<close>

datatype openvm_request =
    Get_vk string
  | Get_readyz
  | Post_upload string bytes
  | Post_start string string
  | Get_events string
  | Get_proof_state string
  | Get_proof_pipeline string
  | Get_workers
  | Get_proof string
  | Post_cancel string

text \<open>A reply is a status, a body and whether reading the body failed at its end.\<close>

datatype http_reply =
    No_reply
  | Reply nat string bool

record openvm_json =
  js_string :: "string \<Rightarrow> string option"
  js_tagged :: "string \<Rightarrow> (string \<times> string) list option"
  js_latency :: "string \<Rightarrow> rat option option"
  js_view :: "string \<Rightarrow> pipeline_view option"
  js_workers :: "string \<Rightarrow> worker_registration list option"

datatype openvm_error =
    Cluster_unreachable
  | Cluster_busy string
  | Cluster_not_ready string
  | Program_not_in_loadout string
  | Upload_status nat string
  | Start_status nat string
  | Submission_timed_out openvm_error
  | Proof_timed_out string openvm_error
  | Proof_was_cancelled string
  | Proof_failed string string
  | Stream_refused nat string
  | Stream_dropped
  | Stream_line_too_long
  | Status_unparsed string
  | Status_empty string
  | Streaming string openvm_error
  | Context_ended
  | No_http_reply
  | Http_status nat string
  | Body_broken
  | Json_error
  | Reading_state string openvm_error
  | No_latency string
  | Reading_pipeline string openvm_error
  | Reading_workers openvm_error
  | Pipeline_worker int
  | Downloading string openvm_error
  | Client_is_closed
  | Decoding_envelope ere_error
  | Verifying_proof ere_error
  | Running_verifier ere_error
  | Proof_error string openvm_error
  | Binding_verifier ere_error
  | Fetching_vk string openvm_error
  | Other_program string

record 'h openvm_client =
  program_name :: string
  oc_verifier :: "'h verifier"

type_synonym 'w openvm_machine = "(openvm_request, 'w) machine"
type_synonym 'w manager = "(openvm_request, http_reply, 'w) service"

section \<open>Submitting\<close>

definition ok_status :: "nat \<Rightarrow> bool" where
  "ok_status code \<longleftrightarrow> 200 \<le> code \<and> code \<le> 299"

definition classifyStartError :: "nat \<Rightarrow> string \<Rightarrow> openvm_error" where
  "classifyStartError code body =
     (if code = 409 \<and> contains_str ''program_not_in_loadout'' body then Program_not_in_loadout body
      else if code = 409 then Cluster_busy body
      else if code = 503 then Cluster_not_ready body
      else if code = 500 \<and> (contains_str ''failed to accept work'' body \<or> contains_str ''upload input to workers'' body)
      then Cluster_not_ready body
      else Start_status code body)"

definition uploadInput ::
  "'w manager \<Rightarrow> ctx \<Rightarrow> string \<Rightarrow> bytes \<Rightarrow> 'w openvm_machine \<Rightarrow> (openvm_error + unit) \<times> 'w openvm_machine" where
  "uploadInput srv c uuid input m =
     (case call srv c (Post_upload uuid (openvm_framedStdin input)) m of
        (No_reply, m1) \<Rightarrow> (Inl Cluster_unreachable, m1)
      | (Reply code body broken, m1) \<Rightarrow>
          if code = 503 then (Inl (Cluster_not_ready (readBody body)), m1)
          else if \<not> ok_status code then (Inl (Upload_status code (readBody body)), m1)
          else (Inr (), m1))"

definition startProof ::
  "'w manager \<Rightarrow> string \<Rightarrow> ctx \<Rightarrow> string \<Rightarrow> 'w openvm_machine \<Rightarrow> (openvm_error + unit) \<times> 'w openvm_machine" where
  "startProof srv program c uuid m =
     (case call srv c (Post_start uuid program) m of
        (No_reply, m1) \<Rightarrow> (Inl Cluster_unreachable, m1)
      | (Reply code body broken, m1) \<Rightarrow>
          if ok_status code then (Inr (), m1) else (Inl (classifyStartError code (readBody body)), m1))"

definition newProofUUID :: "('w \<Rightarrow> bytes \<times> 'w) \<Rightarrow> 'w openvm_machine \<Rightarrow> string \<times> 'w openvm_machine" where
  "newProofUUID draw m = (case draw (env m) of (raw, w) \<Rightarrow> (hex_encode raw, m\<lparr>env := w\<rparr>))"

definition submit_attempt ::
  "'w manager \<Rightarrow> ('w \<Rightarrow> bytes \<times> 'w) \<Rightarrow> string \<Rightarrow> ctx \<Rightarrow> bytes \<Rightarrow> int \<Rightarrow> 'w openvm_machine
    \<Rightarrow> (openvm_error + (string \<times> int)) \<times> 'w openvm_machine" where
  "submit_attempt srv draw program c input started m =
     (let submitWait = clock m - started;
          (uuid, m0) = newProofUUID draw m
      in case uploadInput srv c uuid input m0 of
           (Inl e, m1) \<Rightarrow> (Inl e, m1)
         | (Inr _, m1) \<Rightarrow>
             (case startProof srv program c uuid m1 of
                (Inl e, m2) \<Rightarrow> (Inl e, m2)
              | (Inr _, m2) \<Rightarrow> (Inr (uuid, submitWait), m2)))"

fun recoverable :: "openvm_error \<Rightarrow> bool" where
  "recoverable Cluster_unreachable = True"
| "recoverable (Cluster_busy _) = True"
| "recoverable (Cluster_not_ready _) = True"
| "recoverable _ = False"

definition submit_handle :: "openvm_error \<Rightarrow> 'w openvm_machine \<Rightarrow> openvm_error option \<times> 'w openvm_machine" where
  "submit_handle e m = (if recoverable e then None else Some e, m)"

definition openvm_submitRetryInterval :: int where "openvm_submitRetryInterval = 5 * second"

definition submit_error :: "openvm_error gave_up \<Rightarrow> openvm_error" where
  "submit_error g = (case g of Permanent e \<Rightarrow> e | Expired e \<Rightarrow> Submission_timed_out e)"

definition submitProof ::
  "nat \<Rightarrow> 'w manager \<Rightarrow> ('w \<Rightarrow> bytes \<times> 'w) \<Rightarrow> string \<Rightarrow> ctx \<Rightarrow> bytes \<Rightarrow> 'w openvm_machine
    \<Rightarrow> ((openvm_error + (string \<times> int)) \<times> 'w openvm_machine) option" where
  "submitProof fuel srv draw program c input m =
     map_option (\<lambda>(r, m'). (rmap_err submit_error r, m'))
       (retry fuel (submit_attempt srv draw program c input (clock m)) submit_handle c
          openvm_submitRetryInterval m)"

section \<open>Following the status\<close>

definition settled :: "string \<Rightarrow> bool" where
  "settled st \<longleftrightarrow> st \<in> {''completed'', ''failed'', ''canceled''}"

definition parseProofStatus :: "openvm_json \<Rightarrow> string \<Rightarrow> openvm_error + (string \<times> string)" where
  "parseProofStatus js data =
     (case js_string js data of
        Some plain \<Rightarrow> Inr (plain, [])
      | None \<Rightarrow>
          (case js_tagged js data of
             None \<Rightarrow> Inl (Status_unparsed data)
           | Some [] \<Rightarrow> Inl (Status_empty data)
           | Some (p # _) \<Rightarrow> Inr p))"

text \<open>The loop over the scanned lines: the settled status with its reason, two empty strings where
  the lines end first.\<close>

fun event_lines ::
  "openvm_json \<Rightarrow> string \<Rightarrow> string \<Rightarrow> string list \<Rightarrow> 'w openvm_machine
    \<Rightarrow> (openvm_error + (string \<times> string)) \<times> 'w openvm_machine" where
  "event_lines js event data [] m = (Inr ([], []), m)"
| "event_lines js event data (line # ls) m =
     (if line = [] then
        (if event = ''status'' \<and> data \<noteq> [] then
           (case parseProofStatus js data of
              Inl e \<Rightarrow> (Inl e, m)
            | Inr (st, reason) \<Rightarrow>
                if settled st then (Inr (st, reason), m)
                else event_lines js [] [] ls (on_phase st m))
         else event_lines js [] [] ls m)
      else if has_prefix ''event:'' line
      then event_lines js (trim_space (trim_prefix ''event:'' line)) data ls m
      else if has_prefix ''data:'' line
      then event_lines js event (trim_space (trim_prefix ''data:'' line)) ls m
      else event_lines js event data ls m)"

definition maxScanTokenSize :: nat where "maxScanTokenSize = 64 * 1024"

definition streamStatus ::
  "'w manager \<Rightarrow> openvm_json \<Rightarrow> ctx \<Rightarrow> string \<Rightarrow> 'w openvm_machine
    \<Rightarrow> (openvm_error + (string \<times> string)) \<times> 'w openvm_machine" where
  "streamStatus srv js c uuid m =
     (case call srv c (Get_events uuid) m of
        (No_reply, m1) \<Rightarrow> (Inl No_http_reply, m1)
      | (Reply code body broken, m1) \<Rightarrow>
          if code \<noteq> 200 then (Inl (Stream_refused code (readBody body)), m1)
          else (case scan_lines maxScanTokenSize body of (ls, long) \<Rightarrow>
            (case event_lines js [] [] ls m1 of
               (Inl e, m2) \<Rightarrow> (Inl e, m2)
             | (Inr (st, reason), m2) \<Rightarrow>
                 if st \<noteq> [] then (Inr (st, reason), m2)
                 else if long then (Inl Stream_line_too_long, m2)
                 else if broken then (Inl Stream_dropped, m2)
                 else (Inr ([], []), m2))))"

definition statusStreamReconnectDelay :: int where "statusStreamReconnectDelay = second"

definition expired :: "string \<Rightarrow> openvm_error option \<Rightarrow> openvm_error" where
  "expired uuid lastErr = (case lastErr of Some e \<Rightarrow> Streaming uuid e | None \<Rightarrow> Context_ended)"

fun is_refused :: "openvm_error \<Rightarrow> bool" where
  "is_refused (Stream_refused _ _) = True"
| "is_refused _ = False"

fun awaitSettled ::
  "nat \<Rightarrow> 'w manager \<Rightarrow> openvm_json \<Rightarrow> ctx \<Rightarrow> string \<Rightarrow> openvm_error option \<Rightarrow> 'w openvm_machine
    \<Rightarrow> ((openvm_error + (string \<times> string)) \<times> 'w openvm_machine) option" where
  "awaitSettled 0 srv js c uuid lastErr m = None"
| "awaitSettled (Suc fuel) srv js c uuid lastErr m =
     (case streamStatus srv js c uuid m of (r, m1) \<Rightarrow>
        let err = (case r of Inl e \<Rightarrow> Some e | Inr _ \<Rightarrow> None);
            st = (case r of Inl _ \<Rightarrow> [] | Inr (st, _) \<Rightarrow> st);
            lastErr1 = (if err = None then lastErr else err)
        in if err = None \<and> st \<noteq> [] then Some (r, m1)
           else if err \<noteq> None \<and> is_refused (the err) then Some (Inl (Streaming uuid (the err)), m1)
           else if ctx_done c (clock m1) then Some (Inl (expired uuid lastErr), m1)
           else (case sleep c statusStreamReconnectDelay m1 of
                   (False, m2) \<Rightarrow> Some (Inl (expired uuid lastErr1), m2)
                 | (True, m2) \<Rightarrow> awaitSettled fuel srv js c uuid lastErr1 m2))"

section \<open>Fetching the result\<close>

definition fetchBody ::
  "'w manager \<Rightarrow> ctx \<Rightarrow> openvm_request \<Rightarrow> 'w openvm_machine \<Rightarrow> (openvm_error + string \<times> bool) \<times> 'w openvm_machine" where
  "fetchBody srv c q m =
     (case call srv c q m of
        (No_reply, m1) \<Rightarrow> (Inl No_http_reply, m1)
      | (Reply code body broken, m1) \<Rightarrow>
          if code \<noteq> 200 then (Inl (Http_status code (readBody body)), m1) else (Inr (body, broken), m1))"

definition fetchJSON ::
  "'w manager \<Rightarrow> ctx \<Rightarrow> openvm_request \<Rightarrow> (string \<Rightarrow> 'v option) \<Rightarrow> 'w openvm_machine
    \<Rightarrow> (openvm_error + 'v) \<times> 'w openvm_machine" where
  "fetchJSON srv c q decode m =
     (case fetchBody srv c q m of
        (Inl e, m1) \<Rightarrow> (Inl e, m1)
      | (Inr (body, _), m1) \<Rightarrow> (case decode body of None \<Rightarrow> (Inl Json_error, m1) | Some v \<Rightarrow> (Inr v, m1)))"

text \<open>The conversion of a float to a \<open>Duration\<close> truncates toward zero.\<close>

definition truncate_rat :: "rat \<Rightarrow> int" where
  "truncate_rat x = (if 0 \<le> x then \<lfloor>x\<rfloor> else \<lceil>x\<rceil>)"

definition proofLatency ::
  "'w manager \<Rightarrow> openvm_json \<Rightarrow> ctx \<Rightarrow> string \<Rightarrow> 'w openvm_machine \<Rightarrow> (openvm_error + int) \<times> 'w openvm_machine" where
  "proofLatency srv js c uuid m =
     (case fetchJSON srv c (Get_proof_state uuid) (js_latency js) m of
        (Inl e, m1) \<Rightarrow> (Inl (Reading_state uuid e), m1)
      | (Inr None, m1) \<Rightarrow> (Inl (No_latency uuid), m1)
      | (Inr (Some ms), m1) \<Rightarrow> (Inr (truncate_rat (ms * 1000000)), m1))"

definition proofPipeline ::
  "'w manager \<Rightarrow> openvm_json \<Rightarrow> (string \<Rightarrow> string option) \<Rightarrow> ctx \<Rightarrow> string \<Rightarrow> 'w openvm_machine
    \<Rightarrow> (openvm_error + pipeline) \<times> 'w openvm_machine" where
  "proofPipeline srv js parse c uuid m =
     (case fetchJSON srv c (Get_proof_pipeline uuid) (js_view js) m of
        (Inl e, m1) \<Rightarrow> (Inl (Reading_pipeline uuid e), m1)
      | (Inr view, m1) \<Rightarrow>
          (case fetchJSON srv c Get_workers (js_workers js) m1 of
             (Inl e, m2) \<Rightarrow> (Inl (Reading_workers e), m2)
           | (Inr rs, m2) \<Rightarrow> (rmap_err Pipeline_worker (openvm_mapPipeline parse view rs), m2)))"

definition downloadProof ::
  "'w manager \<Rightarrow> ctx \<Rightarrow> string \<Rightarrow> 'w openvm_machine \<Rightarrow> (openvm_error + bytes) \<times> 'w openvm_machine" where
  "downloadProof srv c uuid m =
     (case fetchBody srv c (Get_proof uuid) m of
        (Inl e, m1) \<Rightarrow> (Inl (Downloading uuid e), m1)
      | (Inr (body, broken), m1) \<Rightarrow>
          if broken then (Inl (Downloading uuid Body_broken), m1) else (Inr (bytes_of body), m1))"

definition openvm_verifyProof :: "'h ere_lib \<Rightarrow> 'h verifier \<Rightarrow> bytes \<Rightarrow> openvm_error + bytes" where
  "openvm_verifyProof lib v proof =
     (case ver_verify lib v proof of
        Inr values \<Rightarrow> Inr values
      | Inl e \<Rightarrow> Inl (if e = ErrDecodeProof then Decoding_envelope e
                   else if e = ErrVerify then Verifying_proof e else Running_verifier e))"

definition openvm_verify :: "'h ere_lib \<Rightarrow> 'h verifier \<Rightarrow> bytes \<Rightarrow> openvm_error + bytes" where
  "openvm_verify lib v proof = (if v = None then Inl Client_is_closed else openvm_verifyProof lib v proof)"

definition waitProof ::
  "nat \<Rightarrow> 'w manager \<Rightarrow> openvm_json \<Rightarrow> (string \<Rightarrow> string option) \<Rightarrow> 'h ere_lib \<Rightarrow> 'h verifier \<Rightarrow> ctx \<Rightarrow> string
    \<Rightarrow> 'w openvm_machine \<Rightarrow> ((openvm_error + prove_outcome) \<times> 'w openvm_machine) option" where
  "waitProof fuel srv js parse lib v c uuid m =
     (case awaitSettled fuel srv js c uuid None m of
        None \<Rightarrow> None
      | Some (Inl e, m1) \<Rightarrow> Some (Inl e, m1)
      | Some (Inr (st, reason), m1) \<Rightarrow> Some (
          if st = ''canceled'' then (Inl (Proof_was_cancelled uuid), m1)
          else if st \<noteq> ''completed'' then (Inl (Proof_failed uuid reason), m1)
          else (case proofLatency srv js c uuid m1 of
             (Inl e, m2) \<Rightarrow> (Inl e, m2)
           | (Inr latency, m2) \<Rightarrow>
               (case proofPipeline srv js parse c uuid m2 of
                  (Inl e, m3) \<Rightarrow> (Inl e, m3)
                | (Inr p, m3) \<Rightarrow>
                    (case downloadProof srv c uuid m3 of
                       (Inl e, m4) \<Rightarrow> (Inl e, m4)
                     | (Inr proof, m4) \<Rightarrow>
                         (case openvm_verify lib v proof of
                            Inl e \<Rightarrow> (Inl (Proof_error uuid e), m4)
                          | Inr values \<Rightarrow>
                              (Inr \<lparr>public_values = values, proof_bytes = int (length proof),
                                    cluster_proving_time = latency, submit_wait = 0,
                                    outcome_pipeline = Some p\<rparr>, m4)))))))"

section \<open>Proving\<close>

definition cancelProof :: "'w manager \<Rightarrow> ctx \<Rightarrow> string \<Rightarrow> 'w openvm_machine \<Rightarrow> 'w openvm_machine" where
  "cancelProof srv c uuid m = snd (call srv c (Post_cancel uuid) m)"

definition openvm_prove ::
  "nat \<Rightarrow> 'w manager \<Rightarrow> openvm_json \<Rightarrow> (string \<Rightarrow> string option) \<Rightarrow> 'h ere_lib \<Rightarrow> ('w \<Rightarrow> bytes \<times> 'w)
    \<Rightarrow> 'h openvm_client \<Rightarrow> ctx \<Rightarrow> bytes \<Rightarrow> 'w openvm_machine
    \<Rightarrow> ((openvm_error + prove_outcome) \<times> 'w openvm_machine) option" where
  "openvm_prove fuel srv js parse lib draw cl c input m =
     (case submitProof fuel srv draw (program_name cl) c input m of
        None \<Rightarrow> None
      | Some (Inl e, m1) \<Rightarrow> Some (Inl e, m1)
      | Some (Inr (uuid, submitWait), m1) \<Rightarrow>
          (case waitProof fuel srv js parse lib (oc_verifier cl) c uuid m1 of
             None \<Rightarrow> None
           | Some (Inl e, m2) \<Rightarrow>
               if ctx_done c (clock m2)
               then Some (Inl (Proof_timed_out uuid e),
                 cancelProof srv (with_timeout (without_cancel c) (10 * second) (clock m2)) uuid m2)
               else Some (Inl e, m2)
           | Some (Inr outcome, m2) \<Rightarrow> Some (Inr (outcome\<lparr>submit_wait := submitWait\<rparr>), m2)))"

definition readyPollInterval :: int where "readyPollInterval = 3 * second"

definition openvm_ready ::
  "'w manager \<Rightarrow> ctx \<Rightarrow> 'w openvm_machine \<Rightarrow> (openvm_error + unit) \<times> 'w openvm_machine" where
  "openvm_ready srv c m =
     (case call srv c Get_readyz m of
        (No_reply, m1) \<Rightarrow> (Inl No_http_reply, m1)
      | (Reply code body broken, m1) \<Rightarrow>
          if code \<noteq> 200 then (Inl (Cluster_not_ready (readBody body)), m1) else (Inr (), m1))"

definition wait_handle :: "openvm_error \<Rightarrow> 'w openvm_machine \<Rightarrow> openvm_error option \<times> 'w openvm_machine" where
  "wait_handle e m = (None, m)"

definition openvm_waitReady ::
  "nat \<Rightarrow> 'w manager \<Rightarrow> ctx \<Rightarrow> 'w openvm_machine \<Rightarrow> ((openvm_error + unit) \<times> 'w openvm_machine) option" where
  "openvm_waitReady fuel srv c m =
     map_option (\<lambda>(r, m'). (rmap_err (\<lambda>g. case g of Permanent e \<Rightarrow> e | Expired e \<Rightarrow> e) r, m'))
       (retry fuel (openvm_ready srv c) wait_handle c readyPollInterval m)"

section \<open>Dialing\<close>

definition programName :: "(bytes \<Rightarrow> bytes) \<Rightarrow> bytes \<Rightarrow> string" where
  "programName sha256 elf = ''program-'' @ hex_encode (List.take 8 (sha256 elf))"

definition fetchProgramVerifyingKey ::
  "'w manager \<Rightarrow> ctx \<Rightarrow> string \<Rightarrow> 'w openvm_machine \<Rightarrow> (openvm_error + bytes) \<times> 'w openvm_machine" where
  "fetchProgramVerifyingKey srv c program m =
     (case call srv c (Get_vk program) m of
        (No_reply, m1) \<Rightarrow> (Inl (Fetching_vk program No_http_reply), m1)
      | (Reply code body broken, m1) \<Rightarrow>
          if code = 200 then
            (if broken then (Inl (Fetching_vk program Body_broken), m1) else (Inr (bytes_of body), m1))
          else if code = 404 then (Inl (Program_not_in_loadout (readBody body)), m1)
          else (Inl (Fetching_vk program (Http_status code (readBody body))), m1))"

text \<open>\<open>Close\<close> frees the verifier and sets the pointer to nil; the freed handles are logged.\<close>

definition openvm_close :: "'h openvm_client \<Rightarrow> 'h list \<Rightarrow> 'h openvm_client \<times> 'h list" where
  "openvm_close cl freed = (cl\<lparr>oc_verifier := None\<rparr>, snd (ver_close (oc_verifier cl) freed))"

definition openvm_dial ::
  "'w manager \<Rightarrow> 'h ere_lib \<Rightarrow> (bytes \<Rightarrow> bytes) \<Rightarrow> ctx \<Rightarrow> bytes \<Rightarrow> bytes \<Rightarrow> 'h list \<Rightarrow> 'w openvm_machine
    \<Rightarrow> (openvm_error + 'h openvm_client) \<times> 'h list \<times> 'w openvm_machine" where
  "openvm_dial srv lib sha256 c elf programVK freed m =
     (let program = programName sha256 elf in
      case ver_new lib OpenVM programVK of
        Inl e \<Rightarrow> (Inl (Binding_verifier e), freed, m)
      | Inr v \<Rightarrow>
          (let cl = \<lparr>program_name = program, oc_verifier = v\<rparr> in
           case fetchProgramVerifyingKey srv c program m of
             (Inl e, m1) \<Rightarrow> (Inl e, snd (openvm_close cl freed), m1)
           | (Inr served, m1) \<Rightarrow>
               if served \<noteq> programVK then (Inl (Other_program program), snd (openvm_close cl freed), m1)
               else (Inr cl, freed, m1)))"

section \<open>What a submission does\<close>

definition submit_request :: "bytes \<Rightarrow> string \<Rightarrow> openvm_request \<Rightarrow> bool" where
  "submit_request input program q \<longleftrightarrow>
     (\<exists>u. q = Post_upload u (openvm_framedStdin input)) \<or> (\<exists>u. q = Post_start u program)"

lemma newProofUUID_keeps:
  "newProofUUID draw m = (u, m1) \<Longrightarrow> sent m1 = sent m \<and> clock m1 = clock m"
  by (auto simp: newProofUUID_def split: prod.splits)

lemma submit_attempt_Inr:
  assumes "submit_attempt srv draw program c input started m = (Inr (uuid, w), m')"
  shows "w = clock m - started \<and> clock m \<le> clock m'
    \<and> sent m' = sent m @ [Post_upload uuid (openvm_framedStdin input), Post_start uuid program]"
  using assms newProofUUID_keeps
  by (fastforce simp: submit_attempt_def uploadInput_def startProof_def call_def Let_def
      split: prod.splits http_reply.splits sum.splits if_splits)

lemma grows_submit_attempt:
  assumes "\<And>q. submit_request input program q \<Longrightarrow> P q"
  shows "grows P m (snd (submit_attempt srv draw program c input started m))"
proof -
  obtain uuid m0 where u: "newProofUUID draw m = (uuid, m0)" by force
  have g0: "grows P m m0" using newProofUUID_keeps [OF u] by (simp add: grows_def)
  obtain r1 m1 where c1: "call srv c (Post_upload uuid (openvm_framedStdin input)) m0 = (r1, m1)" by force
  have g1: "grows P m0 m1" using c1 by (rule grows_call_eq) (auto intro: assms simp: submit_request_def)
  obtain r2 m2 where c2: "call srv c (Post_start uuid program) m1 = (r2, m2)" by force
  have g2: "grows P m1 m2" using c2 by (rule grows_call_eq) (auto intro: assms simp: submit_request_def)
  have "snd (submit_attempt srv draw program c input started m) \<in> {m1, m2}"
    by (simp add: submit_attempt_def uploadInput_def startProof_def u c1 c2 Let_def
        split: http_reply.splits)
  with g0 g1 g2 show ?thesis by (auto intro: grows_trans)
qed

interpretation openvm_submit: paced "submit_attempt srv draw program c input started" submit_handle
  for srv draw program c input started
proof
  fix m
  show "clock m \<le> clock (snd (submit_attempt srv draw program c input started m))"
    by (rule grows_clock [OF grows_submit_attempt]) simp
  fix e
  show "clock m \<le> clock (snd (submit_handle e m))" by (simp add: submit_handle_def)
qed

interpretation openvm_wait: paced "openvm_ready srv c" wait_handle for srv c
proof
  fix m
  show "clock m \<le> clock (snd (openvm_ready srv c m))"
    by (auto simp: openvm_ready_def split: prod.splits http_reply.splits dest: call_clock)
  fix e
  show "clock m \<le> clock (snd (wait_handle e m))" by (simp add: wait_handle_def)
qed

lemma submit_handle_grows [simp]: "grows P m (snd (submit_handle e m))"
  by (simp add: submit_handle_def)

lemma submitProof_grows:
  assumes "submitProof fuel srv draw program c input m = Some (r, m')"
    and "\<And>q. submit_request input program q \<Longrightarrow> P q"
  shows "grows P m m'"
proof -
  from assms(1) obtain a where
    a: "retry fuel (submit_attempt srv draw program c input (clock m)) submit_handle c
      openvm_submitRetryInterval m = Some (a, m')"
    by (auto simp: submitProof_def)
  show ?thesis
    by (rule grows_retry [OF a grows_submit_attempt]) (auto intro: assms(2))
qed

lemma submitProof_Inr:
  assumes "submitProof fuel srv draw program c input m = Some (Inr (uuid, w), m')"
  shows "\<exists>pre. sent m' = sent m @ pre @ [Post_upload uuid (openvm_framedStdin input), Post_start uuid program]
    \<and> (\<forall>q \<in> set pre. submit_request input program q) \<and> 0 \<le> w \<and> clock m + w \<le> clock m'"
proof -
  let ?at = "submit_attempt srv draw program c input (clock m)"
  from assms have "retry fuel ?at submit_handle c openvm_submitRetryInterval m = Some (Inr (uuid, w), m')"
    by (auto simp: submitProof_def rmap_err_Inr_iff)
  then have "\<exists>m1. grows (submit_request input program) m m1 \<and> ?at m1 = (Inr (uuid, w), m')"
  proof (rule retry_Inr_from)
    show "grows (submit_request input program) m (snd (?at m1))"
      if "grows (submit_request input program) m m1" for m1
      using that grows_submit_attempt by (rule grows_trans)
    show "grows (submit_request input program) m (snd (submit_handle e m1))"
      if "grows (submit_request input program) m m1" for e m1
      using that by (simp add: submit_handle_def)
    show "grows (submit_request input program) m (snd (sleep c openvm_submitRetryInterval m1))"
      if "grows (submit_request input program) m m1" for m1
      using that grows_sleep by (rule grows_trans)
  qed simp
  then obtain m1 pre where "sent m1 = sent m @ pre" "\<forall>q \<in> set pre. submit_request input program q"
      "clock m \<le> clock m1" and at: "?at m1 = (Inr (uuid, w), m')"
    by (auto simp: grows_def)
  with submit_attempt_Inr [OF at] show ?thesis by auto
qed

text \<open>An admitted OpenVM submission ended by uploading the framed input and starting the program
  under one fresh identifier; before that it sent nothing but such uploads and starts; and the wait
  it reports is the time the refused attempts took, which leaves the admitted one out.\<close>

theorem openvm_submission:
  assumes "submitProof fuel srv draw program c input m = Some (Inr (uuid, w), m')"
  shows "\<exists>pre. sent m' = sent m @ pre @ [Post_upload uuid (openvm_framedStdin input), Post_start uuid program]
    \<and> (\<forall>q \<in> set pre. submit_request input program q) \<and> 0 \<le> w \<and> clock m + w \<le> clock m'"
  using assms by (rule submitProof_Inr)

definition calm :: "'w manager" where
  "calm q c t w = (Reply 200 [] False, 7, w)"

definition idle_machine :: "(openvm_request, unit) machine" where
  "idle_machine = \<lparr>clock = 0, sent = [], phases = [], env = ()\<rparr>"

lemma sample_uuid: "hex_encode [171] = ''ab''"
  by code_simp

theorem openvm_submission_witness:
  "\<exists>m'. submitProof 1 calm (\<lambda>w. ([171], w)) ''p'' None [1] idle_machine = Some (Inr (''ab'', 0), m')
     \<and> length (sent m') = 2"
proof -
  obtain m' where m': "submitProof 1 calm (\<lambda>w. ([171], w)) ''p'' None [1] idle_machine = Some (Inr (''ab'', 0), m')"
    and len: "length (sent m') \<le> 2"
    using sample_uuid
    by (simp add: submitProof_def submit_attempt_def newProofUUID_def uploadInput_def startProof_def
        call_def calm_def idle_machine_def ok_status_def)
  from openvm_submission [OF m'] len m' show ?thesis by auto
qed

lemma submit_attempt_Inl:
  "submit_attempt srv draw program c input started m = (Inl (Submission_timed_out e0), m') \<Longrightarrow> False"
  by (auto simp: submit_attempt_def uploadInput_def startProof_def classifyStartError_def Let_def
      split: prod.splits http_reply.splits sum.splits if_splits)

lemma submit_refused:
  assumes "submitProof fuel srv draw program c input m = Some (Inl e, m')"
  shows "(\<exists>e0. e = Submission_timed_out e0 \<and> recoverable e0 \<and> ctx_done c (clock m'))
    \<or> \<not> recoverable e \<and> (\<forall>e0. e \<noteq> Submission_timed_out e0)"
proof -
  let ?at = "submit_attempt srv draw program c input (clock m)"
  from assms obtain g where
    r: "retry fuel ?at submit_handle c openvm_submitRetryInterval m = Some (Inl g, m')" and e: "e = submit_error g"
    by (auto simp: submitProof_def) (metis rmap_err.simps sum.exhaust sum.inject(1) sum.distinct(1))
  show ?thesis
  proof (cases g)
    case (Permanent e1)
    with retry_Permanent [OF r [unfolded Permanent]] e show ?thesis
      by (auto simp: submit_handle_def submit_error_def split: if_splits dest: submit_attempt_Inl)
  next
    case (Expired e1)
    with retry_Expired [OF r [unfolded Expired]] e show ?thesis
      by (auto simp: submit_handle_def submit_error_def split: if_splits)
  qed
qed

lemma submit_returns:
  assumes "e - clock m < int fuel * openvm_submitRetryInterval" "0 < fuel"
  shows "\<exists>r m'. submitProof fuel srv draw program (Some e) input m = Some (r, m')"
proof -
  have "0 < openvm_submitRetryInterval" by (simp add: openvm_submitRetryInterval_def second_def)
  from openvm_submit.retry_returns [OF this assms, of srv draw program "Some e" input "clock m"]
  show ?thesis by (auto simp: submitProof_def)
qed

text \<open>A refused OpenVM submission reports either an error no retry cures, or that it timed out on
  one a retry may cure, and then the context has ended.\<close>

lemma openvm_submission_refused:
  assumes "submitProof fuel srv draw program c input m = Some (Inl e, m')"
  shows "(\<exists>e0. e = Submission_timed_out e0 \<and> recoverable e0 \<and> ctx_done c (clock m'))
    \<or> \<not> recoverable e \<and> (\<forall>e0. e \<noteq> Submission_timed_out e0)"
  using assms by (rule submit_refused)

lemma openvm_submission_refused_witness:
  "\<exists>e m'. submitProof 1 (\<lambda>q c t w. (Reply 503 [] False, 1, w)) (\<lambda>w. ([1], w)) ''p'' (Some 10) [1] idle_machine
      = Some (Inl (Submission_timed_out e), m') \<and> ctx_done (Some 10) (clock m')"
proof -
  obtain m' where m': "submitProof 1 (\<lambda>q c t w. (Reply 503 [] False, 1, w)) (\<lambda>w. ([1], w)) ''p'' (Some 10) [1] idle_machine
      = Some (Inl (Submission_timed_out (Cluster_not_ready (readBody []))), m')"
    by (simp add: submitProof_def submit_attempt_def newProofUUID_def uploadInput_def startProof_def
        call_def idle_machine_def submit_handle_def sleep_def second_def openvm_submitRetryInterval_def
        submit_error_def)
  from openvm_submission_refused [OF m'] m' show ?thesis by auto
qed

section \<open>What following the status does\<close>

lemma event_lines_grows: "grows P m (snd (event_lines js ev da ls m))"
proof (induction ls arbitrary: ev da m)
  case (Cons line ls)
  have "grows P m (snd (event_lines js [] [] ls (on_phase st m)))" for st
    using grows_on_phase Cons by (rule grows_trans)
  with Cons show ?case by (auto split: sum.splits)
qed simp

lemma event_lines_settled:
  "event_lines js ev da ls m = (Inr (st, reason), m') \<Longrightarrow> st = [] \<and> reason = [] \<or> settled st"
  by (induction js ev da ls m rule: event_lines.induct) (auto split: sum.splits if_splits)

lemma streamStatus_grows:
  assumes "P (Get_events uuid)"
  shows "grows P m (snd (streamStatus srv js c uuid m))"
proof -
  obtain r m1 where c: "call srv c (Get_events uuid) m = (r, m1)" by force
  have g: "grows P m m1" using c assms by (rule grows_call_eq)
  have "grows P m m2" if "event_lines js [] [] ls m1 = (x, m2)" for ls x m2
    using grows_trans [OF g event_lines_grows [of P m1 js "[]" "[]" ls]] that by simp
  with g show ?thesis by (simp add: streamStatus_def c split: http_reply.splits prod.splits sum.splits)
qed

lemma awaitSettled_grows:
  assumes "P (Get_events uuid)"
  shows "awaitSettled fuel srv js c uuid lastErr m = Some (r, m') \<Longrightarrow> grows P m m'"
proof (induction fuel arbitrary: lastErr m)
  case (Suc fuel)
  obtain x m1 where s: "streamStatus srv js c uuid m = (x, m1)" by force
  have g: "grows P m m1" using streamStatus_grows [of P uuid m srv js c, OF assms] by (simp add: s)
  obtain b m2 where z: "sleep c statusStreamReconnectDelay m1 = (b, m2)" by force
  have g2: "grows P m m2" using g grows_sleep [of P m1 c statusStreamReconnectDelay] by (auto simp: z intro: grows_trans)
  from Suc.prems g g2 show ?case
    by (auto simp: s z Let_def split: if_splits bool.splits intro: grows_trans [OF g2 Suc.IH])
qed simp

lemma awaitSettled_Inr:
  "awaitSettled fuel srv js c uuid lastErr m = Some (Inr (st, reason), m') \<Longrightarrow>
    settled st \<and> (\<exists>m1. streamStatus srv js c uuid m1 = (Inr (st, reason), m'))"
proof (induction fuel arbitrary: lastErr m)
  case (Suc fuel)
  obtain x m1 where s: "streamStatus srv js c uuid m = (x, m1)" by force
  obtain b m2 where z: "sleep c statusStreamReconnectDelay m1 = (b, m2)" by force
  have "settled st" if "streamStatus srv js c uuid m = (Inr (st, reason), m1)" "st \<noteq> []" for st reason m1
    using that event_lines_settled
    by (fastforce simp: streamStatus_def split: prod.splits http_reply.splits sum.splits if_splits)
  with Suc s show ?case
    by (auto simp: s z Let_def split: if_splits bool.splits sum.splits intro: exI [of _ m])
qed simp

lemma awaitSettled_Inl:
  "awaitSettled fuel srv js c uuid lastErr m = Some (Inl e, m') \<Longrightarrow>
    (\<exists>code body. e = Streaming uuid (Stream_refused code body)) \<or> ctx_done c (clock m')"
proof (induction fuel arbitrary: lastErr m)
  case (Suc fuel)
  obtain x m1 where s: "streamStatus srv js c uuid m = (x, m1)" by force
  obtain b m2 where z: "sleep c statusStreamReconnectDelay m1 = (b, m2)" by force
  have zz: "\<not> b \<longrightarrow> ctx_done c (clock m2)" using z sleep_False by (cases b) auto
  have ref: "\<exists>code body. er = Stream_refused code body" if "is_refused er" for er
    using that by (cases er) auto
  from Suc zz show ?case
    by (auto simp: s z Let_def split: if_splits bool.splits sum.splits dest: ref)
qed simp

lemma awaitSettled_returns:
  "e - clock m < int fuel * second \<Longrightarrow> 0 < fuel \<Longrightarrow>
    \<exists>r m'. awaitSettled fuel srv js (Some e) uuid lastErr m = Some (r, m')"
proof (induction fuel arbitrary: lastErr m)
  case (Suc fuel)
  obtain x m1 where s: "streamStatus srv js (Some e) uuid m = (x, m1)" by force
  have c1: "clock m \<le> clock m1"
    using streamStatus_grows [of "\<lambda>_. True" uuid m srv js "Some e"] by (auto simp: s dest: grows_clock)
  obtain b m2 where z: "sleep (Some e) statusStreamReconnectDelay m1 = (b, m2)" by force
  show ?case
  proof (cases b)
    case True
    with z have up: "clock m2 = clock m1 + second" "clock m2 < e"
      using sleep_True [of "Some e" statusStreamReconnectDelay m1 m2]
      by (auto simp: ctx_done_def statusStreamReconnectDelay_def second_def)
    from Suc.prems(1) c1 up have gap: "e - clock m2 < int fuel * second" by (simp add: algebra_simps)
    with up have "0 < fuel" by (cases fuel) auto
    from Suc.IH [OF gap this] True show ?thesis by (auto simp: s z Let_def)
  next
    case False
    then show ?thesis by (auto simp: s z Let_def)
  qed
qed simp

text \<open>Following an OpenVM proof ends with a settled status only where one of its status streams
  ended on it, and with an error only on a refused stream or once the context has ended.\<close>

lemma openvm_settling:
  assumes "awaitSettled fuel srv js c uuid lastErr m = Some (r, m')"
  shows "case r of
      Inr (st, reason) \<Rightarrow> settled st \<and> (\<exists>m1. streamStatus srv js c uuid m1 = (Inr (st, reason), m'))
    | Inl e \<Rightarrow> (\<exists>code body. e = Streaming uuid (Stream_refused code body)) \<or> ctx_done c (clock m')"
  using assms by (auto split: sum.split dest: awaitSettled_Inr awaitSettled_Inl)

definition refusing :: "'w manager" where
  "refusing q c t w = (Reply 404 ''gone'' False, 1, w)"

lemma openvm_settling_witness:
  "\<exists>code body. awaitSettled 1 refusing undefined None ''u'' None idle_machine
    = Some (Inl (Streaming ''u'' (Stream_refused code body)), idle_machine\<lparr>clock := 1, sent := [Get_events ''u'']\<rparr>)"
proof -
  obtain code body m' where r: "awaitSettled 1 refusing undefined None ''u'' None idle_machine
      = Some (Inl (Streaming ''u'' (Stream_refused code body)), m')"
    and m': "m' = idle_machine\<lparr>clock := 1, sent := [Get_events ''u'']\<rparr>"
    by (simp add: streamStatus_def call_def refusing_def idle_machine_def)
  from openvm_settling [OF r] have "\<exists>code1 body1. Streaming ''u'' (Stream_refused code body)
      = Streaming ''u'' (Stream_refused code1 body1)" by (simp add: ctx_done_def)
  with r m' show ?thesis by blast
qed

section \<open>A status stream\<close>

text \<open>One event of the server: the two fields in order, with comment lines the client skips in
  between.\<close>

definition noise :: "string \<Rightarrow> bool" where
  "noise l \<longleftrightarrow> l \<noteq> [] \<and> \<not> has_prefix ''event:'' l \<and> \<not> has_prefix ''data:'' l"

definition status_event :: "(string \<Rightarrow> string) \<Rightarrow> string list \<Rightarrow> string list \<Rightarrow> string \<Rightarrow> string list" where
  "status_event enc ns ns' st = ns @ [''event: status''] @ ns' @ [''data: '' @ enc st, []]"

definition encodes :: "openvm_json \<Rightarrow> (string \<Rightarrow> string) \<Rightarrow> (string \<Rightarrow> string) \<Rightarrow> string \<Rightarrow> bool" where
  "encodes js enc reason st \<longleftrightarrow> parseProofStatus js (enc st) = Inr (st, reason st)
     \<and> enc st \<noteq> [] \<and> trim_space (CHR '' '' # enc st) = enc st"

lemma event_lines_noise:
  "\<forall>l \<in> set ns. noise l \<Longrightarrow> event_lines js ev da (ns @ ls) m = event_lines js ev da ls m"
  by (induction ns) (auto simp: noise_def)

lemma event_lines_status:
  assumes "encodes js enc reason st" "\<forall>l \<in> set ns. noise l" "\<forall>l \<in> set ns'. noise l"
  shows "event_lines js [] [] (status_event enc ns ns' st @ ls) m =
    (if settled st then (Inr (st, reason st), m) else event_lines js [] [] ls (on_phase st m))"
proof -
  have ev: "trim_space (trim_prefix ''event:'' ''event: status'') = ''status''" by code_simp
  have pre: "has_prefix ''event:'' ''event: status''" "\<not> has_prefix ''event:'' (''data: '' @ enc st)"
    "has_prefix ''data:'' (''data: '' @ enc st)" "''data: '' @ enc st \<noteq> []" "''event: status'' \<noteq> []"
    by (simp_all add: has_prefix_def)
  have da: "trim_prefix ''data:'' (''data: '' @ enc st) = CHR '' '' # enc st"
    by (simp add: trim_prefix_def has_prefix_def)
  have tr: "trim_space (CHR '' '' # enc st) = enc st" "enc st \<noteq> []"
    "parseProofStatus js (enc st) = Inr (st, reason st)"
    using assms(1) unfolding encodes_def by blast+
  have "event_lines js [] [] (status_event enc ns ns' st @ ls) m
      = event_lines js [] [] (''event: status'' # ns' @ [''data: '' @ enc st, []] @ ls) m"
    unfolding status_event_def append_assoc event_lines_noise [OF assms(2)]
    by (simp only: append_assoc append_Cons append_Nil)
  also have "\<dots> = event_lines js ''status'' [] (ns' @ [''data: '' @ enc st, []] @ ls) m"
    by (simp only: event_lines.simps pre ev if_True if_False)
  also have "\<dots> = event_lines js ''status'' [] ((''data: '' @ enc st) # [] # ls) m"
    unfolding event_lines_noise [OF assms(3)] by (simp only: append_assoc append_Cons append_Nil)
  also have "\<dots> = event_lines js ''status'' (enc st) ([] # ls) m"
    by (simp only: event_lines.simps(2) [of js "''status''" "[]"] pre da tr if_True if_False)
  also have "\<dots> = (if settled st then (Inr (st, reason st), m) else event_lines js [] [] ls (on_phase st m))"
    using tr by simp
  finally show ?thesis .
qed

lemma event_lines_stream:
  assumes "\<forall>l \<in> set ns. noise l" "\<forall>l \<in> set ns'. noise l" "settled st"
    and "\<forall>s \<in> set (pre @ [st]). encodes js enc reason s" "\<forall>s \<in> set pre. \<not> settled s"
  shows "event_lines js [] [] (concat (map (status_event enc ns ns') (pre @ [st])) @ ls) m
    = (Inr (st, reason st), m\<lparr>phases := phases m @ pre\<rparr>)"
  using assms(4,5)
proof (induction pre arbitrary: m)
  case Nil
  have "m = m\<lparr>phases := phases m @ []\<rparr>" by simp
  with assms(3) Nil event_lines_status [of js enc reason st, OF _ assms(1,2)] show ?case by simp
next
  case (Cons p pre)
  let ?rest = "concat (map (status_event enc ns ns') (pre @ [st])) @ ls"
  have p: "encodes js enc reason p" "\<not> settled p" using Cons.prems by simp_all
  have "concat (map (status_event enc ns ns') ((p # pre) @ [st])) @ ls = status_event enc ns ns' p @ ?rest"
    by simp
  then have "event_lines js [] [] (concat (map (status_event enc ns ns') ((p # pre) @ [st])) @ ls) m
      = event_lines js [] [] ?rest (on_phase p m)"
    using event_lines_status [OF p(1) assms(1,2), of ?rest m] p(2) by (simp only: if_False)
  also have "\<dots> = (Inr (st, reason st), (on_phase p m)\<lparr>phases := phases (on_phase p m) @ pre\<rparr>)"
    using Cons.prems by (intro Cons.IH) auto
  finally show ?case by (simp only: on_phase_def) simp
qed

text \<open>A status stream that reports some statuses and then settles is read back: the client reports
  the earlier ones as phases in their order and returns the settled one with its reason, whatever
  comment lines are between the fields and whatever follows.\<close>

theorem openvm_status_stream:
  assumes "\<forall>l \<in> set ns. noise l" "\<forall>l \<in> set ns'. noise l" "settled st"
    and "\<forall>s \<in> set (pre @ [st]). encodes js enc reason s" "\<forall>s \<in> set pre. \<not> settled s"
    and "ls = concat (map (status_event enc ns ns') (pre @ [st])) @ rest"
    and "\<forall>l \<in> set ls. CHR 0x0A \<notin> set l \<and> CHR 0x0D \<notin> set l \<and> length l < maxScanTokenSize"
    and "call srv c (Get_events uuid) m = (Reply 200 (send_lines ls) broken, m1)"
  shows "streamStatus srv js c uuid m = (Inr (st, reason st), m1\<lparr>phases := phases m1 @ pre\<rparr>)"
proof -
  have "st \<noteq> []" using assms(3) by (auto simp: settled_def)
  moreover have "event_lines js [] [] ls m1 = (Inr (st, reason st), m1\<lparr>phases := phases m1 @ pre\<rparr>)"
    unfolding assms(6) by (rule event_lines_stream [OF assms(1-5)])
  ultimately show ?thesis
    using scan_send_lines [OF assms(7)] by (simp add: streamStatus_def assms(8))
qed

definition plain_json :: openvm_json where
  "plain_json = \<lparr>js_string = Some, js_tagged = (\<lambda>_. None), js_latency = (\<lambda>_. Some (Some 1)),
     js_view = (\<lambda>_. Some \<lparr>view_start = 0, app_proofs = [], leaf_proofs = [], internal_proofs = []\<rparr>),
     js_workers = (\<lambda>_. Some [])\<rparr>"

definition sample_events :: "string list" where
  "sample_events = concat (map (status_event id [] ['':'']) [''proving'', ''completed''])"

definition finishing :: "unit manager" where
  "finishing q c t w = (case q of Get_events u \<Rightarrow> (Reply 200 (send_lines sample_events) False, 5, w)
     | _ \<Rightarrow> (Reply 200 [] False, 2, w))"

lemma finishing_stream:
  "sample_events = concat (map (status_event id [] ['':'']) ([''proving''] @ [''completed''])) @ []"
  "\<forall>l \<in> set sample_events. CHR 0x0A \<notin> set l \<and> CHR 0x0D \<notin> set l \<and> length l < maxScanTokenSize"
  "\<forall>l \<in> set ['':'']. noise l"
  "\<forall>s \<in> set ([''proving''] @ [''completed'']). encodes plain_json id (\<lambda>_. []) s"
  "\<forall>s \<in> set [''proving'']. \<not> settled s" "settled ''completed''"
proof -
  have "trim_space '' proving'' = ''proving''" "trim_space '' completed'' = ''completed''" by code_simp+
  then show "\<forall>s \<in> set ([''proving''] @ [''completed'']). encodes plain_json id (\<lambda>_. []) s"
    by (simp add: encodes_def plain_json_def parseProofStatus_def)
qed (simp_all add: sample_events_def status_event_def maxScanTokenSize_def noise_def has_prefix_def settled_def)

theorem openvm_status_stream_witness:
  "streamStatus finishing plain_json None ''u'' idle_machine
    = (Inr (''completed'', []), \<lparr>clock = 5, sent = [Get_events ''u''], phases = [''proving''], env = ()\<rparr>)"
proof -
  have "call finishing None (Get_events ''u'') idle_machine
      = (Reply 200 (send_lines sample_events) False, idle_machine\<lparr>clock := 5, sent := [Get_events ''u'']\<rparr>)"
    by (simp add: call_def finishing_def idle_machine_def)
  from openvm_status_stream [OF _ finishing_stream(3,6,4,5,1,2) this] show ?thesis
    by (simp add: idle_machine_def)
qed

section \<open>What a proof rests on\<close>

definition no_cancel :: "openvm_request \<Rightarrow> bool" where
  "no_cancel q \<longleftrightarrow> (\<forall>u. q \<noteq> Post_cancel u)"

lemma no_cancel_simps [simp]:
  "no_cancel (Get_vk p)" "no_cancel Get_readyz" "no_cancel (Post_upload u b)" "no_cancel (Post_start u p)"
  "no_cancel (Get_events u)" "no_cancel (Get_proof_state u)" "no_cancel (Get_proof_pipeline u)"
  "no_cancel Get_workers" "no_cancel (Get_proof u)" "\<not> no_cancel (Post_cancel u)"
  by (simp_all add: no_cancel_def)

lemma fetchBody_snd: "snd (fetchBody srv c q m) = snd (call srv c q m)"
  by (simp add: fetchBody_def split: prod.split http_reply.split)

lemma fetchJSON_snd: "snd (fetchJSON srv c q decode m) = snd (call srv c q m)"
  unfolding fetchBody_snd [symmetric]
  by (simp add: fetchJSON_def split: prod.split sum.split option.split)

lemma fetchJSON_grows: "fetchJSON srv c q decode m = (r, m') \<Longrightarrow> P q \<Longrightarrow> grows P m m'"
  using fetchJSON_snd [of srv c q decode m] grows_call [of P q m srv c] by simp

lemma proofLatency_grows:
  assumes "proofLatency srv js c u m = (r, m')"
  shows "grows no_cancel m m'"
proof -
  have "snd (proofLatency srv js c u m) = snd (call srv c (Get_proof_state u) m)"
    unfolding fetchJSON_snd [of srv c _ "js_latency js" m, symmetric]
    by (simp add: proofLatency_def split: prod.split sum.split option.split)
  with assms grows_call [of no_cancel "Get_proof_state u" m srv c] show ?thesis by simp
qed

lemma proofPipeline_grows:
  assumes "proofPipeline srv js parse c u m = (r, m')"
  shows "grows no_cancel m m'"
proof -
  obtain x m1 where v: "fetchJSON srv c (Get_proof_pipeline u) (js_view js) m = (x, m1)" by force
  obtain y m2 where w: "fetchJSON srv c Get_workers (js_workers js) m1 = (y, m2)" by force
  have g: "grows no_cancel m m1" "grows no_cancel m1 m2"
    using fetchJSON_grows [OF v] fetchJSON_grows [OF w] by auto
  from assms have "m' = m1 \<or> m' = m2" by (auto simp: proofPipeline_def v w split: sum.splits)
  with g show ?thesis using grows_trans by blast
qed

lemma downloadProof_grows:
  assumes "downloadProof srv c u m = (r, m')"
  shows "grows no_cancel m m'"
proof -
  have "snd (downloadProof srv c u m) = snd (call srv c (Get_proof u) m)"
    unfolding fetchBody_snd [symmetric]
    by (simp add: downloadProof_def split: prod.split sum.split)
  with assms grows_call [of no_cancel "Get_proof u" m srv c] show ?thesis by simp
qed

lemma waitProof_grows:
  assumes "waitProof fuel srv js parse lib v c u m = Some (r, m')"
  shows "grows no_cancel m m'"
proof -
  from assms obtain x m1 where a: "awaitSettled fuel srv js c u None m = Some (x, m1)"
    by (auto simp: waitProof_def split: option.splits)
  obtain x2 m2 where l: "proofLatency srv js c u m1 = (x2, m2)" by force
  obtain x3 m3 where p: "proofPipeline srv js parse c u m2 = (x3, m3)" by force
  obtain x4 m4 where d: "downloadProof srv c u m3 = (x4, m4)" by force
  have g1: "grows no_cancel m m1" by (rule awaitSettled_grows [OF _ a]) simp
  have g2: "grows no_cancel m m2" using g1 proofLatency_grows [OF l] by (rule grows_trans)
  have g3: "grows no_cancel m m3" using g2 proofPipeline_grows [OF p] by (rule grows_trans)
  have g4: "grows no_cancel m m4" using g3 downloadProof_grows [OF d] by (rule grows_trans)
  from assms have "m' \<in> {m1, m2, m3, m4}"
    by (auto simp: waitProof_def a l p d split: sum.splits if_splits)
  with g1 g2 g3 g4 show ?thesis by blast
qed

lemma downloadProof_Inr:
  "downloadProof srv c u m = (Inr proof, m') \<Longrightarrow>
    \<exists>body. call srv c (Get_proof u) m = (Reply 200 body False, m') \<and> proof = bytes_of body"
  by (auto simp: downloadProof_def fetchBody_def split: prod.splits sum.splits http_reply.splits if_splits)

lemma openvm_verify_Inr:
  "openvm_verify lib v proof = Inr values \<longleftrightarrow> ver_verify lib v proof = Inr values"
  by (cases v) (auto simp: openvm_verify_def openvm_verifyProof_def ver_verify_def split: sum.splits)

lemma waitProof_Inr:
  assumes "waitProof fuel srv js parse lib v c u m = Some (Inr o1, m')"
  shows "\<exists>m1 m2 reason body. streamStatus srv js c u m1 = (Inr (''completed'', reason), m2)
    \<and> (\<exists>m3. call srv c (Get_proof u) m3 = (Reply 200 body False, m'))
    \<and> ver_verify lib v (bytes_of body) = Inr (public_values o1) \<and> proof_bytes o1 = int (length body)"
  using assms
  by (fastforce simp: waitProof_def openvm_verify_Inr split: option.splits prod.splits sum.splits if_splits
      dest!: awaitSettled_Inr downloadProof_Inr)

end
