(* ===== verification/Openvm_Prove.thy ===== *)
theory Openvm_Prove
  imports Openvm_Client
begin

text \<open>
  The life of one OpenVM proof, from \<open>Prove\<close> of \<open>internal/openvm/client.go\<close>: what a
  reported proof means, when a proof is cancelled, that \<open>Prove\<close> returns before its deadline, and
  what \<open>Dial\<close> binds.
\<close>

lemma openvm_prove_cases:
  assumes "openvm_prove fuel srv js parse lib draw cl c input m = Some (r, m')"
  obtains (refused) e where "submitProof fuel srv draw (program_name cl) c input m = Some (Inl e, m')"
      and "r = Inl e"
  | (failed) uuid w m1 e where "submitProof fuel srv draw (program_name cl) c input m = Some (Inr (uuid, w), m1)"
      and "waitProof fuel srv js parse lib (oc_verifier cl) c uuid m1 = Some (Inl e, m')"
      and "\<not> ctx_done c (clock m')" and "r = Inl e"
  | (timed_out) uuid w m1 e m2 where "submitProof fuel srv draw (program_name cl) c input m = Some (Inr (uuid, w), m1)"
      and "waitProof fuel srv js parse lib (oc_verifier cl) c uuid m1 = Some (Inl e, m2)"
      and "ctx_done c (clock m2)" and "r = Inl (Proof_timed_out uuid e)"
      and "m' = cancelProof srv (with_timeout (without_cancel c) (10 * second) (clock m2)) uuid m2"
  | (proved) uuid w m1 o1 where "submitProof fuel srv draw (program_name cl) c input m = Some (Inr (uuid, w), m1)"
      and "waitProof fuel srv js parse lib (oc_verifier cl) c uuid m1 = Some (Inr o1, m')"
      and "r = Inr (o1\<lparr>submit_wait := w\<rparr>)"
  using assms by (auto simp: openvm_prove_def split: option.splits prod.splits sum.splits if_splits)

lemma submitProof_no_cancel:
  "submitProof fuel srv draw program c input m = Some (r, m') \<Longrightarrow> grows no_cancel m m'"
  by (rule submitProof_grows) (auto simp: submit_request_def)

lemma prove_sound:
  assumes "openvm_prove fuel srv js parse lib draw cl c input m = Some (Inr o1, m')"
  shows "\<exists>uuid body h m3. call srv c (Get_proof uuid) m3 = (Reply 200 body False, m')
    \<and> oc_verifier cl = Some (Some h) \<and> lib_verify lib h (bytes_of body) = (ERE_OK, public_values o1)
    \<and> proof_bytes o1 = int (length body) \<and> grows no_cancel m m'
    \<and> (\<exists>m1 m2 reason. streamStatus srv js c uuid m1 = (Inr (''completed'', reason), m2))
    \<and> Post_upload uuid (openvm_framedStdin input) \<in> set (sent m')"
  using assms
proof (cases rule: openvm_prove_cases)
  case (proved uuid w m1 o0)
  from waitProof_Inr [OF proved(2)] obtain m2 m3 reason body m4 where
    w: "streamStatus srv js c uuid m2 = (Inr (''completed'', reason), m3)"
    "call srv c (Get_proof uuid) m4 = (Reply 200 body False, m')"
    "ver_verify lib (oc_verifier cl) (bytes_of body) = Inr (public_values o0)"
    "proof_bytes o0 = int (length body)" by blast
  have g: "grows no_cancel m m1" "grows no_cancel m1 m'"
    using submitProof_no_cancel [OF proved(1)] waitProof_grows [OF proved(2)] by auto
  moreover have "Post_upload uuid (openvm_framedStdin input) \<in> set (sent m1)"
    using submitProof_Inr [OF proved(1)] by auto
  then have "Post_upload uuid (openvm_framedStdin input) \<in> set (sent m')"
    using g(2) by (auto simp: grows_def)
  ultimately show ?thesis
    using w proved(3) by (fastforce simp: ver_verify_Inr intro: grows_trans)
qed auto

text \<open>C10: an OpenVM proof is reported only where the manager's status stream reported it completed, its
  envelope was served, and the client's own open verifier accepted that envelope; the public values
  are the verifier's, the input was uploaded under the proof's identifier, and nothing was
  cancelled.\<close>

theorem openvm_prove_sound:
  assumes "openvm_prove fuel srv js parse lib draw cl c input m = Some (Inr o1, m')"
  shows "\<exists>uuid body h m3. call srv c (Get_proof uuid) m3 = (Reply 200 body False, m')
    \<and> oc_verifier cl = Some (Some h) \<and> lib_verify lib h (bytes_of body) = (ERE_OK, public_values o1)
    \<and> proof_bytes o1 = int (length body) \<and> grows no_cancel m m'
    \<and> (\<exists>m1 m2 reason. streamStatus srv js c uuid m1 = (Inr (''completed'', reason), m2))
    \<and> Post_upload uuid (openvm_framedStdin input) \<in> set (sent m')"
  using assms by (rule prove_sound)

definition agreeing_lib :: "nat ere_lib" where
  "agreeing_lib = \<lparr>lib_new = (\<lambda>_ _. (ERE_OK, 3)), lib_verify = (\<lambda>_ _. (ERE_OK, [42])),
     lib_kind = (\<lambda>_. (ERE_OK, OpenVM))\<rparr>"

definition sample_client :: "nat openvm_client" where
  "sample_client = \<lparr>program_name = ''p'', oc_verifier = Some (Some 3)\<rparr>"

lemma finishing_events:
  "sent m = s \<Longrightarrow> streamStatus finishing plain_json c u m
    = (Inr (''completed'', []), m\<lparr>clock := clock m + 5, sent := sent m @ [Get_events u],
         phases := phases m @ [''proving'']\<rparr>)"
proof -
  have "call finishing c (Get_events u) m
      = (Reply 200 (send_lines sample_events) False, m\<lparr>clock := clock m + 5, sent := sent m @ [Get_events u]\<rparr>)"
    by (simp add: call_def finishing_def)
  moreover have "event_lines plain_json [] [] sample_events m1
      = (Inr (''completed'', []), m1\<lparr>phases := phases m1 @ [''proving'']\<rparr>)" for m1 :: "unit openvm_machine"
    using event_lines_stream [OF _ finishing_stream(3,6,4,5), of "[]" "[]" m1] finishing_stream(1) by simp
  ultimately show ?thesis
    using scan_send_lines [OF finishing_stream(2)] by (simp add: streamStatus_def)
qed

lemma finishing_call:
  "\<forall>u. q \<noteq> Get_events u \<Longrightarrow> call finishing c q m
    = (Reply 200 [] False, m\<lparr>clock := clock m + 2, sent := sent m @ [q]\<rparr>)"
  by (cases q) (simp_all add: call_def finishing_def)

lemma plain_json_simps:
  "js_latency plain_json b = Some (Some 1)" "js_workers plain_json b = Some []"
  "js_view plain_json b = Some \<lparr>view_start = 0, app_proofs = [], leaf_proofs = [], internal_proofs = []\<rparr>"
  by (simp_all add: plain_json_def)

definition finishing_submitted :: "bytes \<Rightarrow> unit openvm_machine \<Rightarrow> unit openvm_machine" where
  "finishing_submitted input m = m\<lparr>clock := clock m + 4,
     sent := sent m @ [Post_upload ''ab'' (openvm_framedStdin input), Post_start ''ab'' ''p'']\<rparr>"

lemma finishing_submit:
  "submitProof 1 finishing (\<lambda>w. ([171], w)) ''p'' c input m = Some (Inr (''ab'', 0), finishing_submitted input m)"
  by (simp add: submitProof_def submit_attempt_def newProofUUID_def uploadInput_def startProof_def
      finishing_call ok_status_def sample_uuid finishing_submitted_def del: hex_encode.simps)

lemma finishing_wait_with:
  assumes lib: "\<And>pf. lib_verify lib 3 pf = (ERE_OK, v)"
  shows "\<exists>o1 m'. waitProof 1 finishing plain_json (\<lambda>_. None) lib (Some (Some 3)) c ''ab'' m
    = Some (Inr o1, m') \<and> public_values o1 = v
    \<and> (\<forall>u b. Post_upload u b \<in> set (sent m') \<longleftrightarrow> Post_upload u b \<in> set (sent m))"
proof -
  have v: "openvm_verify lib (Some (Some 3)) pr = Inr v" for pr
    by (simp add: openvm_verify_def openvm_verifyProof_def ver_verify_def lib)
  show ?thesis
    by (simp add: waitProof_def finishing_events settled_def proofLatency_def proofPipeline_def
        downloadProof_def fetchBody_def fetchJSON_def finishing_call plain_json_simps v
        openvm_mapPipeline_def openvm_mapRegistrations_def finish_pipeline_def Let_def
        newPipelineBuilder_def sort_stable_def)
qed

lemma finishing_wait:
  "\<exists>o1 m'. waitProof 1 finishing plain_json (\<lambda>_. None) agreeing_lib (Some (Some 3)) c ''ab'' m
    = Some (Inr o1, m') \<and> public_values o1 = [42]
    \<and> (\<forall>u b. Post_upload u b \<in> set (sent m') \<longleftrightarrow> Post_upload u b \<in> set (sent m))"
  by (rule finishing_wait_with) (simp add: agreeing_lib_def)

theorem openvm_prove_sound_witness:
  "\<exists>o1 m'. openvm_prove 1 finishing plain_json (\<lambda>_. None) agreeing_lib (\<lambda>w. ([171], w)) sample_client None [1]
      idle_machine = Some (Inr o1, m') \<and> public_values o1 = [42]
    \<and> Post_upload ''ab'' (openvm_framedStdin [1]) \<in> set (sent m')"
proof -
  let ?m1 = "finishing_submitted [1] idle_machine"
  note w = finishing_wait [of None ?m1]
  obtain o1 m' where p: "openvm_prove 1 finishing plain_json (\<lambda>_. None) agreeing_lib (\<lambda>w. ([171], w))
      sample_client None [1] idle_machine = Some (Inr o1, m')" and v: "public_values o1 = [42]"
    and only: "\<forall>u. Post_upload u (openvm_framedStdin [1]) \<in> set (sent m') \<longrightarrow> u = ''ab''"
    using finishing_submit [of None "[1]" idle_machine] w
    by (auto simp: openvm_prove_def sample_client_def finishing_submitted_def idle_machine_def)
  from openvm_prove_sound [OF p] only p v show ?thesis by blast
qed



lemma waitProof_returns:
  assumes "e - clock m < int fuel * second" "0 < fuel"
  shows "\<exists>r m'. waitProof fuel srv js parse lib v (Some e) uuid m = Some (r, m')"
proof -
  from awaitSettled_returns [OF assms] obtain x m1 where
    a: "awaitSettled fuel srv js (Some e) uuid None m = Some (x, m1)" by blast
  then show ?thesis by (cases x) (auto simp: waitProof_def)
qed

text \<open>C32: with a deadline, fuel for the pauses that fit before it is enough for \<open>Prove\<close> to return,
  whatever the manager answers and however long it takes.\<close>

theorem openvm_prove_returns:
  assumes "e - clock m < int fuel * second" "0 < fuel"
  shows "\<exists>r m'. openvm_prove fuel srv js parse lib draw cl (Some e) input m = Some (r, m')"
proof -
  have "int fuel * second \<le> int fuel * openvm_submitRetryInterval"
    by (simp add: openvm_submitRetryInterval_def second_def)
  with assms have "e - clock m < int fuel * openvm_submitRetryInterval" by linarith
  from submit_returns [OF this assms(2)] obtain r m1 where
    s: "submitProof fuel srv draw (program_name cl) (Some e) input m = Some (r, m1)" by blast
  then have "clock m \<le> clock m1" using submitProof_no_cancel by (fastforce simp: grows_def)
  with assms have "e - clock m1 < int fuel * second" by simp
  then have w: "\<exists>r m'. waitProof fuel srv js parse lib v (Some e) uuid m1 = Some (r, m')" for v uuid
    using assms(2) by (rule waitProof_returns)
  show ?thesis
  proof (cases r)
    case (Inr a)
    obtain uuid wait where a: "a = (uuid, wait)" by force
    obtain x m2 where "waitProof fuel srv js parse lib (oc_verifier cl) (Some e) uuid m1 = Some (x, m2)"
      using w by blast
    with s Inr a show ?thesis by (cases x) (simp_all add: openvm_prove_def)
  qed (use s in \<open>simp add: openvm_prove_def\<close>)
qed

theorem openvm_prove_returns_witness:
  "\<exists>r m'. openvm_prove 3 refusing plain_json (\<lambda>_. None) agreeing_lib (\<lambda>w. ([171], w)) sample_client
      (Some (2 * second)) [1] idle_machine = Some (r, m')"
  by (rule openvm_prove_returns) (simp_all add: idle_machine_def second_def)

section \<open>Dialing\<close>

lemma ver_new_cases:
  obtains (bound) h where "lib_new lib kind vk = (ERE_OK, h)" "ver_new lib kind vk = Inr (Some (Some h))"
  | (refused) status h e where "lib_new lib kind vk = (status, h)" "status \<noteq> ERE_OK"
      "ver_new lib kind vk = Inl e"
proof (cases "lib_new lib kind vk")
  case (Pair status h)
  then show ?thesis
    using that by (cases status) (auto simp: ver_new_def)
qed

text \<open>C13: \<open>Dial\<close> gives a client only where the cluster serves exactly the verifying key the client's
  verifier was bound to, for the program the elf names; where it gives none, the handle it had
  created is freed again, exactly once, and nothing else is freed.\<close>

theorem openvm_dial_bound:
  "case openvm_dial srv lib sha256 c elf programVK freed m of
     (Inr cl, freed', m') \<Rightarrow> freed' = freed \<and> program_name cl = programName sha256 elf
       \<and> (\<exists>h. lib_new lib OpenVM programVK = (ERE_OK, h) \<and> oc_verifier cl = Some (Some h))
       \<and> (\<exists>body. call srv c (Get_vk (program_name cl)) m = (Reply 200 body False, m')
            \<and> bytes_of body = programVK)
   | (Inl e, freed', m') \<Rightarrow>
       (case lib_new lib OpenVM programVK of
          (ERE_OK, h) \<Rightarrow> freed' = freed @ [h]
        | _ \<Rightarrow> freed' = freed \<and> m' = m)"
proof (cases rule: ver_new_cases [of lib OpenVM programVK])
  case (bound h)
  then show ?thesis
    by (auto simp: openvm_dial_def fetchProgramVerifyingKey_def openvm_close_def ver_close_def Let_def
        split: sum.splits prod.splits if_splits http_reply.splits)
next
  case (refused status h e)
  then show ?thesis
    by (cases status) (auto simp: openvm_dial_def Let_def)
qed

end
