(* ===== verification/Serve_Provers.thy ===== *)
theory Serve_Provers
  imports Serve Zisk_Prove Openvm_Prove
begin

text \<open>
  The server on the two clients, as \<open>cmd/provoor/main.go\<close> composes them: each client keeps the
  contract of a prover, so what the server answers rests on what the client's verifier accepted.
\<close>

text \<open>The public values a client's open verifier reads from a proof it accepts, where a ZisK proof
  reaches the verifier through the transcoder.\<close>

definition openvm_accepted :: "'h ere_lib \<Rightarrow> 'h openvm_client \<Rightarrow> bytes \<Rightarrow> bool" where
  "openvm_accepted lib cl values \<longleftrightarrow>
     (\<exists>h pf. oc_verifier cl = Some (Some h) \<and> lib_verify lib h pf = (ERE_OK, values))"

definition zisk_accepted :: "'h ere_lib \<Rightarrow> 'h zisk_client \<Rightarrow> bytes \<Rightarrow> bool" where
  "zisk_accepted lib cl values \<longleftrightarrow>
     (\<exists>h envelope pf. zc_verifier cl = Some (Some h) \<and> transcodeProof envelope = Inr pf
        \<and> lib_verify lib h pf = (ERE_OK, values))"

lemma openvm_measured:
  assumes "openvm_prove fuel srv js parse lib draw cl c input m = Some (Inr o1, m')"
  shows "0 \<le> submit_wait o1 \<and> clock m + submit_wait o1 \<le> clock m'"
  using assms
proof (cases rule: openvm_prove_cases)
  case (proved uuid w m1 o0)
  from submitProof_Inr [OF proved(1)] waitProof_grows [OF proved(2)] proved(3) show ?thesis
    by (auto simp: grows_def)
qed auto

lemma zisk_measured:
  assumes "zisk_prove fuel srv pn ord lib cl c input m = Some (Inr o1, m')"
  shows "0 \<le> submit_wait o1 \<and> clock m + submit_wait o1 \<le> clock m'"
  using assms
proof (cases rule: zisk_prove_cases)
  case (proved job w m1 o0)
  from submitProveJob_Inr [OF proved(1)] waitProveJob_grows [OF proved(2)] proved(3) show ?thesis
    by (auto simp: grows_def)
qed auto

definition zisk_ready_fun :: "(zisk_error, zisk_request, 'w) ready_fun" where
  "zisk_ready_fun c m = Some (zisk_waitReady m)"

interpretation zisk_server: prover zisk_ready_fun "zisk_prove fuel srv pn ord lib cl" "zisk_accepted lib cl"
  for fuel srv pn ord lib cl
proof
  fix c input m outcome m'
  assume p: "zisk_prove fuel srv pn ord lib cl c input m = Some (Inr outcome, m')"
  from zisk_sound [OF p] show "zisk_accepted lib cl (public_values outcome)"
    unfolding zisk_accepted_def by blast
  from zisk_measured [OF p] show "0 \<le> submit_wait outcome \<and> clock m + submit_wait outcome \<le> clock m'" .
qed

interpretation openvm_server: prover "openvm_waitReady fuel srv" "openvm_prove fuel srv js parse lib draw cl"
    "openvm_accepted lib cl"
  for fuel srv js parse lib draw cl
proof
  fix c input m outcome m'
  assume p: "openvm_prove fuel srv js parse lib draw cl c input m = Some (Inr outcome, m')"
  from prove_sound [OF p] show "openvm_accepted lib cl (public_values outcome)"
    unfolding openvm_accepted_def by blast
  from openvm_measured [OF p] show "0 \<le> submit_wait outcome \<and> clock m + submit_wait outcome \<le> clock m'" .
qed

text \<open>C1: served on a ZisK cluster, VALID means that the client's own verifier, bound to the guest's key,
  accepted the transcoding of an envelope whose public values are the expected output followed by
  zeros, whatever the cluster answers.\<close>

theorem zisk_served_valid:
  assumes "serve_prove zisk_ready_fun (zisk_prove fuel srv pn ord lib cl) show cfg warm decode hex_error c params st
      = Some (Some (Rpc_status s), st')" and "status_text s = ''VALID''"
  shows "\<exists>payload input expected k. payload_of decode hex_error params = Inr (payload, input, expected)
    \<and> zisk_accepted lib cl (expected @ replicate k 0)"
  using assms by (rule zisk_server.valid_accepted)

definition zisk_idle_server :: "(zisk_request, bool) server_state" where
  "zisk_idle_server = \<lparr>sv_machine = zisk_idle True, sv_lines = [], sv_exit = None\<rparr>"

definition answer_payload :: prove_payload where
  "answer_payload = sample_payload\<lparr>expected_output := ''0x2a''\<rparr>"

lemma zisk_proves:
  "\<exists>o1 m'. zisk_prove 1 proving (\<lambda>_. []) (\<lambda>ks. ks) accepting_lib sample_zisk_client (Some (600 * second)) [7]
      (zisk_idle True) = Some (Inr o1, m') \<and> public_values o1 = [42] \<and> submit_wait o1 = 0"
proof -
  obtain pf where t: "transcodeProof (put_envelope sample_envelope) = Inr pf"
    using sample_transcodes by blast
  have f: "length (zisk_framedStdin [7]) = 16" by (simp add: length_zisk_framedStdin)
  show ?thesis
    by (simp add: zisk_prove_def submitProveJob_def prove_attempt_def createProveJob_def f
        maxMessageBytes_def call_def proving_def prover_reply_def blank_reply_def zisk_idle_def ctx_done_def
        waitProveJob_def prove_result_def zisk_verify_def zisk_verifyProof_def t ver_verify_def accepting_lib_def
        sample_zisk_client_def zisk_mapPipeline_def on_phase_def second_def)
qed

theorem zisk_served_valid_witness:
  "\<exists>st'. serve_prove zisk_ready_fun (zisk_prove 1 proving (\<lambda>_. []) (\<lambda>ks. ks) accepting_lib sample_zisk_client)
      (\<lambda>_. []) sample_serve_config [1] (\<lambda>_. Inr answer_payload) (\<lambda>_. []) None [[]] zisk_idle_server
      = Some (Some (Rpc_status (verdict True [42])), st')
    \<and> (\<exists>k. zisk_accepted accepting_lib sample_zisk_client ([42] @ replicate k 0))"
proof -
  have p: "payload_of (\<lambda>_. Inr answer_payload) (\<lambda>_. []) [[]] = Inr (answer_payload, [7], [42])"
    by (simp add: payload_of_def answer_payload_def sample_payload_def decodeHex_def cut_prefix_def has_prefix_def
        hex_vals)
  have t: "proveTimeout sample_serve_config = 600 * second"
    by (simp add: proveTimeout_def sample_serve_config_def DefaultProveTimeout_def)
  have w: "wait_ready zisk_ready_fun sh h None zisk_idle_server = Some zisk_idle_server" for sh h
    by (simp add: wait_ready_def zisk_ready_fun_def zisk_waitReady_def zisk_idle_server_def second_def)
  have m: "sv_machine zisk_idle_server = zisk_idle True" "(zisk_idle True)\<lparr>phases := []\<rparr> = zisk_idle True"
    "clock (zisk_idle True) = 0"
    by (simp_all add: zisk_idle_server_def zisk_idle_def)
  from zisk_proves obtain o1 m' where
    z: "zisk_prove 1 proving (\<lambda>_. []) (\<lambda>ks. ks) accepting_lib sample_zisk_client (Some (600 * second)) [7]
      (zisk_idle True) = Some (Inr o1, m')" "public_values o1 = [42]" by blast
  obtain st' where r: "serve_prove zisk_ready_fun (zisk_prove 1 proving (\<lambda>_. []) (\<lambda>ks. ks) accepting_lib sample_zisk_client)
      (\<lambda>_. []) sample_serve_config [1] (\<lambda>_. Inr answer_payload) (\<lambda>_. []) None [[]] zisk_idle_server
      = Some (Some (Rpc_status (verdict True [42])), st')"
    by (simp add: serve_prove_def p prove_locked_def w run_prove_def m t with_timeout_def z report_proof_def
        outputMatched_def Let_def del: One_nat_def)
  from zisk_served_valid [OF r] p r show ?thesis by (auto simp: verdict_def)
qed

text \<open>C2: served on an OpenVM cluster, VALID means that the client's own verifier accepted a proof whose
  public values are the expected output followed by zeros, and every status is answered behind a metric
  of a time that is not negative and whose verdict is the status.\<close>

theorem openvm_served_valid:
  assumes "serve_prove (openvm_waitReady fuel srv) (openvm_prove fuel srv js parse lib draw cl) show cfg warm decode
      hex_error c params st = Some (Some (Rpc_status s), st')" and "status_text s = ''VALID''"
  shows "(\<exists>payload input expected k. payload_of decode hex_error params = Inr (payload, input, expected)
      \<and> openvm_accepted lib cl (expected @ replicate k 0))
    \<and> (\<exists>line. last (sv_lines st') = Metric line \<and> 0 \<le> total_ms line \<and> output_matched line)"
proof
  show "\<exists>payload input expected k. payload_of decode hex_error params = Inr (payload, input, expected)
      \<and> openvm_accepted lib cl (expected @ replicate k 0)"
    using assms by (rule openvm_server.valid_accepted)
  show "\<exists>line. last (sv_lines st') = Metric line \<and> 0 \<le> total_ms line \<and> output_matched line"
    using openvm_server.status_measured [OF assms(1)] assms(2) by blast
qed

theorem openvm_served_valid_witness:
  "\<exists>st'. serve_prove (openvm_waitReady 1 finishing) (openvm_prove 1 finishing plain_json (\<lambda>_. None) agreeing_lib
      (\<lambda>w. ([171], w)) sample_client) (\<lambda>_. []) sample_serve_config [1] (\<lambda>_. Inr answer_payload) (\<lambda>_. []) None [[]]
      \<lparr>sv_machine = idle_machine, sv_lines = [], sv_exit = None\<rparr> = Some (Some (Rpc_status (verdict True [42])), st')
    \<and> (\<exists>k. openvm_accepted agreeing_lib sample_client ([42] @ replicate k 0))"
proof -
  have p: "payload_of (\<lambda>_. Inr answer_payload) (\<lambda>_. []) [[]] = Inr (answer_payload, [7], [42])"
    by (simp add: payload_of_def answer_payload_def sample_payload_def decodeHex_def cut_prefix_def has_prefix_def
        hex_vals)
  have r: "\<exists>m1. openvm_waitReady 1 finishing None idle_machine = Some (Inr (), m1) \<and> clock m1 = 2"
    by (simp add: openvm_waitReady_def openvm_ready_def finishing_call idle_machine_def)
  have w: "\<exists>o1 m'. openvm_prove 1 finishing plain_json (\<lambda>_. None) agreeing_lib (\<lambda>w. ([171], w)) sample_client c [7] m
      = Some (Inr o1, m') \<and> public_values o1 = [42]" for c m
  proof -
    from finishing_wait obtain o1 m' where
      "waitProof 1 finishing plain_json (\<lambda>_. None) agreeing_lib (Some (Some 3)) c ''ab'' (finishing_submitted [7] m)
        = Some (Inr o1, m')" "public_values o1 = [42]" by blast
    then show ?thesis by (simp add: openvm_prove_def finishing_submit sample_client_def del: One_nat_def)
  qed
  from r obtain m1 where m1: "openvm_waitReady 1 finishing None idle_machine = Some (Inr (), m1)" "clock m1 = 2" by blast
  let ?c = "with_timeout None (proveTimeout sample_serve_config) 2"
  from w obtain o1 m' where o1: "openvm_prove 1 finishing plain_json (\<lambda>_. None) agreeing_lib (\<lambda>w. ([171], w)) sample_client
      ?c [7] (m1\<lparr>phases := []\<rparr>) = Some (Inr o1, m')" "public_values o1 = [42]" by blast
  obtain st' where r: "serve_prove (openvm_waitReady 1 finishing) (openvm_prove 1 finishing plain_json (\<lambda>_. None)
      agreeing_lib (\<lambda>w. ([171], w)) sample_client) (\<lambda>_. []) sample_serve_config [1] (\<lambda>_. Inr answer_payload) (\<lambda>_. [])
      None [[]] \<lparr>sv_machine = idle_machine, sv_lines = [], sv_exit = None\<rparr>
      = Some (Some (Rpc_status (verdict True [42])), st')"
    using m1 o1
    by (simp add: serve_prove_def p prove_locked_def wait_ready_def run_prove_def report_proof_def outputMatched_def
        Let_def idle_machine_def second_def del: One_nat_def)
  from openvm_served_valid [OF r] p r show ?thesis by (auto simp: verdict_def)
qed

end
