(* ===== verification/Estimate.thy ===== *)
theory Estimate
  imports Wire_Text "HOL-Library.AList" "HOL-Library.Multiset" "HOL-Library.List_Lexorder" "HOL-Library.Char_ord"
begin

text \<open>
  \<open>internal/estimate\<close>: the cost estimations of a results directory. A Go map is an association
  list with one entry per key, a directory listing is a list in the order \<open>ReadDir\<close> gives. The
  results directory is the state \<open>store\<close>: the directories of each kind by id, with the artifact and
  the test files of each. Every operation of the file system may fail, as the oracle \<open>io\<close> decides
  by the number of operations before it. JSON, the ere-server, SHA-256 and the fixtures source of
  benchmarkoor are parameters.
\<close>

section \<open>Kinds of estimates\<close>

datatype est_kind = Estimate_kind | Profile_kind

definition artifactName :: string where "artifactName = ''result.estimate.json''"
definition estimatesDir :: string where "estimatesDir = ''estimates''"
definition progressInterval :: nat where "progressInterval = 50"

definition ereServerTags :: "(string \<times> (string \<times> string) list) list" where
  "ereServerTags = [
     (''openvm'', [(''v2.1.0-preview'', ''0.19.4'')]),
     (''zisk'', [(''v1.2.0-alpha'', ''0.18.0''), (''v1.3.0-alpha'', ''77e2aae''), (''v1.3.1-alpha'', ''0.19.2''),
       (''v1.3.2-alpha'', ''0.19.4'')])]"

definition profileEreServerTags :: "(string \<times> (string \<times> string) list) list" where
  "profileEreServerTags = [
     (''openvm'', [(''v2.1.0-preview'', ''0.19.4'')]),
     (''zisk'', [(''v1.3.1-alpha'', ''0.19.2''), (''v1.3.2-alpha'', ''0.19.4'')])]"

fun kind_name :: "est_kind \<Rightarrow> string" where
  "kind_name Estimate_kind = ''estimate''" | "kind_name Profile_kind = ''profile''"

fun kind_tags :: "est_kind \<Rightarrow> (string \<times> (string \<times> string) list) list" where
  "kind_tags Estimate_kind = ereServerTags" | "kind_tags Profile_kind = profileEreServerTags"

fun kind_testFile :: "est_kind \<Rightarrow> string" where
  "kind_testFile Estimate_kind = []" | "kind_testFile Profile_kind = ''profile.pb.gz''"

section \<open>Artifacts\<close>

record 'c artifact =
  ar_timestamp :: int
  ar_suite :: string
  ar_instance :: string
  ar_client :: string
  ar_labels :: "(string \<times> string) list"
  ar_zkvm :: string
  ar_image :: string
  ar_image_sha :: string
  ar_command :: "string list"
  ar_elf_url :: string
  ar_elf_sha :: string
  ar_tests :: "(string \<times> 'c) list"
  ar_failures :: "(string \<times> string) list"

definition empty_artifact :: "'c artifact" where
  "empty_artifact = \<lparr>ar_timestamp = 0, ar_suite = [], ar_instance = [], ar_client = [], ar_labels = [], ar_zkvm = [],
     ar_image = [], ar_image_sha = [], ar_command = [], ar_elf_url = [], ar_elf_sha = [], ar_tests = [], ar_failures = []\<rparr>"

text \<open>What one test cost, or the failure of the guest on it.\<close>

record 'c test_outcome =
  oc_name :: string
  oc_result :: "string + 'c"

definition record_outcome :: "'c artifact \<Rightarrow> 'c test_outcome \<Rightarrow> 'c artifact" where
  "record_outcome result done =
     (case oc_result done of
        Inl message \<Rightarrow> result\<lparr>ar_failures := AList.update (oc_name done) message (ar_failures result)\<rparr>
      | Inr cost \<Rightarrow> result\<lparr>ar_tests := AList.update (oc_name done) cost (ar_tests result)\<rparr>)"

definition is_pending :: "'c artifact \<Rightarrow> string \<Rightarrow> bool" where
  "is_pending result name \<longleftrightarrow> map_of (ar_tests result) name = None \<and> map_of (ar_failures result) name = None"

definition pendingTests :: "string list \<Rightarrow> 'c artifact \<Rightarrow> string list" where
  "pendingTests names result = remdups (filter (is_pending result) names)"

definition sameEstimation :: "'c artifact \<Rightarrow> 'c artifact \<Rightarrow> bool" where
  "sameEstimation a b \<longleftrightarrow> ar_image a = ar_image b \<and> ar_elf_sha a = ar_elf_sha b \<and> ar_suite a = ar_suite b"

section \<open>The results directory\<close>

datatype 'c art_file =
    No_artifact
  | Artifact_unparsed
  | Artifact "'c artifact"

record 'c est_dir =
  ed_artifact :: "'c art_file"
  ed_files :: "(string \<times> string) list"

record 'c store =
  dirs_of :: "est_kind \<Rightarrow> (string \<times> 'c est_dir) list"
  ops :: nat

datatype est_error =
    Io_error string
  | Reading_artifact est_kind string
  | Not_local string
  | No_zkvm_label
  | No_tag string string
  | No_elf_argument
  | Other_guest est_kind string
  | Elf_needs_run
  | Not_beside_runs est_kind string
  | Exists_already est_kind string
  | Other_suite string string
  | Other_elf string string
  | No_such_file
  | Measuring string string
  | Walking string
  | Missing_fixtures nat string
  | Bad_fixture string
  | Serving string
  | No_fixture_source
  | Instance_failed string est_error
  | Preparing string

type_synonym io_oracle = "nat \<Rightarrow> string option"

definition empty_dir :: "'c est_dir" where
  "empty_dir = \<lparr>ed_artifact = No_artifact, ed_files = []\<rparr>"

definition dir_of :: "'c store \<Rightarrow> est_kind \<Rightarrow> string \<Rightarrow> 'c est_dir" where
  "dir_of s k est = (case map_of (dirs_of s k) est of Some d \<Rightarrow> d | None \<Rightarrow> empty_dir)"

text \<open>A listing keeps its order when a directory is added.\<close>

fun put_entry :: "'k :: linorder \<Rightarrow> 'v \<Rightarrow> ('k \<times> 'v) list \<Rightarrow> ('k \<times> 'v) list" where
  "put_entry k v [] = [(k, v)]"
| "put_entry k v ((k', v') # es) =
     (if k = k' then (k, v) # es else if k < k' then (k, v) # (k', v') # es else (k', v') # put_entry k v es)"

definition set_dir :: "est_kind \<Rightarrow> string \<Rightarrow> 'c est_dir \<Rightarrow> 'c store \<Rightarrow> 'c store" where
  "set_dir k est d s = s\<lparr>dirs_of := (dirs_of s)(k := put_entry est d (dirs_of s k))\<rparr>"

text \<open>One operation of the file system that may fail.\<close>

definition io_step :: "io_oracle \<Rightarrow> 'c store \<Rightarrow> (est_error + unit) \<times> 'c store" where
  "io_step io s = (case io (ops s) of None \<Rightarrow> Inr () | Some e \<Rightarrow> Inl (Io_error e), s\<lparr>ops := Suc (ops s)\<rparr>)"

definition readArtifact :: "io_oracle \<Rightarrow> est_kind \<Rightarrow> string \<Rightarrow> 'c store \<Rightarrow> (est_error + 'c artifact) \<times> 'c store" where
  "readArtifact io k est s =
     (case io_step io s of
        (Inl e, s1) \<Rightarrow> (Inl e, s1)
      | (Inr _, s1) \<Rightarrow>
          (case ed_artifact (dir_of s1 k est) of
             No_artifact \<Rightarrow> (Inr empty_artifact, s1)
           | Artifact_unparsed \<Rightarrow> (Inl (Reading_artifact k est), s1)
           | Artifact a \<Rightarrow> (Inr a, s1)))"

text \<open>\<open>writeArtifact\<close> replaces the artifact or leaves it, see \<open>writeFile\<close> below.\<close>

definition writeArtifact :: "io_oracle \<Rightarrow> est_kind \<Rightarrow> string \<Rightarrow> 'c artifact \<Rightarrow> 'c store \<Rightarrow> (est_error + unit) \<times> 'c store" where
  "writeArtifact io k est a s =
     (case io_step io s of
        (Inl e, s1) \<Rightarrow> (Inl e, s1)
      | (Inr _, s1) \<Rightarrow> (Inr (), set_dir k est ((dir_of s1 k est)\<lparr>ed_artifact := Artifact a\<rparr>) s1))"

definition merge_map :: "(string \<times> 'v) list \<Rightarrow> (string \<times> 'v) list \<Rightarrow> (string \<times> 'v) list" where
  "merge_map src dst = fold (\<lambda>(n, v) m. AList.update n v m) src dst"

definition delete_keys :: "string list \<Rightarrow> (string \<times> 'v) list \<Rightarrow> (string \<times> 'v) list" where
  "delete_keys names m = fold (\<lambda>n m. AList.delete n m) names m"

definition merged_artifact :: "'c artifact \<Rightarrow> 'c artifact \<Rightarrow> 'c artifact" where
  "merged_artifact result mirror =
     result\<lparr>ar_tests := merge_map (ar_tests result) (delete_keys (map fst (ar_failures result)) (ar_tests mirror)),
            ar_failures := merge_map (ar_failures result) (delete_keys (map fst (ar_tests result)) (ar_failures mirror))\<rparr>"

definition est_save ::
  "io_oracle \<Rightarrow> est_kind \<Rightarrow> string \<Rightarrow> 'c artifact \<Rightarrow> 'c artifact option \<Rightarrow> 'c store \<Rightarrow> (est_error + unit) \<times> 'c store" where
  "est_save io k est result mirror s =
     (case writeArtifact io k est result s of
        (Inl e, s1) \<Rightarrow> (Inl e, s1)
      | (Inr _, s1) \<Rightarrow>
          (case mirror of
             None \<Rightarrow> (Inr (), s1)
           | Some m \<Rightarrow> writeArtifact io Estimate_kind est (merged_artifact result m) s1))"

text \<open>\<open>scanEstimates\<close> hands the artifacts of a directory to a visitor, here the list of what it would
  be handed, up to the first error.\<close>

fun scan_ids ::
  "io_oracle \<Rightarrow> est_kind \<Rightarrow> string list \<Rightarrow> 'c store \<Rightarrow> (string \<times> 'c artifact) list \<times> est_error option \<times> 'c store" where
  "scan_ids io k [] s = ([], None, s)"
| "scan_ids io k (est # ids) s =
     (case readArtifact io k est s of
        (Inl e, s1) \<Rightarrow> ([], Some e, s1)
      | (Inr a, s1) \<Rightarrow> (case scan_ids io k ids s1 of (vs, e, s2) \<Rightarrow> ((est, a) # vs, e, s2)))"

definition scanEstimates ::
  "io_oracle \<Rightarrow> est_kind \<Rightarrow> 'c store \<Rightarrow> (string \<times> 'c artifact) list \<times> est_error option \<times> 'c store" where
  "scanEstimates io k s =
     (case io_step io s of
        (Inl e, s1) \<Rightarrow> ([], Some e, s1)
      | (Inr _, s1) \<Rightarrow> scan_ids io k (map fst (dirs_of s1 k)) s1)"

section \<open>Reusing earlier estimations\<close>

text \<open>The body of the loop over the pending tests: the artifact, the count and the source of each copied
  cost.\<close>

definition reuse_test ::
  "string \<Rightarrow> 'c artifact \<Rightarrow> string \<Rightarrow> 'c artifact \<times> nat \<times> (string \<times> string) list
    \<Rightarrow> 'c artifact \<times> nat \<times> (string \<times> string) list" where
  "reuse_test otherID other name acc =
     (case acc of (result, reused, sources) \<Rightarrow>
        case map_of (ar_tests other) name of
          Some cost \<Rightarrow>
            (result\<lparr>ar_tests := AList.update name cost (ar_tests result)\<rparr>, Suc reused,
             AList.update name otherID sources)
        | None \<Rightarrow>
            (case map_of (ar_failures other) name of
               Some message \<Rightarrow>
                 (result\<lparr>ar_failures := AList.update name message (ar_failures result)\<rparr>, Suc reused, sources)
             | None \<Rightarrow> acc))"

definition reuse_visit ::
  "string \<Rightarrow> string list \<Rightarrow> string \<times> 'c artifact \<Rightarrow> 'c artifact \<times> nat \<times> (string \<times> string) list
    \<Rightarrow> 'c artifact \<times> nat \<times> (string \<times> string) list" where
  "reuse_visit est names v acc =
     (case v of (otherID, other) \<Rightarrow> case acc of (result, reused, sources) \<Rightarrow>
        if otherID = est \<or> \<not> sameEstimation other result then acc
        else fold (reuse_test otherID other) (pendingTests names result) acc)"

definition reuseEstimates ::
  "io_oracle \<Rightarrow> est_kind \<Rightarrow> string \<Rightarrow> string list \<Rightarrow> 'c artifact \<Rightarrow> 'c store
    \<Rightarrow> (est_error + 'c artifact \<times> nat \<times> (string \<times> string) list) \<times> 'c store" where
  "reuseEstimates io k est names result s =
     (case scanEstimates io k s of
        (vs, Some e, s1) \<Rightarrow> (Inl e, s1)
      | (vs, None, s1) \<Rightarrow> (Inr (fold (reuse_visit est names) vs (result, 0, [])), s1))"

definition latest_visit :: "'c artifact \<Rightarrow> string \<times> 'c artifact \<Rightarrow> (string \<times> 'c artifact) option \<Rightarrow> (string \<times> 'c artifact) option" where
  "latest_visit started v latest =
     (if ar_instance (snd v) = ar_instance started \<and> sameEstimation (snd v) started
         \<and> (case latest of None \<Rightarrow> True | Some (_, l) \<Rightarrow> ar_timestamp l < ar_timestamp (snd v))
      then Some v else latest)"

definition continuation ::
  "io_oracle \<Rightarrow> est_kind \<Rightarrow> 'c artifact \<Rightarrow> 'c store \<Rightarrow> (est_error + (string \<times> 'c artifact) option) \<times> 'c store" where
  "continuation io k started s =
     (case scanEstimates io k s of
        (vs, Some e, s1) \<Rightarrow> (Inl e, s1)
      | (vs, None, s1) \<Rightarrow> (Inr (fold (latest_visit started) vs None), s1))"

definition checkResumable :: "est_kind \<Rightarrow> string \<Rightarrow> 'c artifact \<Rightarrow> string \<Rightarrow> string \<Rightarrow> est_error + unit" where
  "checkResumable k est result img elfSHA256 =
     (if ar_tests result = [] \<and> ar_failures result = [] then Inr ()
      else if ar_image result = img \<and> ar_elf_sha result = elfSHA256 then Inr ()
      else Inl (Other_guest k est))"

definition readMirror ::
  "io_oracle \<Rightarrow> est_kind \<Rightarrow> string \<Rightarrow> 'c artifact \<Rightarrow> 'c store \<Rightarrow> (est_error + 'c artifact option) \<times> 'c store" where
  "readMirror io k est result s =
     (if k \<noteq> Profile_kind then (Inr None, s)
      else (case readArtifact io Estimate_kind est s of
              (Inl e, s1) \<Rightarrow> (Inl e, s1)
            | (Inr mirror, s1) \<Rightarrow>
                if ed_artifact (dir_of s1 Estimate_kind est) \<noteq> No_artifact \<and> \<not> sameEstimation mirror result
                then (Inr None, s1) else (Inr (Some mirror), s1)))"

section \<open>Paths of test files\<close>

definition maxResultPathComponent :: nat where "maxResultPathComponent = 200"

definition sanitize_component :: "(bytes \<Rightarrow> bytes) \<Rightarrow> string \<Rightarrow> string" where
  "sanitize_component sha256 p =
     (if maxResultPathComponent < length p
      then List.take (maxResultPathComponent - 17) p @ ''-'' @ hex_encode (List.take 8 (sha256 (bytes_of p)))
      else p)"

definition sanitizeResultPath :: "(bytes \<Rightarrow> bytes) \<Rightarrow> string \<Rightarrow> string" where
  "sanitizeResultPath sha256 name =
     (let parts = split_on CHR ''/'' name in
      if list_all (\<lambda>p. length p \<le> maxResultPathComponent) parts then name
      else join ''/'' (map (sanitize_component sha256) parts))"

text \<open>\<open>filepath.IsLocal\<close> on Unix: neither empty nor absolute, and no prefix of the components leaves the
  directory.\<close>

fun stays_inside :: "nat \<Rightarrow> string list \<Rightarrow> bool" where
  "stays_inside depth [] \<longleftrightarrow> True"
| "stays_inside depth (c # cs) \<longleftrightarrow>
     (if c = [] \<or> c = ''.'' then stays_inside depth cs
      else if c = ''..'' then 0 < depth \<and> stays_inside (depth - 1) cs
      else stays_inside (Suc depth) cs)"

definition is_local :: "string \<Rightarrow> bool" where
  "is_local p \<longleftrightarrow> p \<noteq> [] \<and> hd p \<noteq> CHR ''/'' \<and> stays_inside 0 (split_on CHR ''/'' p)"

text \<open>A test file is known by its path inside the directory of its estimate.\<close>

definition test_path :: "(bytes \<Rightarrow> bytes) \<Rightarrow> est_kind \<Rightarrow> string \<Rightarrow> string" where
  "test_path sha256 k name = sanitizeResultPath sha256 name @ ''/'' @ kind_testFile k"

definition write_test_file ::
  "io_oracle \<Rightarrow> (bytes \<Rightarrow> bytes) \<Rightarrow> est_kind \<Rightarrow> string \<Rightarrow> string \<Rightarrow> string \<Rightarrow> 'c store \<Rightarrow> (est_error + unit) \<times> 'c store" where
  "write_test_file io sha256 k est name content s =
     (case io_step io s of
        (Inl e, s1) \<Rightarrow> (Inl e, s1)
      | (Inr _, s1) \<Rightarrow>
          (let d = dir_of s1 k est in
           (Inr (), set_dir k est (d\<lparr>ed_files := AList.update (test_path sha256 k name) content (ed_files d)\<rparr>) s1)))"

text \<open>One link of \<open>linkTestFiles\<close>: the directories are made, the old file is removed, and the file of
  the other estimate is linked.\<close>

definition link_test_file ::
  "io_oracle \<Rightarrow> (bytes \<Rightarrow> bytes) \<Rightarrow> est_kind \<Rightarrow> string \<Rightarrow> string \<Rightarrow> string \<Rightarrow> 'c store \<Rightarrow> (est_error + unit) \<times> 'c store" where
  "link_test_file io sha256 k est name otherID s =
     (case io_step io s of
        (Inl e, s1) \<Rightarrow> (Inl e, s1)
      | (Inr _, s1) \<Rightarrow>
          (case io_step io s1 of
             (Inl e, s2) \<Rightarrow> (Inl e, s2)
           | (Inr _, s2) \<Rightarrow>
               (let d = dir_of s2 k est; path = test_path sha256 k name;
                    s3 = set_dir k est (d\<lparr>ed_files := AList.delete path (ed_files d)\<rparr>) s2
                in case map_of (ed_files (dir_of s3 k otherID)) path of
                     None \<Rightarrow> (Inl No_such_file, s3)
                   | Some content \<Rightarrow>
                       (case io_step io s3 of
                          (Inl e, s4) \<Rightarrow> (Inl e, s4)
                        | (Inr _, s4) \<Rightarrow>
                            (let d = dir_of s4 k est in
                             (Inr (), set_dir k est (d\<lparr>ed_files := AList.update path content (ed_files d)\<rparr>) s4))))))"

fun link_all ::
  "io_oracle \<Rightarrow> (bytes \<Rightarrow> bytes) \<Rightarrow> est_kind \<Rightarrow> string \<Rightarrow> (string \<times> string) list \<Rightarrow> 'c store \<Rightarrow> (est_error + unit) \<times> 'c store" where
  "link_all io sha256 k est [] s = (Inr (), s)"
| "link_all io sha256 k est ((name, otherID) # sources) s =
     (case link_test_file io sha256 k est name otherID s of
        (Inl e, s1) \<Rightarrow> (Inl e, s1)
      | (Inr _, s1) \<Rightarrow> link_all io sha256 k est sources s1)"

definition linkTestFiles ::
  "io_oracle \<Rightarrow> (bytes \<Rightarrow> bytes) \<Rightarrow> est_kind \<Rightarrow> string \<Rightarrow> (string \<times> string) list \<Rightarrow> 'c store \<Rightarrow> (est_error + unit) \<times> 'c store" where
  "linkTestFiles io sha256 k est sources s =
     (if kind_testFile k = [] then (Inr (), s) else link_all io sha256 k est sources s)"

end
