(* ===== verification/Estimate_Run.thy ===== *)
theory Estimate_Run
  imports Estimate
begin

text \<open>
  The commands of \<open>internal/estimate\<close> over the results directory of \<open>Estimate\<close>: which tests
  of a suite are measured (\<open>input.go\<close>), the loop over the outcomes of the workers, and
  \<open>Run\<close>, \<open>Profile\<close> and \<open>Link\<close>. The workers are a schedule: the outcomes in the order
  they arrive in and the first error of their group. \<open>relative\<close> is \<open>relativeToWorkingDir\<close>
  with \<open>filepath.Clean\<close>, \<open>resolve\<close> reads an ELF, \<open>sha256\<close> is the digest.
\<close>

section \<open>Inputs\<close>

fun elfSource :: "string list \<Rightarrow> est_error + string" where
  "elfSource [] = Inl No_elf_argument"
| "elfSource (arg # rest) =
     (case cut_prefix ''--elf='' arg of
        Some source \<Rightarrow> Inr source
      | None \<Rightarrow> if arg = ''--elf'' \<and> rest \<noteq> [] then Inr (hd rest) else elfSource rest)"

record run_parsed =
  rp_timestamp :: int
  rp_suite :: string
  rp_instance :: string
  rp_client :: string
  rp_extra_args :: "string list"
  rp_labels :: "(string \<times> string) list"

record run_config =
  rc_timestamp :: int
  rc_suite :: string
  rc_instance :: string
  rc_client :: string
  rc_labels :: "(string \<times> string) list"
  rc_elf_source :: string

text \<open>A Go map read at an absent key is the empty string.\<close>

definition label :: "string \<Rightarrow> (string \<times> string) list \<Rightarrow> string" where
  "label k ls = (case map_of ls k of Some v \<Rightarrow> v | None \<Rightarrow> [])"

definition parseRunConfig :: "run_parsed \<Rightarrow> est_error + run_config" where
  "parseRunConfig p =
     (if label ''zkvm'' (rp_labels p) = [] then Inl No_zkvm_label
      else rbind (elfSource (rp_extra_args p)) (\<lambda>source.
        Inr \<lparr>rc_timestamp = rp_timestamp p, rc_suite = rp_suite p, rc_instance = rp_instance p,
             rc_client = rp_client p, rc_labels = rp_labels p, rc_elf_source = source\<rparr>))"

definition readTestNames :: "(string \<times> 'r) list \<Rightarrow> string list" where
  "readTestNames tests = sort (map fst tests)"

record fixture =
  fx_inputs :: "string list"

datatype fixture_file =
    Unreadable string
  | Other_shape
  | Fixtures "(string \<times> fixture) list"

definition statelessInput :: "fixture \<Rightarrow> bytes option" where
  "statelessInput f =
     (if fx_inputs f = [] then None
      else (let input = last (fx_inputs f) in
            if input = [] \<or> input = ''0x'' then None else hex_decode (trim_prefix ''0x'' input)))"

record job =
  jb_name :: string
  jb_stdin :: bytes

text \<open>The fixtures of one file: the jobs sent, and the tests still missing or the error.\<close>

fun walk_keys :: "string list \<Rightarrow> (string \<times> fixture) list \<Rightarrow> job list \<times> (est_error + string list)" where
  "walk_keys missing [] = ([], Inr missing)"
| "walk_keys missing ((key, f) # fs) =
     (let name = trim_prefix ''tests/'' key in
      if name \<notin> set missing then walk_keys missing fs
      else (case statelessInput f of
              None \<Rightarrow> ([], Inl (Bad_fixture name))
            | Some stdin \<Rightarrow>
                (case walk_keys (removeAll name missing) fs of
                   (js, r) \<Rightarrow> (\<lparr>jb_name = name, jb_stdin = stdin\<rparr> # js, r))))"

fun walk_files :: "string list \<Rightarrow> (string \<times> fixture_file) list \<Rightarrow> job list \<times> (est_error + string list)" where
  "walk_files missing [] = ([], Inr missing)"
| "walk_files missing ((path, file) # fs) =
     (if \<not> has_suffix ''.json'' path then walk_files missing fs
      else (case file of
              Unreadable e \<Rightarrow> ([], Inl (Walking e))
            | Other_shape \<Rightarrow> walk_files missing fs
            | Fixtures keys \<Rightarrow>
                (case walk_keys missing keys of
                   (js, Inl e) \<Rightarrow> (js, Inl e)
                 | (js, Inr missing1) \<Rightarrow> (case walk_files missing1 fs of (js1, r) \<Rightarrow> (js @ js1, r)))))"

definition walkFixtures :: "(string \<times> fixture_file) list \<Rightarrow> string list \<Rightarrow> job list \<times> est_error option" where
  "walkFixtures files pending =
     (case walk_files pending files of
        (js, Inl e) \<Rightarrow> (js, Some e)
      | (js, Inr missing) \<Rightarrow>
          (js, if missing = [] then None else Some (Missing_fixtures (length missing) (hd (sort missing)))))"

section \<open>Measuring\<close>

datatype 'c measured =
    Measured 'c "string option"
  | Guest_failed string
  | Measure_failed string

datatype 'c executed =
    Executed 'c
  | Execution_failed string
  | Call_failed string

definition estimateTest :: "(bytes \<Rightarrow> 'c executed) \<Rightarrow> bytes \<Rightarrow> 'c measured" where
  "estimateTest execute stdin =
     (case execute stdin of
        Executed cost \<Rightarrow> Measured cost None
      | Execution_failed message \<Rightarrow> Guest_failed message
      | Call_failed e \<Rightarrow> Measure_failed e)"

definition profileTest :: "(bytes \<Rightarrow> ('c \<times> string) executed) \<Rightarrow> (string \<Rightarrow> string) \<Rightarrow> bytes \<Rightarrow> 'c measured" where
  "profileTest execute gzip stdin =
     (case execute stdin of
        Executed (cost, pprof) \<Rightarrow> Measured cost (Some (gzip pprof))
      | Execution_failed message \<Rightarrow> Guest_failed message
      | Call_failed e \<Rightarrow> Measure_failed e)"

text \<open>An outcome on its way to the loop, with the content its worker has written before.\<close>

record 'c delivery =
  dl_outcome :: "'c test_outcome"
  dl_content :: "string option"

fun deliver :: "job \<Rightarrow> 'c measured \<Rightarrow> 'c delivery option" where
  "deliver j (Measured cost content) =
     Some \<lparr>dl_outcome = \<lparr>oc_name = jb_name j, oc_result = Inr cost\<rparr>, dl_content = content\<rparr>"
| "deliver j (Guest_failed message) =
     Some \<lparr>dl_outcome = \<lparr>oc_name = jb_name j, oc_result = Inl message\<rparr>, dl_content = None\<rparr>"
| "deliver j (Measure_failed e) = None"

text \<open>What a group of workers may deliver: some of the outcomes of the jobs in any order, and all of
  them where it ends without an error.\<close>

definition group_result ::
  "job list \<times> est_error option \<Rightarrow> (bytes \<Rightarrow> 'c measured) \<Rightarrow> 'c delivery list \<Rightarrow> est_error option \<Rightarrow> bool" where
  "group_result walked meas ds err \<longleftrightarrow>
     (let all = map (\<lambda>j. deliver j (meas (jb_stdin j))) (fst walked) in
      mset ds \<subseteq># mset (map the (filter (\<lambda>d. d \<noteq> None) all))
      \<and> (err = None \<longrightarrow> snd walked = None \<and> None \<notin> set all \<and> mset (map Some ds) = mset all))"

section \<open>The loop over the outcomes\<close>

record 'c loop_state =
  lp_result :: "'c artifact"
  lp_store :: "'c store"
  lp_estimated :: nat
  lp_failed :: nat
  lp_save_error :: "est_error option"

definition land_file :: "(bytes \<Rightarrow> bytes) \<Rightarrow> est_kind \<Rightarrow> string \<Rightarrow> 'c delivery \<Rightarrow> 'c store \<Rightarrow> 'c store" where
  "land_file sha256 k est d s =
     (case dl_content d of
        None \<Rightarrow> s
      | Some content \<Rightarrow>
          (let e = dir_of s k est in
           set_dir k est (e\<lparr>ed_files := AList.update (test_path sha256 k (oc_name (dl_outcome d))) content (ed_files e)\<rparr>) s))"

definition loop_step ::
  "io_oracle \<Rightarrow> (bytes \<Rightarrow> bytes) \<Rightarrow> est_kind \<Rightarrow> string \<Rightarrow> 'c artifact option \<Rightarrow> 'c delivery \<Rightarrow> 'c loop_state \<Rightarrow> 'c loop_state" where
  "loop_step io sha256 k est mirror d lp =
     (let s1 = land_file sha256 k est d (lp_store lp);
          result = record_outcome (lp_result lp) (dl_outcome d);
          n = Suc (lp_estimated lp);
          failed = (if isl (oc_result (dl_outcome d)) then Suc (lp_failed lp) else lp_failed lp);
          lp1 = \<lparr>lp_result = result, lp_store = s1, lp_estimated = n, lp_failed = failed, lp_save_error = lp_save_error lp\<rparr>
      in if lp_save_error lp \<noteq> None \<or> n mod progressInterval \<noteq> 0 then lp1
         else (case est_save io k est result mirror s1 of
                 (Inl e, s2) \<Rightarrow> lp1\<lparr>lp_store := s2, lp_save_error := Some e\<rparr>
               | (Inr _, s2) \<Rightarrow> lp1\<lparr>lp_store := s2\<rparr>))"

text \<open>The error of the command, the artifact in memory and the store.\<close>

definition estimateAll ::
  "io_oracle \<Rightarrow> (bytes \<Rightarrow> bytes) \<Rightarrow> est_kind \<Rightarrow> string \<Rightarrow> 'c artifact option \<Rightarrow> 'c delivery list \<Rightarrow> est_error option
    \<Rightarrow> 'c artifact \<Rightarrow> 'c store \<Rightarrow> est_error option \<times> 'c artifact \<times> 'c store" where
  "estimateAll io sha256 k est mirror ds err result s =
     (let lp = fold (loop_step io sha256 k est mirror) ds
            \<lparr>lp_result = result, lp_store = s, lp_estimated = 0, lp_failed = 0, lp_save_error = None\<rparr>
      in if lp_save_error lp \<noteq> None then (lp_save_error lp, lp_result lp, lp_store lp)
         else if ar_tests (lp_result lp) = [] \<and> ar_failures (lp_result lp) = [] then (err, lp_result lp, lp_store lp)
         else (case est_save io k est (lp_result lp) mirror (lp_store lp) of
                 (Inl e, s2) \<Rightarrow> (if err = None then Some e else err, lp_result lp, s2)
               | (Inr _, s2) \<Rightarrow> (err, lp_result lp, s2)))"

text \<open>\<open>start\<close> prepares the fixtures and starts the ere-server, which answers its image digest;
  \<open>workers\<close> is the schedule of the workers; \<open>ord\<close> the order Go ranges over the sources in.\<close>

definition complete ::
  "io_oracle \<Rightarrow> (bytes \<Rightarrow> bytes) \<Rightarrow> est_kind \<Rightarrow> string \<Rightarrow> string list \<Rightarrow> (string list \<Rightarrow> est_error + string)
    \<Rightarrow> (string list \<Rightarrow> 'c delivery list \<times> est_error option) \<Rightarrow> ((string \<times> string) list \<Rightarrow> (string \<times> string) list)
    \<Rightarrow> 'c artifact \<Rightarrow> 'c store \<Rightarrow> est_error option \<times> 'c artifact \<times> 'c store" where
  "complete io sha256 k est names start workers ord result0 s0 =
     (if kind_testFile k \<noteq> [] \<and> \<not> list_all (\<lambda>n. is_local (sanitizeResultPath sha256 n)) names
      then (Some (Not_local (hd (filter (\<lambda>n. \<not> is_local (sanitizeResultPath sha256 n)) names))), result0, s0)
      else
        (case readMirror io k est result0 s0 of
           (Inl e, s1) \<Rightarrow> (Some e, result0, s1)
         | (Inr mirror, s1) \<Rightarrow>
             (case reuseEstimates io k est names result0 s1 of
                (Inl e, s2) \<Rightarrow> (Some e, result0, s2)
              | (Inr (result, reused, sources), s2) \<Rightarrow>
                  (let pending = pendingTests names result in
                   if pending = [] then
                     (case linkTestFiles io sha256 k est (ord sources) s2 of
                        (Inl e, s3) \<Rightarrow> (Some e, result, s3)
                      | (Inr _, s3) \<Rightarrow>
                          (case est_save io k est result mirror s3 of
                             (Inl e, s4) \<Rightarrow> (Some e, result, s4)
                           | (Inr _, s4) \<Rightarrow> (None, result, s4)))
                   else
                     (case start pending of
                        Inl e \<Rightarrow> (Some e, result, s2)
                      | Inr image_sha \<Rightarrow>
                          (let result1 = result\<lparr>ar_image_sha := image_sha\<rparr> in
                           case linkTestFiles io sha256 k est (ord sources) s2 of
                             (Inl e, s3) \<Rightarrow> (Some e, result1, s3)
                           | (Inr _, s3) \<Rightarrow>
                               (case workers pending of
                                  (ds, err) \<Rightarrow> estimateAll io sha256 k est mirror ds err result1 s3)))))))"

section \<open>Guests\<close>

definition ereServerTag :: "est_kind \<Rightarrow> string \<Rightarrow> string \<Rightarrow> string \<Rightarrow> est_error + string" where
  "ereServerTag k zkvm zkvmVersion ereTag =
     (if zkvm = [] then Inl No_zkvm_label
      else if ereTag \<noteq> [] then Inr ereTag
      else (case map_of (kind_tags k) zkvm of
              None \<Rightarrow> Inl (No_tag zkvm zkvmVersion)
            | Some tags \<Rightarrow>
                (case map_of tags zkvmVersion of
                   None \<Rightarrow> Inl (No_tag zkvm zkvmVersion)
                 | Some tag \<Rightarrow> Inr tag)))"

definition resolveELF :: "(bytes \<Rightarrow> bytes) \<Rightarrow> (string \<Rightarrow> est_error + bytes) \<Rightarrow> string \<Rightarrow> est_error + (bytes \<times> string)" where
  "resolveELF sha256 resolve source = rbind (resolve source) (\<lambda>elf. Inr (elf, hex_encode (sha256 elf)))"

definition resolveGuest ::
  "est_kind \<Rightarrow> (bytes \<Rightarrow> bytes) \<Rightarrow> (string \<Rightarrow> est_error + bytes) \<Rightarrow> (string \<times> string) list \<Rightarrow> string \<Rightarrow> string
    \<Rightarrow> est_error + (string \<times> bytes \<times> string)" where
  "resolveGuest k sha256 resolve labels ereTag source =
     rbind (ereServerTag k (label ''zkvm'' labels) (label ''zkvm_version'' labels) ereTag) (\<lambda>tag.
     rbind (resolveELF sha256 resolve source) (\<lambda>(elf, elfSHA256). Inr (tag, elf, elfSHA256)))"

definition ereserver_image :: "string \<Rightarrow> string \<Rightarrow> string" where
  "ereserver_image zkvm tag = ''ghcr.io/eth-act/ere/ere-server-'' @ zkvm @ '':'' @ tag"

definition newEstimateID :: "int \<Rightarrow> bytes \<Rightarrow> string \<Rightarrow> string" where
  "newEstimateID timestamp random instanceID = itoa timestamp @ ''_'' @ hex_encode random @ ''_'' @ instanceID"

definition invocation :: "(string \<Rightarrow> string) \<Rightarrow> est_kind \<Rightarrow> string \<Rightarrow> string \<Rightarrow> string list" where
  "invocation clean_relative k target tag = [''provoor'', kind_name k, clean_relative target, ''--ere-tag'', tag]"

section \<open>The commands\<close>

text \<open>\<open>estimateRun\<close>: \<open>est\<close> is the base name of the run directory, \<open>run\<close> and \<open>names\<close>
  what its files hold, \<open>relative\<close> and \<open>clean_relative\<close> the path functions of the working
  directory.\<close>

definition estimateRun ::
  "io_oracle \<Rightarrow> (bytes \<Rightarrow> bytes) \<Rightarrow> (string \<Rightarrow> est_error + bytes) \<Rightarrow> (string \<Rightarrow> string) \<Rightarrow> (string \<Rightarrow> string)
    \<Rightarrow> (string list \<Rightarrow> est_error + string) \<Rightarrow> (string list \<Rightarrow> 'c delivery list \<times> est_error option)
    \<Rightarrow> ((string \<times> string) list \<Rightarrow> (string \<times> string) list)
    \<Rightarrow> est_kind \<Rightarrow> string \<Rightarrow> string \<Rightarrow> est_error + run_config \<Rightarrow> est_error + string list \<Rightarrow> string \<Rightarrow> string \<Rightarrow> 'c store
    \<Rightarrow> est_error option \<times> 'c store" where
  "estimateRun io sha256 resolve relative clean_relative start workers ord k runDir est run_read names_read ereTag elfURL s =
     (case rbind run_read (\<lambda>run. rbind names_read (\<lambda>names. Inr (run, names))) of
        Inl e \<Rightarrow> (Some e, s)
      | Inr (run, names) \<Rightarrow>
          (case readArtifact io k est s of
             (Inl e, s1) \<Rightarrow> (Some e, s1)
           | (Inr result, s1) \<Rightarrow>
               (let source = (if elfURL \<noteq> [] then elfURL else rc_elf_source run) in
                case resolveGuest k sha256 resolve (rc_labels run) ereTag source of
                  Inl e \<Rightarrow> (Some e, s1)
                | Inr (tag, elf, elfSHA256) \<Rightarrow>
                    (let zkvm = label ''zkvm'' (rc_labels run); img = ereserver_image zkvm tag in
                     case checkResumable k est result img elfSHA256 of
                       Inl e \<Rightarrow> (Some e, s1)
                     | Inr _ \<Rightarrow>
                         (let result1 = result\<lparr>ar_timestamp := rc_timestamp run, ar_suite := rc_suite run,
                                ar_instance := rc_instance run, ar_client := rc_client run, ar_labels := rc_labels run,
                                ar_zkvm := zkvm, ar_image := img, ar_elf_url := relative source, ar_elf_sha := elfSHA256,
                                ar_command := invocation clean_relative k runDir tag @ [''--elf'', relative source]\<rparr>
                          in case complete io sha256 k est names start workers ord result1 s1 of
                               (err, _, s2) \<Rightarrow> (err, s2))))))"

record cfg_instance =
  ci_id :: string
  ci_client :: string
  ci_extra_args :: "string list"
  ci_labels :: "(string \<times> string) list"

definition newEstimate ::
  "est_kind \<Rightarrow> (bytes \<Rightarrow> bytes) \<Rightarrow> (string \<Rightarrow> est_error + bytes) \<Rightarrow> (string \<Rightarrow> string) \<Rightarrow> (string \<Rightarrow> string) \<Rightarrow> string
    \<Rightarrow> string \<Rightarrow> cfg_instance \<Rightarrow> est_error + 'c artifact" where
  "newEstimate k sha256 resolve relative clean_relative path ereTag i =
     rbind (elfSource (ci_extra_args i)) (\<lambda>source.
     rbind (resolveGuest k sha256 resolve (ci_labels i) ereTag source) (\<lambda>(tag, elf, elfSHA256).
     Inr (empty_artifact\<lparr>ar_instance := ci_id i, ar_client := ci_client i, ar_labels := ci_labels i,
       ar_zkvm := label ''zkvm'' (ci_labels i), ar_image := ereserver_image (label ''zkvm'' (ci_labels i)) tag,
       ar_command := invocation clean_relative k path tag, ar_elf_url := relative source, ar_elf_sha := elfSHA256\<rparr>)))"

text \<open>One instance of a configuration whose suite is prepared: it continues its latest estimate or starts
  the estimate \<open>fresh\<close> at the time \<open>now\<close>.\<close>

definition estimate_instance ::
  "io_oracle \<Rightarrow> (bytes \<Rightarrow> bytes) \<Rightarrow> (string list \<Rightarrow> est_error + string) \<Rightarrow> (string list \<Rightarrow> 'c delivery list \<times> est_error option)
    \<Rightarrow> ((string \<times> string) list \<Rightarrow> (string \<times> string) list) \<Rightarrow> est_kind \<Rightarrow> string list \<Rightarrow> string \<Rightarrow> int \<Rightarrow> bytes
    \<Rightarrow> 'c artifact \<Rightarrow> 'c store \<Rightarrow> est_error option \<times> string \<times> 'c store" where
  "estimate_instance io sha256 start workers ord k names suite now random started0 s =
     (let started = started0\<lparr>ar_suite := suite\<rparr> in
      case continuation io k started s of
        (Inl e, s1) \<Rightarrow> (Some e, [], s1)
      | (Inr found, s1) \<Rightarrow>
          (let (est, result) = (case found of
                 Some (est, latest) \<Rightarrow> (est, latest)
               | None \<Rightarrow> (newEstimateID now random (ar_instance started), started\<lparr>ar_timestamp := now\<rparr>))
           in case complete io sha256 k est names start workers ord (result\<lparr>ar_command := ar_command started\<rparr>) s1 of
                (err, _, s2) \<Rightarrow> (err, est, s2)))"

text \<open>What differs between the instances of one configuration: the time and the random bytes of a new
  estimate, the ere-server it starts and the schedule of its workers.\<close>

record 'c instance_run =
  ir_now :: int
  ir_random :: bytes
  ir_start :: "string list \<Rightarrow> est_error + string"
  ir_workers :: "string list \<Rightarrow> 'c delivery list \<times> est_error option"

fun newEstimates ::
  "est_kind \<Rightarrow> (bytes \<Rightarrow> bytes) \<Rightarrow> (string \<Rightarrow> est_error + bytes) \<Rightarrow> (string \<Rightarrow> string) \<Rightarrow> (string \<Rightarrow> string) \<Rightarrow> string
    \<Rightarrow> string \<Rightarrow> cfg_instance list \<Rightarrow> est_error + 'c artifact list" where
  "newEstimates k sha256 resolve relative clean_relative path ereTag [] = Inr []"
| "newEstimates k sha256 resolve relative clean_relative path ereTag (i # is) =
     (case newEstimate k sha256 resolve relative clean_relative path ereTag i of
        Inl e \<Rightarrow> Inl (Instance_failed (ci_id i) e)
      | Inr a \<Rightarrow> rbind (newEstimates k sha256 resolve relative clean_relative path ereTag is) (\<lambda>as. Inr (a # as)))"

fun estimate_instances ::
  "io_oracle \<Rightarrow> (bytes \<Rightarrow> bytes) \<Rightarrow> ((string \<times> string) list \<Rightarrow> (string \<times> string) list) \<Rightarrow> est_kind \<Rightarrow> string list \<Rightarrow> string
    \<Rightarrow> ('c instance_run \<times> 'c artifact) list \<Rightarrow> 'c store \<Rightarrow> est_error option \<times> 'c store" where
  "estimate_instances io sha256 ord k names suite [] s = (None, s)"
| "estimate_instances io sha256 ord k names suite ((r, started) # rest) s =
     (case estimate_instance io sha256 (ir_start r) (ir_workers r) ord k names suite (ir_now r) (ir_random r) started s of
        (Some e, _, s1) \<Rightarrow> (Some e, s1)
      | (None, _, s1) \<Rightarrow> estimate_instances io sha256 ord k names suite rest s1)"

text \<open>A loaded configuration: whether it names EEST fixtures, and its instances. \<open>prepared\<close> is
  \<open>prepareSuite\<close>, the tests and the hash of the suite.\<close>

record est_config =
  ec_eest :: bool
  ec_instances :: "cfg_instance list"

definition estimateConfig ::
  "io_oracle \<Rightarrow> (bytes \<Rightarrow> bytes) \<Rightarrow> (string \<Rightarrow> est_error + bytes) \<Rightarrow> (string \<Rightarrow> string) \<Rightarrow> (string \<Rightarrow> string)
    \<Rightarrow> ((string \<times> string) list \<Rightarrow> (string \<times> string) list) \<Rightarrow> est_kind \<Rightarrow> string \<Rightarrow> string \<Rightarrow> est_error + est_config
    \<Rightarrow> est_error + (string list \<times> string) \<Rightarrow> (nat \<Rightarrow> 'c instance_run) \<Rightarrow> 'c store \<Rightarrow> est_error option \<times> 'c store" where
  "estimateConfig io sha256 resolve relative clean_relative ord k path ereTag loaded prepared runs s =
     (case loaded of
        Inl e \<Rightarrow> (Some e, s)
      | Inr cfg \<Rightarrow>
          if \<not> ec_eest cfg then (Some No_fixture_source, s)
          else (case newEstimates k sha256 resolve relative clean_relative path ereTag (ec_instances cfg) of
                  Inl e \<Rightarrow> (Some e, s)
                | Inr started \<Rightarrow>
                    (case prepared of
                       Inl e \<Rightarrow> (Some e, s)
                     | Inr (names, suite) \<Rightarrow> estimate_instances io sha256 ord k names suite
                         (zip (map runs [0..<length started]) started) s)))"

text \<open>\<open>run\<close>: what \<open>os.Stat\<close> says of the target selects the command.\<close>

definition est_run ::
  "est_error + bool \<Rightarrow> string \<Rightarrow> ('c store \<Rightarrow> est_error option \<times> 'c store) \<Rightarrow> ('c store \<Rightarrow> est_error option \<times> 'c store)
    \<Rightarrow> 'c store \<Rightarrow> est_error option \<times> 'c store" where
  "est_run stat elfURL of_run of_config s =
     (case stat of
        Inl e \<Rightarrow> (Some e, s)
      | Inr is_dir \<Rightarrow>
          if is_dir then of_run s
          else if elfURL \<noteq> [] then (Some Elf_needs_run, s)
          else of_config s)"

text \<open>Renaming a directory of the results directory.\<close>

definition rename_dir :: "io_oracle \<Rightarrow> est_kind \<Rightarrow> string \<Rightarrow> string \<Rightarrow> 'c store \<Rightarrow> (est_error + unit) \<times> 'c store" where
  "rename_dir io k old new s =
     (case io_step io s of
        (Inl e, s1) \<Rightarrow> (Inl e, s1)
      | (Inr _, s1) \<Rightarrow>
          (let d = dir_of s1 k old in
           (Inr (), s1\<lparr>dirs_of := (dirs_of s1)(k := put_entry new d (AList.delete old (dirs_of s1 k)))\<rparr>)))"

definition linkMirror ::
  "io_oracle \<Rightarrow> est_kind \<Rightarrow> string \<Rightarrow> string \<Rightarrow> 'c artifact \<Rightarrow> 'c store \<Rightarrow> (est_error + bool) \<times> 'c store" where
  "linkMirror io k oldID est profiled s =
     (if k \<noteq> Profile_kind then (Inr False, s)
      else (case readArtifact io Estimate_kind oldID s of
              (Inl e, s1) \<Rightarrow> (Inl e, s1)
            | (Inr mirror, s1) \<Rightarrow>
                if \<not> sameEstimation mirror profiled then (Inr False, s1)
                else if map_of (dirs_of s1 Estimate_kind) est \<noteq> None then (Inr False, s1)
                else (case rename_dir io Estimate_kind oldID est s1 of
                        (Inl e, s2) \<Rightarrow> (Inl e, s2)
                      | (Inr _, s2) \<Rightarrow> (Inr True, s2))))"

text \<open>\<open>link\<close>: whether \<open>estimateDir\<close> sits beside the runs is \<open>beside\<close>, \<open>oldID\<close> its base
  name; writing the index anew is one operation that may fail, where an index exists.\<close>

definition est_link ::
  "io_oracle \<Rightarrow> (bytes \<Rightarrow> bytes) \<Rightarrow> (string \<Rightarrow> est_error + bytes) \<Rightarrow> bool \<Rightarrow> bool \<Rightarrow> est_kind \<Rightarrow> est_error + run_config
    \<Rightarrow> string \<Rightarrow> string \<Rightarrow> 'c store \<Rightarrow> (est_error + unit) \<times> 'c store" where
  "est_link io sha256 resolve beside has_index k run_read est oldID s =
     (case run_read of
        Inl e \<Rightarrow> (Inl e, s)
      | Inr run \<Rightarrow>
          if ed_artifact (dir_of s k oldID) = No_artifact then (Inl No_such_file, s)
          else (case readArtifact io k oldID s of
             (Inl e, s1) \<Rightarrow> (Inl e, s1)
           | (Inr result, s1) \<Rightarrow>
               if \<not> beside then (Inl (Not_beside_runs k oldID), s1)
               else if oldID = est then (Inr (), s1)
               else if map_of (dirs_of s1 k) est \<noteq> None then (Inl (Exists_already k est), s1)
               else if ar_suite result \<noteq> rc_suite run then (Inl (Other_suite (ar_suite result) (rc_suite run)), s1)
               else (case resolveELF sha256 resolve (rc_elf_source run) of
                  Inl e \<Rightarrow> (Inl e, s1)
                | Inr (elf, elfSHA256) \<Rightarrow>
                    if ar_elf_sha result \<noteq> elfSHA256 then (Inl (Other_elf (ar_elf_sha result) elfSHA256), s1)
                    else (case rename_dir io k oldID est s1 of
                       (Inl e, s2) \<Rightarrow> (Inl e, s2)
                     | (Inr _, s2) \<Rightarrow>
                         (case linkMirror io k oldID est result s2 of
                            (Inl e, s3) \<Rightarrow> (Inl e, s3)
                          | (Inr linked, s3) \<Rightarrow>
                              if has_index \<and> (k = Estimate_kind \<or> linked) then io_step io s3 else (Inr (), s3))))))"

end
