(* ===== verification/Estimate_Proofs.thy ===== *)
theory Estimate_Proofs
  imports Estimate_Run
begin

text \<open>
  What the estimates guarantee. A well formed artifact has one entry per test and never both a cost
  and a failure for one. Completing an estimate leaves every test of the suite with a record, keeps
  every earlier record, takes a new one only from the measurement of the test's own input or from an
  estimate of the same image, ELF and suite, and does not depend on the order the workers deliver in.
\<close>

section \<open>Artifacts as maps\<close>

definition wf_artifact :: "'c artifact \<Rightarrow> bool" where
  "wf_artifact a \<longleftrightarrow> distinct (map fst (ar_tests a)) \<and> distinct (map fst (ar_failures a))
     \<and> fst ` set (ar_tests a) \<inter> fst ` set (ar_failures a) = {}"

text \<open>The record of a test: its cost, or the failure of the guest.\<close>

definition test_record :: "'c artifact \<Rightarrow> string \<Rightarrow> (string + 'c) option" where
  "test_record a n =
     (case map_of (ar_tests a) n of
        Some cost \<Rightarrow> Some (Inr cost)
      | None \<Rightarrow> map_option Inl (map_of (ar_failures a) n))"

definition add_record :: "string \<Rightarrow> string + 'c \<Rightarrow> 'c artifact \<Rightarrow> 'c artifact" where
  "add_record n r a =
     (case r of
        Inl message \<Rightarrow> a\<lparr>ar_failures := AList.update n message (ar_failures a)\<rparr>
      | Inr cost \<Rightarrow> a\<lparr>ar_tests := AList.update n cost (ar_tests a)\<rparr>)"

lemma record_outcome_add: "record_outcome a d = add_record (oc_name d) (oc_result d) a"
  by (simp add: record_outcome_def add_record_def)

lemma is_pending_iff: "is_pending a n \<longleftrightarrow> test_record a n = None"
  by (auto simp: is_pending_def test_record_def split: option.split)

lemma add_record_fields [simp]:
  "ar_suite (add_record n r a) = ar_suite a" "ar_image (add_record n r a) = ar_image a"
  "ar_elf_sha (add_record n r a) = ar_elf_sha a"
  by (simp_all add: add_record_def split: sum.split)

lemma test_record_add:
  assumes "test_record a n = None"
  shows "test_record (add_record n r a) = (test_record a)(n \<mapsto> r)"
proof
  fix m
  from assms have "map_of (ar_tests a) n = None" "map_of (ar_failures a) n = None"
    by (auto simp: test_record_def split: option.splits)
  then show "test_record (add_record n r a) m = ((test_record a)(n \<mapsto> r)) m"
    by (cases r) (auto simp: test_record_def add_record_def update_conv' split: option.split)
qed

lemma keys_update: "fst ` set (AList.update n v al) = insert n (fst ` set al)"
  using dom_update [of n v al] by (simp add: dom_map_of_conv_image_fst)

lemma wf_add_record:
  assumes "wf_artifact a" "test_record a n = None"
  shows "wf_artifact (add_record n r a)"
proof -
  from assms(2) have "n \<notin> fst ` set (ar_tests a)" "n \<notin> fst ` set (ar_failures a)"
    by (auto simp: test_record_def map_of_eq_None_iff split: option.splits)
  with assms(1) show ?thesis
    by (cases r) (auto simp: wf_artifact_def add_record_def distinct_update keys_update)
qed

lemma wf_empty [simp]: "wf_artifact (a\<lparr>ar_tests := [], ar_failures := []\<rparr>)"
  by (simp add: wf_artifact_def)

text \<open>Adding records of new and different tests.\<close>

definition add_all :: "(string \<times> (string + 'c)) list \<Rightarrow> 'c artifact \<Rightarrow> 'c artifact" where
  "add_all rs a = fold (\<lambda>(n, r). add_record n r) rs a"

lemma add_all_simps [simp]: "add_all [] a = a" "add_all ((n, r) # rs) a = add_all rs (add_record n r a)"
  by (simp_all add: add_all_def)

lemma add_all_fields [simp]:
  "ar_suite (add_all rs a) = ar_suite a" "ar_image (add_all rs a) = ar_image a"
  "ar_elf_sha (add_all rs a) = ar_elf_sha a"
  by (induction rs arbitrary: a) (auto simp: add_all_def)

lemma add_all_records:
  assumes "distinct (map fst rs)" "\<forall>n \<in> fst ` set rs. test_record a n = None"
  shows "test_record (add_all rs a) = test_record a ++ map_of rs"
  using assms
proof (induction rs arbitrary: a)
  case (Cons x rs)
  obtain n r where x: "x = (n, r)" by (cases x)
  with Cons.prems have new: "test_record a n = None" "n \<notin> fst ` set rs" by auto
  have "\<forall>m \<in> fst ` set rs. test_record (add_record n r a) m = None"
    using Cons.prems(2) new by (auto simp: test_record_add)
  with Cons x have "test_record (add_all rs (add_record n r a)) = test_record (add_record n r a) ++ map_of rs"
    by simp
  moreover have "map_of rs n = None" using new(2) by (simp add: map_of_eq_None_iff)
  then have "test_record (add_record n r a) ++ map_of rs = test_record a ++ map_of (x # rs)"
    using new(1) by (auto simp: x test_record_add map_add_def fun_eq_iff split: option.split)
  ultimately show ?case unfolding x add_all_simps by (rule trans)
qed simp

lemma wf_add_all:
  assumes "wf_artifact a" "distinct (map fst rs)" "\<forall>n \<in> fst ` set rs. test_record a n = None"
  shows "wf_artifact (add_all rs a)"
  using assms
proof (induction rs arbitrary: a)
  case (Cons x rs)
  obtain n r where x: "x = (n, r)" by (cases x)
  with Cons.prems have "wf_artifact (add_record n r a)" "\<forall>m \<in> fst ` set rs. test_record (add_record n r a) m = None"
    by (auto simp: wf_add_record test_record_add)
  with Cons x show ?case by simp
qed simp

section \<open>Reusing\<close>

lemma reuse_test_add:
  "fst (reuse_test otherID other n (a, i, srcs)) = (case test_record other n of Some r \<Rightarrow> add_record n r a | None \<Rightarrow> a)"
  by (auto simp: reuse_test_def test_record_def add_record_def split: option.split)

lemma fold_reuse_test:
  "\<exists>rs. fst (fold (reuse_test otherID other) ns acc) = add_all rs (fst acc)
    \<and> map fst rs = filter (\<lambda>n. test_record other n \<noteq> None) ns \<and> (\<forall>(n, r) \<in> set rs. test_record other n = Some r)"
proof (induction ns arbitrary: acc)
  case Nil
  show ?case by (rule exI [of _ "[]"]) simp
next
  case (Cons n ns)
  obtain a i srcs where acc: "acc = (a, i, srcs)" by (cases acc)
  let ?acc = "reuse_test otherID other n acc"
  from Cons obtain rs where rs: "fst (fold (reuse_test otherID other) ns ?acc) = add_all rs (fst ?acc)"
    "map fst rs = filter (\<lambda>n. test_record other n \<noteq> None) ns" "\<forall>(n, r) \<in> set rs. test_record other n = Some r"
    by blast
  show ?case
  proof (cases "test_record other n")
    case None
    with rs show ?thesis by (intro exI [of _ rs]) (simp add: acc reuse_test_add)
  next
    case (Some r)
    with rs show ?thesis by (intro exI [of _ "(n, r) # rs"]) (simp add: acc reuse_test_add)
  qed
qed

lemma pendingTests_spec [simp]:
  "set (pendingTests names a) = {n \<in> set names. test_record a n = None}" "distinct (pendingTests names a)"
  by (auto simp: pendingTests_def is_pending_iff)

text \<open>\<open>extends P a b\<close>: \<open>b\<close> is \<open>a\<close> with records of new tests that \<open>P\<close> allows.\<close>

definition extends :: "(string \<Rightarrow> string + 'c \<Rightarrow> bool) \<Rightarrow> 'c artifact \<Rightarrow> 'c artifact \<Rightarrow> bool" where
  "extends P a b \<longleftrightarrow> wf_artifact b \<and> sameEstimation a b
     \<and> (\<forall>n r. test_record a n = Some r \<longrightarrow> test_record b n = Some r)
     \<and> (\<forall>n r. test_record b n = Some r \<longrightarrow> test_record a n = Some r \<or> P n r)"

lemma extends_refl: "wf_artifact a \<Longrightarrow> extends P a a"
  by (simp add: extends_def sameEstimation_def)

lemma extends_trans: "extends P a b \<Longrightarrow> extends P b c \<Longrightarrow> extends P a c"
  unfolding extends_def sameEstimation_def by metis

lemma extends_add_all:
  assumes "wf_artifact a" "distinct (map fst rs)" "\<forall>n \<in> fst ` set rs. test_record a n = None"
    and "\<forall>(n, r) \<in> set rs. P n r"
  shows "extends P a (add_all rs a)"
proof -
  note rec = add_all_records [OF assms(2,3)]
  have "P n r" if "map_of rs n = Some r" for n r
    using assms(4) map_of_SomeD [OF that] by auto
  moreover have "map_of rs n = None" if "test_record a n = Some r" for n r
    using assms(3) that by (force simp: map_of_eq_None_iff)
  ultimately show ?thesis
    using wf_add_all [OF assms(1-3)] unfolding extends_def rec
    by (auto simp: sameEstimation_def map_add_Some_iff)
qed

definition from_other :: "string \<Rightarrow> 'c artifact \<Rightarrow> (string \<times> 'c artifact) list \<Rightarrow> string \<Rightarrow> string + 'c \<Rightarrow> bool" where
  "from_other est a vs n r \<longleftrightarrow>
     (\<exists>otherID other. (otherID, other) \<in> set vs \<and> otherID \<noteq> est \<and> sameEstimation other a \<and> test_record other n = Some r)"

lemma reuse_visit_extends:
  assumes "wf_artifact (fst acc)" "(otherID, other) \<in> set vs"
  shows "extends (from_other est (fst acc) vs) (fst acc) (fst (reuse_visit est names (otherID, other) acc))"
proof (cases "otherID = est \<or> \<not> sameEstimation other (fst acc)")
  case True
  with assms show ?thesis by (cases acc) (auto simp: reuse_visit_def extends_refl)
next
  case False
  obtain a i srcs where acc: "acc = (a, i, srcs)" by (cases acc)
  from fold_reuse_test [of otherID other "pendingTests names a" acc] obtain rs where
    rs: "fst (reuse_visit est names (otherID, other) acc) = add_all rs a"
    "map fst rs = filter (\<lambda>n. test_record other n \<noteq> None) (pendingTests names a)"
    "\<forall>(n, r) \<in> set rs. test_record other n = Some r"
    using False by (auto simp: acc reuse_visit_def)
  have "set (map fst rs) \<subseteq> {n. test_record a n = None}" unfolding rs(2) by auto
  moreover have "distinct (map fst rs)" unfolding rs(2) by simp
  moreover have "\<forall>(n, r) \<in> set rs. from_other est a vs n r"
  proof (clarify)
    fix n r
    assume "(n, r) \<in> set rs"
    with rs(3) have "test_record other n = Some r" by blast
    with False assms(2) show "from_other est a vs n r" by (auto simp: from_other_def acc)
  qed
  ultimately show ?thesis
    unfolding rs(1) using assms(1) unfolding acc fst_conv
    by - (rule extends_add_all; auto)
qed

lemma from_other_same: "sameEstimation a b \<Longrightarrow> from_other est a vs = from_other est b vs"
  by (auto simp: from_other_def sameEstimation_def fun_eq_iff)

lemma fold_reuse_visit:
  assumes "wf_artifact (fst acc)" "set ws \<subseteq> set vs"
  shows "extends (from_other est (fst acc) vs) (fst acc) (fst (fold (reuse_visit est names) ws acc))"
  using assms
proof (induction ws arbitrary: acc)
  case Nil
  then show ?case by (simp add: extends_refl)
next
  case (Cons w ws)
  obtain otherID other where w: "w = (otherID, other)" by (cases w)
  let ?acc = "reuse_visit est names w acc"
  have step: "extends (from_other est (fst acc) vs) (fst acc) (fst ?acc)"
    using reuse_visit_extends [OF Cons.prems(1), of otherID other vs est names] Cons.prems(2) w by simp
  then have "wf_artifact (fst ?acc)" and same: "sameEstimation (fst acc) (fst ?acc)" by (simp_all add: extends_def)
  from Cons.IH [OF this(1)] Cons.prems(2)
  have "extends (from_other est (fst ?acc) vs) (fst ?acc) (fst (fold (reuse_visit est names) ws ?acc))" by simp
  with step show ?case by (simp add: from_other_same [OF same, symmetric] extends_trans)
qed

section \<open>The results directory\<close>

lemma map_of_put_entry: "map_of (put_entry k v es) = (map_of es)(k \<mapsto> v)"
  by (induction k v es rule: put_entry.induct) auto

lemma dir_of_set_dir [simp]:
  "dir_of (set_dir k est d s) k' est' = (if k' = k \<and> est' = est then d else dir_of s k' est')"
  by (simp add: dir_of_def set_dir_def map_of_put_entry)

lemma dir_of_ops [simp]: "dir_of (s\<lparr>ops := n\<rparr>) = dir_of s"
  by (simp add: dir_of_def fun_eq_iff)

lemma io_step_store: "snd (io_step io s) = s\<lparr>ops := Suc (ops s)\<rparr>"
  by (simp add: io_step_def)

text \<open>\<open>same_dirs\<close>: a step that only read.\<close>

definition same_dirs :: "'c store \<Rightarrow> 'c store \<Rightarrow> bool" where
  "same_dirs s s' \<longleftrightarrow> dirs_of s' = dirs_of s"

lemma same_dirs_dir_of: "same_dirs s s' \<Longrightarrow> dir_of s' = dir_of s"
  by (simp add: same_dirs_def dir_of_def fun_eq_iff)

lemma io_step_same: "io_step io s = (r, s') \<Longrightarrow> same_dirs s s'"
  using io_step_store [of io s] by (simp add: same_dirs_def)

lemma same_dirs_trans: "same_dirs s s1 \<Longrightarrow> same_dirs s1 s2 \<Longrightarrow> same_dirs s s2"
  by (simp add: same_dirs_def)

lemma readArtifact_same: "readArtifact io k est s = (r, s') \<Longrightarrow> same_dirs s s'"
  by (auto simp: readArtifact_def split: prod.splits sum.splits art_file.splits dest: io_step_same)

lemma readArtifact_Inr:
  "readArtifact io k est s = (Inr a, s') \<Longrightarrow>
    (case ed_artifact (dir_of s k est) of No_artifact \<Rightarrow> a = empty_artifact | Artifact b \<Rightarrow> a = b | _ \<Rightarrow> False)"
  by (auto simp: readArtifact_def split: prod.splits sum.splits art_file.splits
      dest!: io_step_same same_dirs_dir_of)

lemma scan_ids_same: "scan_ids io k ids s = (vs, e, s') \<Longrightarrow> same_dirs s s'"
proof (induction ids arbitrary: s vs)
  case (Cons i ids)
  then show ?case
    by (auto split: prod.splits sum.splits dest: readArtifact_same intro: same_dirs_trans)
qed (simp add: same_dirs_def)

lemma scan_ids_visits:
  "scan_ids io k ids s = (vs, e, s') \<Longrightarrow> (i, a) \<in> set vs \<Longrightarrow>
    ed_artifact (dir_of s k i) = Artifact a \<or> ed_artifact (dir_of s k i) = No_artifact \<and> a = empty_artifact"
proof (induction ids arbitrary: s vs e s')
  case (Cons j ids)
  obtain r s1 where r: "readArtifact io k j s = (r, s1)" by force
  show ?case
  proof (cases r)
    case (Inl e0)
    with Cons.prems r show ?thesis by simp
  next
    case (Inr b)
    obtain ws e1 s2 where w: "scan_ids io k ids s1 = (ws, e1, s2)" by (cases "scan_ids io k ids s1")
    have d: "dir_of s1 = dir_of s" using readArtifact_same [OF r] by (rule same_dirs_dir_of)
    from Cons.prems r Inr w have "(i, a) = (j, b) \<or> (i, a) \<in> set ws" by auto
    then show ?thesis
    proof
      assume "(i, a) = (j, b)"
      with readArtifact_Inr [OF r [unfolded Inr]] show ?thesis by (auto split: art_file.splits)
    next
      assume "(i, a) \<in> set ws"
      from Cons.IH [OF w this] show ?thesis by (simp add: d)
    qed
  qed
qed simp

lemma scanEstimates_same: "scanEstimates io k s = (vs, e, s') \<Longrightarrow> same_dirs s s'"
  by (auto simp: scanEstimates_def split: prod.splits sum.splits
      dest: io_step_same scan_ids_same intro: same_dirs_trans)

lemma scanEstimates_visits:
  "scanEstimates io k s = (vs, e, s') \<Longrightarrow> (i, a) \<in> set vs \<Longrightarrow>
    ed_artifact (dir_of s k i) = Artifact a \<or> ed_artifact (dir_of s k i) = No_artifact \<and> a = empty_artifact"
proof -
  assume s: "scanEstimates io k s = (vs, e, s')" and v: "(i, a) \<in> set vs"
  obtain r s1 where io: "io_step io s = (r, s1)" by force
  with s v have "scan_ids io k (map fst (dirs_of s1 k)) s1 = (vs, e, s')"
    by (auto simp: scanEstimates_def split: sum.splits)
  from scan_ids_visits [OF this v] same_dirs_dir_of [OF io_step_same [OF io]] show ?thesis by simp
qed

text \<open>An estimation of another estimate of the directory, of the same image, ELF and suite.\<close>

definition reusable :: "est_kind \<Rightarrow> string \<Rightarrow> 'c store \<Rightarrow> 'c artifact \<Rightarrow> string \<Rightarrow> string + 'c \<Rightarrow> bool" where
  "reusable k est s a n r \<longleftrightarrow>
     (\<exists>otherID other. otherID \<noteq> est \<and> ed_artifact (dir_of s k otherID) = Artifact other
        \<and> sameEstimation other a \<and> test_record other n = Some r)"

lemma reuseEstimates_extends:
  assumes "reuseEstimates io k est names a s = (Inr (b, i, srcs), s')" "wf_artifact a"
  shows "same_dirs s s' \<and> extends (reusable k est s a) a b"
proof -
  from assms(1) obtain vs where v: "scanEstimates io k s = (vs, None, s')"
    and b: "fst (fold (reuse_visit est names) vs (a, 0, [])) = b"
    by (auto simp: reuseEstimates_def split: prod.splits option.splits)
  have "extends (from_other est a vs) a b"
    using fold_reuse_visit [of "(a, 0, [])" vs vs est names] assms(2) b by simp
  moreover have "from_other est a vs n r \<Longrightarrow> reusable k est s a n r" for n r
    using scanEstimates_visits [OF v]
    by (fastforce simp: from_other_def reusable_def test_record_def empty_artifact_def)
  ultimately show ?thesis
    using scanEstimates_same [OF v] unfolding extends_def by blast
qed

section \<open>Walking the fixtures\<close>

definition fixture_of :: "(string \<times> fixture_file) list \<Rightarrow> string \<Rightarrow> bytes \<Rightarrow> bool" where
  "fixture_of files n stdin \<longleftrightarrow>
     (\<exists>path keys key f. (path, Fixtures keys) \<in> set files \<and> has_suffix ''.json'' path \<and> (key, f) \<in> set keys
        \<and> trim_prefix ''tests/'' key = n \<and> statelessInput f = Some stdin)"

text \<open>\<open>walked\<close>: the jobs are for different missing tests, with an input of their own, and what is
  missing afterwards is the rest.\<close>

definition walked :: "(string \<Rightarrow> bytes \<Rightarrow> bool) \<Rightarrow> string list \<Rightarrow> job list \<times> (est_error + string list) \<Rightarrow> bool" where
  "walked P missing w \<longleftrightarrow>
     distinct (map jb_name (fst w)) \<and> jb_name ` set (fst w) \<subseteq> set missing
     \<and> (\<forall>j \<in> set (fst w). P (jb_name j) (jb_stdin j))
     \<and> (\<forall>rest. snd w = Inr rest \<longrightarrow> set rest = set missing - jb_name ` set (fst w)
          \<and> (distinct missing \<longrightarrow> distinct rest))"

lemma walk_keys_walked:
  "\<forall>(key, f) \<in> set keys. \<forall>stdin. statelessInput f = Some stdin \<longrightarrow> P (trim_prefix ''tests/'' key) stdin \<Longrightarrow>
    walked P missing (walk_keys missing keys)"
proof (induction missing keys rule: walk_keys.induct)
  case (1 missing)
  show ?case by (simp add: walked_def)
next
  case (2 missing key f fs)
  let ?n = "trim_prefix ''tests/'' key"
  show ?case
  proof (cases "?n \<in> set missing")
    case False
    with 2 show ?thesis by (simp add: Let_def)
  next
    case True
    show ?thesis
    proof (cases "statelessInput f")
      case None
      with True show ?thesis by (simp add: Let_def walked_def)
    next
      case (Some stdin)
      obtain js r where w: "walk_keys (removeAll ?n missing) fs = (js, r)" by force
      have "walked P (removeAll ?n missing) (js, r)"
        using 2(2) [OF refl _ Some] True 2(3) w by simp
      moreover have "P ?n stdin" using 2(3) Some by simp
      ultimately show ?thesis
        using True Some w by (auto simp: Let_def walked_def distinct_removeAll)
    qed
  qed
qed

lemma walk_files_walked:
  "walked (fixture_of files) missing (walk_files missing files)"
proof -
  have "set fs \<subseteq> set files \<Longrightarrow> walked (fixture_of files) missing (walk_files missing fs)" for fs
  proof (induction missing fs rule: walk_files.induct)
    case (1 missing)
    show ?case by (simp add: walked_def)
  next
    case (2 missing path ff fs)
    show ?case
    proof (cases "has_suffix ''.json'' path")
      case False
      with 2 show ?thesis by simp
    next
      case True
      show ?thesis
      proof (cases ff)
        case (Unreadable e)
        with True show ?thesis by (simp add: walked_def)
      next
        case Other_shape
        with True 2 show ?thesis by simp
      next
        case (Fixtures keys)
        have keys: "walked (fixture_of files) missing (walk_keys missing keys)"
          by (rule walk_keys_walked) (use 2(4) True Fixtures in \<open>fastforce simp: fixture_of_def\<close>)
        obtain js r where w: "walk_keys missing keys = (js, r)" by force
        show ?thesis
        proof (cases r)
          case (Inl e)
          with keys w True Fixtures show ?thesis by (simp add: walked_def)
        next
          case (Inr missing1)
          obtain js1 r1 where w1: "walk_files missing1 fs = (js1, r1)" by force
          have "walked (fixture_of files) missing1 (js1, r1)"
            using 2(3) [of keys] True Fixtures w Inr w1 2(4) by simp
          with keys w Inr True Fixtures w1 show ?thesis
            by (auto simp: walked_def)
        qed
      qed
    qed
  qed
  then show ?thesis by simp
qed

lemma walkFixtures_sends:
  assumes "walkFixtures files pending = (js, e)"
  shows "distinct (map jb_name js) \<and> jb_name ` set js \<subseteq> set pending
    \<and> (\<forall>j \<in> set js. fixture_of files (jb_name j) (jb_stdin j))
    \<and> (e = None \<longrightarrow> jb_name ` set js = set pending)"
proof -
  obtain r where w: "walk_files pending files = (js, r)"
    using assms by (auto simp: walkFixtures_def split: prod.splits sum.splits)
  with walk_files_walked [of files pending] have k: "walked (fixture_of files) pending (js, r)" by simp
  have "jb_name ` set js = set pending" if "e = None"
  proof -
    from that assms w have "r = Inr []" by (auto simp: walkFixtures_def split: sum.splits if_splits)
    with k show ?thesis by (auto simp: walked_def)
  qed
  with k show ?thesis by (auto simp: walked_def)
qed

end
