(* ===== verification/Estimate_Complete.thy ===== *)
theory Estimate_Complete
  imports Estimate_Proofs
begin

text \<open>
  Completing an estimate, from \<open>complete\<close> and \<open>estimateAll\<close> of
  \<open>internal/estimate/estimate.go\<close>: whatever the workers deliver, in whatever order, and wherever
  the file system fails, the artifact on disk stays one an interrupted command resumes from.
\<close>

section \<open>What a delivery carries\<close>

definition measured_record ::
  "(string \<times> fixture_file) list \<Rightarrow> (bytes \<Rightarrow> 'c measured) \<Rightarrow> string \<Rightarrow> string + 'c \<Rightarrow> bool" where
  "measured_record files meas n r \<longleftrightarrow>
     (\<exists>stdin. fixture_of files n stdin \<and>
        (case meas stdin of
           Measured cost _ \<Rightarrow> r = Inr cost
         | Guest_failed message \<Rightarrow> r = Inl message
         | Measure_failed _ \<Rightarrow> False))"

definition delivered :: "'c delivery list \<Rightarrow> (string \<times> (string + 'c)) list" where
  "delivered ds = map (\<lambda>d. (oc_name (dl_outcome d), oc_result (dl_outcome d))) ds"

lemma deliver_Some:
  "deliver j m = Some d \<Longrightarrow> oc_name (dl_outcome d) = jb_name j \<and>
    (case m of Measured cost _ \<Rightarrow> oc_result (dl_outcome d) = Inr cost
     | Guest_failed message \<Rightarrow> oc_result (dl_outcome d) = Inl message | Measure_failed _ \<Rightarrow> False)"
  by (cases m) auto

lemma mset_subset_distinct:
  assumes "mset xs \<subseteq># mset ys" "distinct ys"
  shows "distinct xs"
proof -
  from assms(1) obtain M where "mset ys = mset xs + M" by (auto simp: mset_subset_eq_exists_conv)
  moreover obtain zs where "M = mset zs" by (metis ex_mset)
  ultimately have "mset ys = mset (xs @ zs)" by simp
  with assms(2) have "distinct (xs @ zs)" by (metis mset_eq_imp_distinct_iff)
  then show ?thesis by simp
qed

lemma group_result_delivers:
  assumes "group_result w meas ds err" "w = walkFixtures files pending" "distinct pending"
  shows "distinct (map fst (delivered ds)) \<and> fst ` set (delivered ds) \<subseteq> set pending
    \<and> (\<forall>(n, r) \<in> set (delivered ds). measured_record files meas n r)
    \<and> (err = None \<longrightarrow> fst ` set (delivered ds) = set pending)"
proof -
  obtain js e where w: "w = (js, e)" by (cases w)
  with assms(2) have walk: "distinct (map jb_name js)" "jb_name ` set js \<subseteq> set pending"
    "\<forall>j \<in> set js. fixture_of files (jb_name j) (jb_stdin j)" "e = None \<longrightarrow> jb_name ` set js = set pending"
    using walkFixtures_sends [of files pending js e] by auto
  let ?all = "map (\<lambda>j. deliver j (meas (jb_stdin j))) js"
  let ?got = "map the (filter (\<lambda>d. d \<noteq> None) ?all)"
  let ?name = "\<lambda>d. oc_name (dl_outcome d)"
  have names: "map ?name ?got = map jb_name (filter (\<lambda>j. deliver j (meas (jb_stdin j)) \<noteq> None) js)"
    by (induction js) (auto dest: deliver_Some)
  have sub: "mset ds \<subseteq># mset ?got" using assms(1) w by (simp add: group_result_def Let_def)
  have "mset (map ?name ds) \<subseteq># mset (map ?name ?got)"
    unfolding mset_map [of ?name] using sub by (rule image_mset_subseteq_mono)
  moreover have "distinct (map ?name ?got)" unfolding names using walk(1) by (rule distinct_map_filter)
  ultimately have dist: "distinct (map ?name ds)" by (rule mset_subset_distinct)
  have each: "d \<in> set ?got" if "d \<in> set ds" for d using mset_subset_eqD [OF sub] that by simp
  have rec: "\<exists>j \<in> set js. deliver j (meas (jb_stdin j)) = Some d" if "d \<in> set ds" for d
    using each [OF that] by auto
  have "measured_record files meas (?name d) (oc_result (dl_outcome d)) \<and> ?name d \<in> set pending" if "d \<in> set ds" for d
  proof -
    from rec [OF that] obtain j where j: "j \<in> set js" "deliver j (meas (jb_stdin j)) = Some d" by blast
    from deliver_Some [OF j(2)] walk(2,3) j(1) show ?thesis
      by (force simp: measured_record_def split: measured.splits)
  qed
  moreover have "?name ` set ds = set pending" if "err = None"
  proof -
    from that assms(1) w have all: "e = None" "mset (map Some ds) = mset ?all" by (simp_all add: group_result_def Let_def)
    have "\<exists>d \<in> set ds. ?name d = jb_name j" if "j \<in> set js" for j
    proof -
      have "deliver j (meas (jb_stdin j)) \<in> set (map Some ds)"
        using that unfolding mset_eq_setD [OF all(2)] by simp
      then show ?thesis using deliver_Some by fastforce
    qed
    then have "set pending \<subseteq> ?name ` set ds" using walk(4) all(1) by force
    then show ?thesis using calculation by auto
  qed
  ultimately show ?thesis using dist by (auto simp: delivered_def comp_def image_image)
qed

section \<open>The loop\<close>

lemma loop_step_result:
  "lp_result (loop_step io sha k est mirror d lp) = record_outcome (lp_result lp) (dl_outcome d)"
  by (simp add: loop_step_def Let_def split: sum.split prod.split)

lemma loop_result:
  "lp_result (fold (loop_step io sha k est mirror) ds lp) = add_all (delivered ds) (lp_result lp)"
  by (induction ds arbitrary: lp) (simp_all add: delivered_def loop_step_result record_outcome_add)

lemma record_fields [simp]:
  "test_record (a\<lparr>ar_image_sha := x\<rparr>) = test_record a" "wf_artifact (a\<lparr>ar_image_sha := x\<rparr>) = wf_artifact a"
  "extends P a (b\<lparr>ar_image_sha := x\<rparr>) = extends P a b"
proof -
  show r: "test_record (b\<lparr>ar_image_sha := x\<rparr>) = test_record b" for b :: "'a artifact"
    by (rule ext) (simp add: test_record_def split: option.split)
  show w: "wf_artifact (b\<lparr>ar_image_sha := x\<rparr>) = wf_artifact b" for b :: "'b artifact"
    by (simp add: wf_artifact_def)
  show "extends P a (b\<lparr>ar_image_sha := x\<rparr>) = extends P a b"
    unfolding extends_def r w by (simp add: sameEstimation_def)
qed

text \<open>The artifact on disk of the estimate is the one it was, or an extension of the one in memory.\<close>

definition resumes :: "(string \<Rightarrow> string + 'c \<Rightarrow> bool) \<Rightarrow> est_kind \<Rightarrow> string \<Rightarrow> 'c artifact \<Rightarrow> 'c store \<Rightarrow> 'c store \<Rightarrow> bool" where
  "resumes P k est a s s' \<longleftrightarrow>
     ed_artifact (dir_of s' k est) = ed_artifact (dir_of s k est)
     \<or> (\<exists>b. ed_artifact (dir_of s' k est) = Artifact b \<and> extends P a b)"

lemma resumes_refl: "resumes P k est a s s"
  by (simp add: resumes_def)

text \<open>\<open>keeps_artifacts\<close>: the artifacts are those of before; \<open>linkTestFiles\<close> and a test file that lands
  keep them.\<close>

definition keeps_artifacts :: "'c store \<Rightarrow> 'c store \<Rightarrow> bool" where
  "keeps_artifacts s s' \<longleftrightarrow> (\<forall>k est. ed_artifact (dir_of s' k est) = ed_artifact (dir_of s k est))"

lemma keeps_same: "same_dirs s s' \<Longrightarrow> keeps_artifacts s s'"
  by (simp add: keeps_artifacts_def same_dirs_dir_of)

lemma keeps_trans: "keeps_artifacts s s1 \<Longrightarrow> keeps_artifacts s1 s2 \<Longrightarrow> keeps_artifacts s s2"
  by (simp add: keeps_artifacts_def)

lemma keeps_files: "keeps_artifacts s (set_dir k est ((dir_of s k est)\<lparr>ed_files := fs\<rparr>) s)"
  by (simp add: keeps_artifacts_def)

lemma keeps_land: "keeps_artifacts s (land_file sha k est d s)"
  by (auto simp: land_file_def Let_def keeps_files keeps_artifacts_def split: option.split)

lemma keeps_link_one:
  assumes "link_test_file io sha k est n other s = (r, s')"
  shows "keeps_artifacts s s'"
proof -
  obtain r1 s1 where 1: "io_step io s = (r1, s1)" by force
  obtain r2 s2 where 2: "io_step io s1 = (r2, s2)" by force
  let ?path = "test_path sha k n"
  let ?s3 = "set_dir k est ((dir_of s2 k est)\<lparr>ed_files := AList.delete ?path (ed_files (dir_of s2 k est))\<rparr>) s2"
  obtain r4 s4 where 4: "io_step io ?s3 = (r4, s4)" by force
  note keeps_same [OF io_step_same [OF 1]] keeps_same [OF io_step_same [OF 2]] keeps_files [of s2 k est]
    keeps_same [OF io_step_same [OF 4]] keeps_files [of s4 k est]
  then show ?thesis
    using assms 1 2 4
    by (auto simp: link_test_file_def Let_def keeps_artifacts_def split: sum.splits option.splits)
qed

lemma keeps_linkTestFiles: "linkTestFiles io sha k est srcs s = (r, s') \<Longrightarrow> keeps_artifacts s s'"
proof -
  have "link_all io sha k est srcs s = (r, s') \<Longrightarrow> keeps_artifacts s s'" for srcs s
  proof (induction srcs arbitrary: s)
    case (Cons x srcs)
    obtain n other where x: "x = (n, other)" by (cases x)
    obtain r1 s1 where l: "link_test_file io sha k est n other s = (r1, s1)" by force
    with Cons x keeps_link_one [OF l] show ?case by (auto split: sum.splits intro: keeps_trans)
  qed (simp add: keeps_artifacts_def)
  moreover assume "linkTestFiles io sha k est srcs s = (r, s')"
  ultimately show ?thesis by (auto simp: linkTestFiles_def keeps_artifacts_def split: if_splits)
qed

lemma writeArtifact_disk:
  assumes "writeArtifact io k est a s = (r, s')"
  shows "(r = Inr () \<and> ed_artifact (dir_of s' k est) = Artifact a \<or> isl r \<and> ed_artifact (dir_of s' k est) = ed_artifact (dir_of s k est))
    \<and> (\<forall>k1 est1. (k1, est1) \<noteq> (k, est) \<longrightarrow> dir_of s' k1 est1 = dir_of s k1 est1)"
proof -
  obtain r1 s1 where 1: "io_step io s = (r1, s1)" by force
  with assms same_dirs_dir_of [OF io_step_same [OF 1]] show ?thesis
    by (auto simp: writeArtifact_def split: sum.splits)
qed

lemma est_save_disk:
  assumes "est_save io k est a mirror s = (r, s')" "mirror \<noteq> None \<longrightarrow> k = Profile_kind"
  shows "ed_artifact (dir_of s' k est) = Artifact a \<or> isl r \<and> ed_artifact (dir_of s' k est) = ed_artifact (dir_of s k est)"
proof -
  obtain r1 s1 where w: "writeArtifact io k est a s = (r1, s1)" by force
  note d1 = writeArtifact_disk [OF w]
  show ?thesis
  proof (cases r1)
    case (Inl e)
    with assms(1) w d1 show ?thesis by (auto simp: est_save_def)
  next
    case (Inr u)
    show ?thesis
    proof (cases mirror)
      case None
      with assms(1) w d1 Inr show ?thesis by (auto simp: est_save_def)
    next
      case (Some m)
      obtain r2 s2 where w2: "writeArtifact io Estimate_kind est (merged_artifact a m) s1 = (r2, s2)" by force
      from Some assms(2) have "k = Profile_kind" by simp
      with assms(1) w w2 d1 Inr Some writeArtifact_disk [OF w2] show ?thesis by (auto simp: est_save_def)
    qed
  qed
qed

lemma loop_step_disk:
  assumes "mirror \<noteq> None \<longrightarrow> k = Profile_kind"
  shows "ed_artifact (dir_of (lp_store (loop_step io sha k est mirror d lp)) k est)
    \<in> {ed_artifact (dir_of (lp_store lp) k est), Artifact (lp_result (loop_step io sha k est mirror d lp))}"
proof -
  let ?s1 = "land_file sha k est d (lp_store lp)"
  obtain r s2 where s: "est_save io k est (record_outcome (lp_result lp) (dl_outcome d)) mirror ?s1 = (r, s2)" by force
  from est_save_disk [OF s assms] keeps_land [of "lp_store lp" sha k est d] show ?thesis
    unfolding loop_step_result
    by (auto simp: loop_step_def Let_def s keeps_artifacts_def split: sum.splits)
qed

lemma loop_disk:
  assumes "mirror \<noteq> None \<longrightarrow> k = Profile_kind"
    and "extends P a (lp_result lp)" "resumes P k est a s (lp_store lp)"
    and "distinct (map fst (delivered ds))" "\<forall>(n, r) \<in> set (delivered ds). test_record (lp_result lp) n = None \<and> P n r"
  shows "extends P a (lp_result (fold (loop_step io sha k est mirror) ds lp))
    \<and> resumes P k est a s (lp_store (fold (loop_step io sha k est mirror) ds lp))"
  using assms(2-)
proof (induction ds arbitrary: lp)
  case (Cons d ds)
  let ?n = "oc_name (dl_outcome d)" and ?r = "oc_result (dl_outcome d)"
  let ?lp = "loop_step io sha k est mirror d lp"
  have res: "lp_result ?lp = add_record ?n ?r (lp_result lp)" by (simp add: loop_step_result record_outcome_add)
  from Cons.prems(4) have new: "test_record (lp_result lp) ?n = None" "P ?n ?r" by (auto simp: delivered_def)
  have wf: "wf_artifact (lp_result lp)" using Cons.prems(1) by (simp add: extends_def)
  have "extends P (lp_result lp) (add_all [(?n, ?r)] (lp_result lp))"
    by (rule extends_add_all [OF wf]) (use new in auto)
  then have e: "extends P a (lp_result ?lp)" using Cons.prems(1) res by (simp add: extends_trans)
  moreover have "resumes P k est a s (lp_store ?lp)"
    using loop_step_disk [OF assms(1), where io = io and sha = sha and est = est and d = d and lp = lp]
      Cons.prems(2) e unfolding resumes_def by auto
  moreover have "distinct (map fst (delivered ds))" using Cons.prems(3) by (simp add: delivered_def)
  moreover have "\<forall>(n, r) \<in> set (delivered ds). test_record (lp_result ?lp) n = None \<and> P n r"
    using Cons.prems(3,4) new(1) unfolding res test_record_add [OF new(1)]
    by (auto simp: delivered_def) (metis imageI)
  ultimately show ?case using Cons.IH by simp
qed simp

section \<open>Completing\<close>

lemma readMirror_same:
  "readMirror io k est a s = (r, s') \<Longrightarrow> same_dirs s s' \<and> (\<forall>m. r = Inr (Some m) \<longrightarrow> k = Profile_kind)"
  by (auto simp: readMirror_def same_dirs_def split: if_splits prod.splits sum.splits
      dest!: readArtifact_same)

lemma extends_mono: "extends P a b \<Longrightarrow> (\<And>n r. P n r \<Longrightarrow> Q n r) \<Longrightarrow> extends Q a b"
  unfolding extends_def by blast

lemma reusable_same: "same_dirs s s' \<Longrightarrow> reusable k est s' = reusable k est s"
  by (simp add: reusable_def fun_eq_iff same_dirs_dir_of)

lemma no_records: "ar_tests a = [] \<Longrightarrow> ar_failures a = [] \<Longrightarrow> test_record a n = None"
  by (simp add: test_record_def)

lemma resumes_save:
  assumes "est_save io k est b mirror s' = (r, s'')" "mirror \<noteq> None \<longrightarrow> k = Profile_kind"
    and "resumes P k est a s s'" "extends P a b"
  shows "resumes P k est a s s'' \<and> (r = Inr () \<longrightarrow> ed_artifact (dir_of s'' k est) = Artifact b)"
  using est_save_disk [OF assms(1,2)] assms(3,4) unfolding resumes_def by auto

lemma estimateAll_safe:
  assumes run: "estimateAll io sha k est mirror ds err b s1 = (e, r', s')"
    and mirror: "mirror \<noteq> None \<longrightarrow> k = Profile_kind"
    and ext: "extends P a b" and disk: "resumes P k est a s s1"
    and ds: "distinct (map fst (delivered ds))"
      "\<forall>(n, r) \<in> set (delivered ds). test_record b n = None \<and> P n r"
    and some: "err = None \<longrightarrow> ds \<noteq> []"
  shows "resumes P k est a s s' \<and> (e = None \<longrightarrow> err = None \<and> ed_artifact (dir_of s' k est) = Artifact r'
    \<and> extends P a r' \<and> r' = add_all (delivered ds) b)"
proof -
  let ?lp = "fold (loop_step io sha k est mirror) ds
    \<lparr>lp_result = b, lp_store = s1, lp_estimated = 0, lp_failed = 0, lp_save_error = None\<rparr>"
  have l: "extends P a (lp_result ?lp)" "resumes P k est a s (lp_store ?lp)"
    using loop_disk [OF mirror, of P a _ est s ds] ext disk ds by auto
  have res: "lp_result ?lp = add_all (delivered ds) b" by (simp add: loop_result)
  have rec: "test_record (lp_result ?lp) = test_record b ++ map_of (delivered ds)"
    unfolding res by (rule add_all_records [OF ds(1)]) (use ds(2) in auto)
  show ?thesis
  proof (cases "lp_save_error ?lp")
    case (Some x)
    with run l show ?thesis by (auto simp: estimateAll_def Let_def)
  next
    case None
    show ?thesis
    proof (cases "ar_tests (lp_result ?lp) = [] \<and> ar_failures (lp_result ?lp) = []")
      case True
      have "err \<noteq> None"
      proof
        assume "err = None"
        with some obtain d ds' where "ds = d # ds'" by (cases ds) auto
        then have "map_of (delivered ds) (oc_name (dl_outcome d)) \<noteq> None" by (simp add: delivered_def)
        then have "test_record (lp_result ?lp) (oc_name (dl_outcome d)) \<noteq> None" unfolding rec by auto
        with no_records [OF conjunct1 [OF True] conjunct2 [OF True]] show False by simp
      qed
      with run l None True show ?thesis by (auto simp: estimateAll_def Let_def)
    next
      case False
      obtain r s2 where sv: "est_save io k est (lp_result ?lp) mirror (lp_store ?lp) = (r, s2)" by force
      have eq: "(e, r', s') = (case r of Inl x \<Rightarrow> (if err = None then Some x else err, lp_result ?lp, s2)
          | Inr _ \<Rightarrow> (err, lp_result ?lp, s2))"
        using run None False sv by (simp add: estimateAll_def Let_def split: sum.splits)
      with resumes_save [OF sv mirror l(2,1)] l(1) res show ?thesis by (auto split: sum.splits if_splits)
    qed
  qed
qed

text \<open>Where the records of a completed estimate come from.\<close>

definition justified ::
  "est_kind \<Rightarrow> string \<Rightarrow> 'c store \<Rightarrow> 'c artifact \<Rightarrow> (string \<times> fixture_file) list \<Rightarrow> (bytes \<Rightarrow> 'c measured) \<Rightarrow> string
    \<Rightarrow> string + 'c \<Rightarrow> bool" where
  "justified k est s a files meas n r \<longleftrightarrow> reusable k est s a n r \<or> measured_record files meas n r"

text \<open>The deliveries of the workers, from the point where the pending tests are known.\<close>

lemma delivered_safe:
  assumes run: "estimateAll io sha k est mirror ds err (b\<lparr>ar_image_sha := img\<rparr>) s3 = (e, r', s')"
    and mk: "mirror \<noteq> None \<longrightarrow> k = Profile_kind"
    and disk: "resumes (justified k est s a files meas) k est a s s3" and ext: "extends (justified k est s a files meas) a b"
    and g: "group_result (walkFixtures files (pendingTests names b)) meas ds err" and pending: "pendingTests names b \<noteq> []"
  shows "resumes (justified k est s a files meas) k est a s s'
    \<and> (e = None \<longrightarrow> ed_artifact (dir_of s' k est) = Artifact r' \<and> extends (justified k est s a files meas) a r'
        \<and> (\<forall>n \<in> set names. test_record r' n \<noteq> None))"
proof -
  let ?P = "justified k est s a files meas" and ?b = "b\<lparr>ar_image_sha := img\<rparr>"
  note d = group_result_delivers [OF g refl pendingTests_spec(2)]
  have new: "\<forall>(n, r) \<in> set (delivered ds). test_record ?b n = None \<and> ?P n r"
    using d pendingTests_spec(1) [of names b] by (fastforce simp: justified_def)
  have some: "err = None \<longrightarrow> ds \<noteq> []"
    using d pending by (auto simp: delivered_def simp del: pendingTests_spec)
  from estimateAll_safe [OF run mk _ disk conjunct1 [OF d] new some] ext
  have safe: "resumes ?P k est a s s'" "e = None \<longrightarrow> err = None
      \<and> ed_artifact (dir_of s' k est) = Artifact r' \<and> extends ?P a r' \<and> r' = add_all (delivered ds) ?b"
    by auto
  have "test_record r' n \<noteq> None" if "e = None" "n \<in> set names" for n
  proof -
    from safe that have r': "r' = add_all (delivered ds) ?b" and "err = None" by auto
    have "test_record r' = test_record ?b ++ map_of (delivered ds)"
      unfolding r' by (rule add_all_records [OF conjunct1 [OF d]]) (use new in auto)
    moreover have "n \<in> fst ` set (delivered ds) \<or> test_record b n \<noteq> None"
      using d \<open>err = None\<close> that(2) pendingTests_spec(1) [of names b] by auto
    ultimately show ?thesis by (auto simp: map_add_def map_of_eq_None_iff split: option.split)
  qed
  with safe show ?thesis by auto
qed

lemma complete_safe:
  assumes run: "complete io sha k est names start workers ord a s = (e, r', s')" and wf: "wf_artifact a"
    and workers: "\<And>ps. group_result (walkFixtures files ps) meas (fst (workers ps)) (snd (workers ps))"
  shows "resumes (justified k est s a files meas) k est a s s'
    \<and> (e = None \<longrightarrow> ed_artifact (dir_of s' k est) = Artifact r' \<and> extends (justified k est s a files meas) a r'
        \<and> (\<forall>n \<in> set names. test_record r' n \<noteq> None))"
proof (cases "kind_testFile k \<noteq> [] \<and> \<not> list_all (\<lambda>n. is_local (sanitizeResultPath sha n)) names")
  case True
  with run show ?thesis by (auto simp: complete_def resumes_def)
next
  case False
  let ?P = "justified k est s a files meas"
  obtain rm s1 where m: "readMirror io k est a s = (rm, s1)" by force
  note sm = readMirror_same [OF m]
  show ?thesis
  proof (cases rm)
    case (Inl x)
    with run False m sm show ?thesis by (auto simp: complete_def resumes_def same_dirs_dir_of)
  next
    case (Inr mirror)
    have mk: "mirror \<noteq> None \<longrightarrow> k = Profile_kind" using sm Inr by auto
    obtain rr s2 where u: "reuseEstimates io k est names a s1 = (rr, s2)" by force
    show ?thesis
    proof (cases rr)
      case (Inl x)
      have "same_dirs s1 s2" using u by (auto simp: reuseEstimates_def split: prod.splits option.splits dest: scanEstimates_same)
      with sm have "same_dirs s s2" using same_dirs_trans by blast
      with run False m \<open>rm = Inr mirror\<close> u Inl show ?thesis by (auto simp: complete_def resumes_def same_dirs_dir_of)
    next
      case (Inr t)
      obtain b i srcs where t: "t = (b, i, srcs)" by (cases t)
      from reuseEstimates_extends [OF u [unfolded Inr t] wf] sm
      have same: "same_dirs s s2" and "extends (reusable k est s a) a b"
        by (auto simp: reusable_same intro: same_dirs_trans)
      then have ext: "extends ?P a b" by (auto simp: justified_def elim: extends_mono)
      let ?ps = "pendingTests names b"
      obtain rl s3 where l: "linkTestFiles io sha k est (ord srcs) s2 = (rl, s3)" by force
      have disk2: "resumes ?P k est a s s2" using same by (simp add: resumes_def same_dirs_dir_of)
      then have disk3: "resumes ?P k est a s s3"
        using keeps_linkTestFiles [OF l] by (simp add: resumes_def keeps_artifacts_def)
      show ?thesis
      proof (cases "?ps = []")
        case True
        then have recorded: "\<forall>n \<in> set names. test_record b n \<noteq> None"
          using pendingTests_spec(1) [of names b] by auto
        obtain rs s4 where sv: "est_save io k est b mirror s3 = (rs, s4)" by force
        from run False m \<open>rm = Inr mirror\<close> u Inr t True l sv
        have "(e, r', s') = (case rl of Inl x \<Rightarrow> (Some x, b, s3)
            | Inr _ \<Rightarrow> (case rs of Inl x \<Rightarrow> (Some x, b, s4) | Inr _ \<Rightarrow> (None, b, s4)))"
          by (simp add: complete_def Let_def split: sum.splits)
        with disk3 ext recorded resumes_save [OF sv mk disk3 ext] show ?thesis
          by (auto split: sum.splits)
      next
        case pending: False
        show ?thesis
        proof (cases "start ?ps")
          case (Inl x)
          with run False m \<open>rm = Inr mirror\<close> u Inr t pending disk2 show ?thesis
            by (auto simp: complete_def Let_def)
        next
          case image: (Inr img)
          let ?b = "b\<lparr>ar_image_sha := img\<rparr>"
          obtain ds err where w: "workers ?ps = (ds, err)" by force
          have g: "group_result (walkFixtures files ?ps) meas ds err" using workers [of ?ps] w by simp
          have eq: "(e, r', s') = (case rl of Inl x \<Rightarrow> (Some x, ?b, s3)
              | Inr _ \<Rightarrow> estimateAll io sha k est mirror ds err ?b s3)"
            using run False m \<open>rm = Inr mirror\<close> u Inr t pending image l w
            by (simp add: complete_def Let_def split: sum.splits)
          show ?thesis
          proof (cases rl)
            case (Inl x)
            with eq disk3 show ?thesis by simp
          next
            case (Inr unit)
            with eq have run': "estimateAll io sha k est mirror ds err ?b s3 = (e, r', s')" by simp
            from delivered_safe [OF this mk disk3 ext g pending] show ?thesis .
          qed
        qed
      qed
    qed
  qed
qed

text \<open>C8: whatever the workers deliver and wherever the file system fails, the artifact on disk of an
  estimate stays the one it was or becomes a well formed extension of the one the command started
  from: it keeps every record, and a new record is the measurement of that test's own input or the
  record of another estimate of the same image, ELF and suite. A command without an error leaves
  such an artifact with a record for every test.\<close>

theorem estimate_safe:
  assumes "complete io sha k est names start workers ord a s = (e, r', s')" and "wf_artifact a"
    and "\<And>ps. group_result (walkFixtures files ps) meas (fst (workers ps)) (snd (workers ps))"
  shows "resumes (justified k est s a files meas) k est a s s'
    \<and> (e = None \<longrightarrow> ed_artifact (dir_of s' k est) = Artifact r' \<and> extends (justified k est s a files meas) a r'
        \<and> (\<forall>n \<in> set names. test_record r' n \<noteq> None))"
  using assms by (rule complete_safe)

section \<open>The order of the workers\<close>

lemma map_of_mset:
  assumes "mset xs = mset ys" "distinct (map fst xs)"
  shows "map_of xs = map_of ys"
proof
  fix n
  have "mset (map fst xs) = mset (map fst ys)" using assms(1) by simp
  with assms(2) have "distinct (map fst ys)" by (metis mset_eq_imp_distinct_iff)
  with assms show "map_of xs n = map_of ys n"
    by (metis map_of_eq_Some_iff not_Some_eq set_mset_mset)
qed


section \<open>The mirror of a profile\<close>

lemma map_of_merge:
  "distinct (map fst src) \<Longrightarrow> map_of (merge_map src dst) n = (case map_of src n of Some v \<Rightarrow> Some v | None \<Rightarrow> map_of dst n)"
proof (induction src arbitrary: dst)
  case (Cons x src)
  obtain m v where x: "x = (m, v)" by (cases x)
  with Cons have "map_of (merge_map (x # src) dst) n
      = (case map_of src n of Some w \<Rightarrow> Some w | None \<Rightarrow> map_of (AList.update m v dst) n)"
    by (simp add: merge_map_def)
  moreover have "map_of src m = None" using Cons.prems x by (simp add: map_of_eq_None_iff)
  ultimately show ?case by (auto simp: x update_conv' split: option.split)
qed (simp add: merge_map_def)

lemma map_of_delete_keys: "map_of (delete_keys names m) n = (if n \<in> set names then None else map_of m n)"
  by (induction names arbitrary: m) (auto simp: delete_keys_def delete_conv')

lemma distinct_merge: "distinct (map fst dst) \<Longrightarrow> distinct (map fst (merge_map src dst))"
  by (induction src arbitrary: dst) (auto simp: merge_map_def distinct_update)

lemma distinct_delete_keys: "distinct (map fst m) \<Longrightarrow> distinct (map fst (delete_keys names m))"
  by (induction names arbitrary: m) (auto simp: delete_keys_def distinct_delete)

lemma keys_map_of: "n \<in> fst ` set al \<longleftrightarrow> map_of al n \<noteq> None"
  by (auto simp: map_of_eq_None_iff)

lemma merged_record:
  assumes "wf_artifact a" "wf_artifact m"
  shows "wf_artifact (merged_artifact a m)
    \<and> test_record (merged_artifact a m) n = (case test_record a n of Some r \<Rightarrow> Some r | None \<Rightarrow> test_record m n)"
proof -
  note d = assms [unfolded wf_artifact_def]
  have t: "map_of (ar_tests (merged_artifact a m)) n = (case map_of (ar_tests a) n of Some v \<Rightarrow> Some v
      | None \<Rightarrow> if map_of (ar_failures a) n \<noteq> None then None else map_of (ar_tests m) n)" for n
    using d by (simp add: merged_artifact_def map_of_merge map_of_delete_keys keys_map_of del: map_of_eq_None_iff
        split: option.split)
  have f: "map_of (ar_failures (merged_artifact a m)) n = (case map_of (ar_failures a) n of Some v \<Rightarrow> Some v
      | None \<Rightarrow> if map_of (ar_tests a) n \<noteq> None then None else map_of (ar_failures m) n)" for n
    using d by (simp add: merged_artifact_def map_of_merge map_of_delete_keys keys_map_of split: option.split)
  have disj: "map_of (ar_tests b) n = Some x \<Longrightarrow> map_of (ar_failures b) n = None" if "wf_artifact b"
    for b :: "'b artifact" and n x
    using that unfolding wf_artifact_def by (metis disjoint_iff keys_map_of option.distinct(1))
  have "fst ` set (ar_tests (merged_artifact a m)) \<inter> fst ` set (ar_failures (merged_artifact a m)) = {}"
    using disj [OF assms(1)] disj [OF assms(2)]
    by (auto simp: disjoint_iff keys_map_of t f split: option.splits if_splits)
  moreover have "distinct (map fst (ar_tests (merged_artifact a m)))" "distinct (map fst (ar_failures (merged_artifact a m)))"
    using d by (auto simp: merged_artifact_def intro: distinct_merge distinct_delete_keys)
  moreover have "test_record (merged_artifact a m) n = (case test_record a n of Some r \<Rightarrow> Some r | None \<Rightarrow> test_record m n)"
    using disj [OF assms(1), of n _] unfolding test_record_def t f by (auto split: option.splits)
  ultimately show ?thesis unfolding wf_artifact_def by blast
qed

text \<open>C24: saving a profile that mirrors an estimate writes the profile and, beside it, the estimate with
  the profile's record of every test that has one and the estimate's own record of the others, so a
  cost and a failure never meet for one test.\<close>

theorem profile_mirror:
  assumes "est_save io Profile_kind est a (Some m) s = (Inr (), s')" "wf_artifact a" "wf_artifact m"
  shows "ed_artifact (dir_of s' Profile_kind est) = Artifact a
    \<and> (\<exists>b. ed_artifact (dir_of s' Estimate_kind est) = Artifact b \<and> wf_artifact b \<and> sameEstimation b a
        \<and> (\<forall>n. test_record b n = (case test_record a n of Some r \<Rightarrow> Some r | None \<Rightarrow> test_record m n)))"
proof -
  from assms(1) obtain s1 where w1: "writeArtifact io Profile_kind est a s = (Inr (), s1)"
    and w2: "writeArtifact io Estimate_kind est (merged_artifact a m) s1 = (Inr (), s')"
    by (auto simp: est_save_def split: prod.splits sum.splits)
  have "sameEstimation (merged_artifact a m) a" by (simp add: sameEstimation_def merged_artifact_def)
  with writeArtifact_disk [OF w1] writeArtifact_disk [OF w2] merged_record [OF assms(2,3)] show ?thesis by auto
qed

section \<open>Samples\<close>

definition sample_artifact :: "nat artifact" where
  "sample_artifact = empty_artifact\<lparr>ar_suite := ''s'', ar_image := ''i'', ar_elf_sha := ''e'', ar_tests := [(''a'', 1)]\<rparr>"

definition other_artifact :: "nat artifact" where
  "other_artifact = sample_artifact\<lparr>ar_tests := [(''b'', 2)], ar_failures := [(''a'', ''oom'')]\<rparr>"

definition sample_store :: "nat store" where
  "sample_store = \<lparr>dirs_of = (\<lambda>k. if k = Estimate_kind then [(''old'', \<lparr>ed_artifact = Artifact other_artifact, ed_files = []\<rparr>)]
     else []), ops = 0\<rparr>"

definition sample_fixtures :: "(string \<times> fixture_file) list" where
  "sample_fixtures = [(''f.json'', Fixtures [(''tests/c'', \<lparr>fx_inputs = [''0x07'']\<rparr>)])]"

definition sample_meas :: "bytes \<Rightarrow> nat measured" where
  "sample_meas stdin = (if stdin = [7] then Measured 3 None else Measure_failed [])"

text \<open>Workers that deliver everything where all the jobs are measured, and nothing but an error else.\<close>

definition sample_workers :: "string list \<Rightarrow> nat delivery list \<times> est_error option" where
  "sample_workers ps =
     (case walkFixtures sample_fixtures ps of (js, e) \<Rightarrow>
        let ds = map (\<lambda>j. deliver j (sample_meas (jb_stdin j))) js in
        if e = None \<and> None \<notin> set ds then (map the ds, None) else ([], Some (Walking [])))"

lemma map_Some_the: "None \<notin> set xs \<Longrightarrow> map Some (map the xs) = xs"
  by (induction xs) auto

lemma filter_Some: "None \<notin> set xs \<Longrightarrow> filter (\<lambda>d. d \<noteq> None) xs = xs"
  by (rule filter_True) metis

lemma group_of_all:
  assumes "None \<notin> set all" "all = map (\<lambda>j. deliver j (meas (jb_stdin j))) js"
  shows "group_result (js, None) meas (map the all) None"
  unfolding group_result_def Let_def fst_conv snd_conv assms(2) [symmetric]
  by (simp only: map_Some_the [OF assms(1)] filter_Some [OF assms(1)]) (simp add: assms(1))

lemma sample_group: "group_result (walkFixtures sample_fixtures ps) sample_meas (fst (sample_workers ps)) (snd (sample_workers ps))"
proof -
  obtain js e where w: "walkFixtures sample_fixtures ps = (js, e)" by force
  let ?ds = "map (\<lambda>j. deliver j (sample_meas (jb_stdin j))) js"
  show ?thesis
  proof (cases "e = None \<and> None \<notin> set ?ds")
    case True
    have "sample_workers ps = (map the ?ds, None)" using True w by (simp only: sample_workers_def Let_def) simp
    moreover have "group_result (js, None) sample_meas (map the ?ds) None"
      using True by (intro group_of_all) simp_all
    ultimately show ?thesis using True w by simp
  next
    case False
    with w show ?thesis by (auto simp: sample_workers_def group_result_def Let_def)
  qed
qed

definition never_fails :: io_oracle where
  "never_fails n = None"

lemma sample_run:
  "\<exists>r s'. complete never_fails (\<lambda>_. []) Estimate_kind ''new'' [''a'', ''b'', ''c''] (\<lambda>_. Inr ''sha'') sample_workers (\<lambda>x. x)
      sample_artifact sample_store = (None, r, s')
    \<and> ar_tests r = [(''a'', 1), (''b'', 2), (''c'', 3)] \<and> ar_failures r = []"
proof -
  have w: "walkFixtures sample_fixtures [''c''] = ([\<lparr>jb_name = ''c'', jb_stdin = [7]\<rparr>], None)"
    by (simp add: walkFixtures_def sample_fixtures_def has_suffix_def trim_prefix_def has_prefix_def Let_def
        statelessInput_def hex_val_def)
  have d: "sample_workers [''c'']
      = ([\<lparr>dl_outcome = \<lparr>oc_name = ''c'', oc_result = Inr 3\<rparr>, dl_content = None\<rparr>], None)"
    by (simp add: sample_workers_def w Let_def sample_meas_def)
  show ?thesis
    by (simp add: complete_def readMirror_def reuseEstimates_def scanEstimates_def io_step_def never_fails_def
        sample_store_def readArtifact_def dir_of_def reuse_visit_def sameEstimation_def other_artifact_def
        sample_artifact_def empty_artifact_def pendingTests_def is_pending_def reuse_test_def linkTestFiles_def
        estimateAll_def loop_step_def land_file_def record_outcome_def d Let_def est_save_def writeArtifact_def
        progressInterval_def)
qed

theorem estimate_safe_witness:
  "\<exists>r s'. complete never_fails (\<lambda>_. []) Estimate_kind ''new'' [''a'', ''b'', ''c''] (\<lambda>_. Inr ''sha'') sample_workers (\<lambda>x. x)
      sample_artifact sample_store = (None, r, s')
    \<and> ed_artifact (dir_of s' Estimate_kind ''new'') = Artifact r \<and> ar_tests r = [(''a'', 1), (''b'', 2), (''c'', 3)]"
proof -
  from sample_run obtain r s' where c: "complete never_fails (\<lambda>_. []) Estimate_kind ''new'' [''a'', ''b'', ''c'']
      (\<lambda>_. Inr ''sha'') sample_workers (\<lambda>x. x) sample_artifact sample_store = (None, r, s')"
    and "ar_tests r = [(''a'', 1), (''b'', 2), (''c'', 3)]" by blast
  moreover have "wf_artifact sample_artifact" by (simp add: wf_artifact_def sample_artifact_def empty_artifact_def)
  from estimate_safe [OF c this sample_group] have "ed_artifact (dir_of s' Estimate_kind ''new'') = Artifact r" by blast
  ultimately show ?thesis by blast
qed

definition sample_delivery :: "string \<Rightarrow> string + nat \<Rightarrow> nat delivery" where
  "sample_delivery n r = \<lparr>dl_outcome = \<lparr>oc_name = n, oc_result = r\<rparr>, dl_content = None\<rparr>"


theorem profile_mirror_witness:
  "\<exists>s'. est_save never_fails Profile_kind ''p'' sample_artifact (Some other_artifact) sample_store = (Inr (), s')
    \<and> (\<exists>b. ed_artifact (dir_of s' Estimate_kind ''p'') = Artifact b \<and> test_record b ''a'' = Some (Inr 1)
        \<and> test_record b ''b'' = Some (Inr 2))"
proof -
  obtain s' where s: "est_save never_fails Profile_kind ''p'' sample_artifact (Some other_artifact) sample_store = (Inr (), s')"
    by (simp add: est_save_def writeArtifact_def io_step_def never_fails_def)
  have wf: "wf_artifact sample_artifact" "wf_artifact other_artifact"
    by (simp_all add: wf_artifact_def sample_artifact_def other_artifact_def empty_artifact_def)
  have r: "test_record sample_artifact ''a'' = Some (Inr 1)" "test_record sample_artifact ''b'' = None"
    "test_record other_artifact ''b'' = Some (Inr 2)"
    by (simp_all add: test_record_def sample_artifact_def other_artifact_def empty_artifact_def)
  from profile_mirror [OF s wf] obtain b where b: "ed_artifact (dir_of s' Estimate_kind ''p'') = Artifact b"
    "\<forall>n. test_record b n = (case test_record sample_artifact n of Some r \<Rightarrow> Some r | None \<Rightarrow> test_record other_artifact n)"
    by blast
  have "test_record b ''a'' = Some (Inr 1)" "test_record b ''b'' = Some (Inr 2)" using b(2) r by simp_all
  with s b(1) show ?thesis by blast
qed

end
