(* ===== verification/Atomic_File.thy ===== *)
theory Atomic_File
  imports Estimate
begin

text \<open>
  \<open>writeFile\<close> of \<open>internal/estimate/estimate.go\<close> on a disk of files with their contents and
  modes: a temporary file beside the target is written, closed, published and renamed. Every operation
  may fail, and a failed write may have written the first \<open>part\<close> bytes. \<open>temp\<close> is the name
  \<open>CreateTemp\<close> picks.
\<close>

record disk =
  disk_files :: "(string \<times> (string \<times> nat)) list"
  disk_ops :: nat

datatype disk_op = Mkdir_all | Create_temp | Write_temp | Close_temp | Chmod_temp | Rename_temp | Remove_temp

definition disk_step :: "(nat \<Rightarrow> disk_op \<Rightarrow> string option) \<Rightarrow> disk_op \<Rightarrow> disk \<Rightarrow> string option \<times> disk" where
  "disk_step io op d = (io (disk_ops d) op, d\<lparr>disk_ops := Suc (disk_ops d)\<rparr>)"

definition put_file :: "string \<Rightarrow> string \<times> nat \<Rightarrow> disk \<Rightarrow> disk" where
  "put_file p f d = d\<lparr>disk_files := AList.update p f (disk_files d)\<rparr>"

definition drop_file :: "string \<Rightarrow> disk \<Rightarrow> disk" where
  "drop_file p d = d\<lparr>disk_files := AList.delete p (disk_files d)\<rparr>"

text \<open>\<open>os.Remove\<close> of the temporary file, whose own error is dropped.\<close>

definition remove_temp :: "(nat \<Rightarrow> disk_op \<Rightarrow> string option) \<Rightarrow> string \<Rightarrow> disk \<Rightarrow> disk" where
  "remove_temp io temp d =
     (case disk_step io Remove_temp d of (None, d1) \<Rightarrow> drop_file temp d1 | (Some _, d1) \<Rightarrow> d1)"

definition write_temp ::
  "(nat \<Rightarrow> disk_op \<Rightarrow> string option) \<Rightarrow> string \<Rightarrow> nat \<Rightarrow> string \<Rightarrow> string \<Rightarrow> disk \<Rightarrow> (string + unit) \<times> disk" where
  "write_temp io temp part path data d =
     (case disk_step io Write_temp d of
        (Some e, d1) \<Rightarrow>
          (Inl e, remove_temp io temp (snd (disk_step io Close_temp (put_file temp (List.take part data, 384) d1))))
      | (None, d1) \<Rightarrow>
          (case disk_step io Close_temp (put_file temp (data, 384) d1) of
             (Some e, d2) \<Rightarrow> (Inl e, remove_temp io temp d2)
           | (None, d2) \<Rightarrow>
               (case disk_step io Chmod_temp d2 of
                  (Some e, d3) \<Rightarrow> (Inl e, remove_temp io temp d3)
                | (None, d3) \<Rightarrow>
                    (case disk_step io Rename_temp (put_file temp (data, 420) d3) of
                       (Some e, d4) \<Rightarrow> (Inl e, remove_temp io temp d4)
                     | (None, d4) \<Rightarrow> (Inr (), put_file path (data, 420) (drop_file temp d4))))))"

definition writeFile ::
  "(nat \<Rightarrow> disk_op \<Rightarrow> string option) \<Rightarrow> string \<Rightarrow> nat \<Rightarrow> string \<Rightarrow> string \<Rightarrow> disk \<Rightarrow> (string + unit) \<times> disk" where
  "writeFile io temp part path data d =
     (case disk_step io Mkdir_all d of
        (Some e, d1) \<Rightarrow> (Inl e, d1)
      | (None, d1) \<Rightarrow>
          (case disk_step io Create_temp d1 of
             (Some e, d2) \<Rightarrow> (Inl e, d2)
           | (None, d2) \<Rightarrow> write_temp io temp part path data (put_file temp ([], 384) d2)))"

lemma disk_step_files [simp]: "disk_files (snd (disk_step io op d)) = disk_files d"
  by (simp add: disk_step_def)

lemma remove_temp_files:
  "p \<noteq> temp \<Longrightarrow> map_of (disk_files (remove_temp io temp d)) p = map_of (disk_files d) p"
  by (auto simp: remove_temp_def disk_step_def drop_file_def delete_conv' split: option.split)

lemma remove_temp_gone:
  "\<forall>n. io n Remove_temp = None \<Longrightarrow> map_of (disk_files (remove_temp io temp d)) temp = None"
  by (simp add: remove_temp_def disk_step_def drop_file_def delete_conv')

lemma write_temp_files:
  assumes "write_temp io temp part path data d = (r, d')" "temp \<noteq> path"
  shows "(\<forall>p. p \<noteq> temp \<longrightarrow> map_of (disk_files d') p
      = (if r = Inr () \<and> p = path then Some (data, 420) else map_of (disk_files d) p))
    \<and> ((\<forall>n. io n Remove_temp = None) \<or> r = Inr () \<longrightarrow> map_of (disk_files d') temp = None)"
  using assms
  by (auto simp: write_temp_def disk_step_def put_file_def drop_file_def remove_temp_files remove_temp_gone
      update_conv' delete_conv' split: option.splits)

lemma writeFile_cases:
  assumes "writeFile io temp part path data d = (r, d')"
  obtains (early) e where "r = Inl e" "disk_files d' = disk_files d"
    | (temp) d2 where "disk_files d2 = disk_files d" "write_temp io temp part path data (put_file temp ([], 384) d2) = (r, d')"
proof -
  let ?d1 = "snd (disk_step io Mkdir_all d)" and ?d2 = "snd (disk_step io Create_temp (snd (disk_step io Mkdir_all d)))"
  have "(\<exists>e. r = Inl e \<and> disk_files d' = disk_files d) \<or> write_temp io temp part path data (put_file temp ([], 384) ?d2) = (r, d')"
    using assms by (auto simp: writeFile_def disk_step_def split: option.splits)
  then show thesis using early temp [of ?d2] by auto
qed

text \<open>C18: \<open>writeFile\<close> is atomic. Whatever fails, the target is what it was, or the new content, mode
  0644, where no error is reported; no other file changes; and the temporary file is gone unless
  removing it failed too.\<close>

theorem write_file_atomic:
  assumes "writeFile io temp part path data d = (r, d')" "temp \<noteq> path" "map_of (disk_files d) temp = None"
  shows "(\<forall>p. p \<noteq> temp \<longrightarrow> map_of (disk_files d') p
      = (if r = Inr () \<and> p = path then Some (data, 420) else map_of (disk_files d) p))
    \<and> ((\<forall>n. io n Remove_temp = None) \<or> r = Inr () \<longrightarrow> map_of (disk_files d') temp = None)"
proof -
  consider e where "r = Inl e" "disk_files d' = disk_files d"
    | d2 where "disk_files d2 = disk_files d" "write_temp io temp part path data (put_file temp ([], 384) d2) = (r, d')"
    using assms(1) by (rule writeFile_cases)
  then show ?thesis
  proof cases
    case 1
    with assms(3) show ?thesis by simp
  next
    case 2
    with write_temp_files [OF 2(2) assms(2)] show ?thesis by (simp add: put_file_def update_conv')
  qed
qed

theorem write_file_atomic_witness:
  "\<exists>d'. writeFile (\<lambda>n op. if op = Chmod_temp then Some ''denied'' else None) ''t'' 0 ''f'' ''new''
      \<lparr>disk_files = [(''f'', (''old'', 420))], disk_ops = 0\<rparr> = (Inl ''denied'', d')
    \<and> map_of (disk_files d') ''f'' = Some (''old'', 420) \<and> map_of (disk_files d') ''t'' = None"
proof -
  let ?io = "\<lambda>n op. if op = Chmod_temp then Some ''denied'' else None"
  obtain d' where d: "writeFile ?io ''t'' 0 ''f'' ''new'' \<lparr>disk_files = [(''f'', (''old'', 420))], disk_ops = 0\<rparr>
      = (Inl ''denied'', d')"
    by (simp add: writeFile_def disk_step_def write_temp_def remove_temp_def put_file_def drop_file_def)
  from write_file_atomic [OF d] d show ?thesis by auto
qed

section \<open>Paths of test files\<close>

text \<open>A component that was too long becomes one of exactly the longest length.\<close>

lemma sanitize_component_bound:
  assumes "\<And>b. 8 \<le> length (sha256 b)"
  shows "length (sanitize_component sha256 p) \<le> maxResultPathComponent"
proof -
  have "length (hex_encode bs) = 2 * length bs" for bs
    by (induction bs) auto
  then show ?thesis using assms [of "bytes_of p"] by (simp add: sanitize_component_def maxResultPathComponent_def min_def)
qed

lemma sanitize_short: "list_all (\<lambda>p. length p \<le> maxResultPathComponent) (split_on CHR ''/'' n) \<Longrightarrow>
    sanitizeResultPath sha256 n = n"
  by (simp add: sanitizeResultPath_def Let_def)

end
