(* ===== verification/Supervisor.thy ===== *)
theory Supervisor
  imports Zisk_Client
begin

text \<open>
  \<open>cmd/zisk-supervisor\<close>, the process that runs the ZisK coordinator and ends it on request, as a
  step relation: one step is one action of a goroutine between two that another may see. The state
  holds the coordinator, the flag \<open>requested\<close>, the channel \<open>ended\<close>, the goroutine that
  waits for a signal, one answering goroutine per connection, and the value \<open>run\<close> returned.
  When the coordinator exits, what a connection carries and when a signal arrives are choices of the
  environment.
\<close>

section \<open>Exit codes\<close>

text \<open>What \<open>cmd.Wait\<close> reports: \<open>Left\<close> with a code, \<open>Signalled\<close>, or an error that is
  no \<open>ExitError\<close>.\<close>

datatype wait_status = Left nat | Signalled nat | Wait_broken

fun exitCode :: "wait_status \<Rightarrow> int" where
  "exitCode (Left code) = int code"
| "exitCode (Signalled sig) = 128 + int sig"
| "exitCode Wait_broken = 1"

definition run_status :: "bool \<Rightarrow> wait_status \<Rightarrow> int" where
  "run_status requested w = (let status = exitCode w in if requested \<and> status = 0 then 1 else status)"

section \<open>Startup\<close>

text \<open>\<open>main\<close> up to \<open>run\<close>: the exit code of a refused start, or the command.\<close>

definition startup :: "string list \<Rightarrow> string \<Rightarrow> bool \<Rightarrow> int + string list" where
  "startup args port listens =
     (if length args < 2 then Inl 2
      else if port = [] then Inl 2
      else if \<not> listens then Inl 1
      else Inr (tl args))"

section \<open>Connections\<close>

definition verb :: string where "verb = ''restart''"
definition readTimeout :: int where "readTimeout = 5 * second"
definition requestLimit :: nat where "requestLimit = 64"

datatype conn =
    Reading
  | Storing
  | Ending
  | Waiting
  | Closed_unread
  | Closed_refused
  | Closed_ended

text \<open>\<open>ReadString\<close> on what arrives within \<open>readTimeout\<close> or before the end of the stream: the
  first line, when it ends within the limit.\<close>

definition read_request :: "string \<Rightarrow> string option" where
  "read_request data =
     (let d = List.take requestLimit data in
      if CHR 0x0A \<in> set d then Some (takeWhile (\<lambda>c. c \<noteq> CHR 0x0A) d @ [CHR 0x0A]) else None)"

definition answer_read :: "string \<Rightarrow> conn" where
  "answer_read data =
     (case read_request data of
        None \<Rightarrow> Closed_unread
      | Some line \<Rightarrow> if trim_space line \<noteq> verb then Closed_refused else Storing)"

section \<open>The process\<close>

datatype watcher = Watching | Signal_taken | Watch_over

record supervisor =
  coordinator :: "wait_status option"
  asked :: bool
  ended :: bool
  watch :: watcher
  conns :: "conn list"
  terms :: nat
  kills :: nat
  returned :: "int option"

definition sup_start :: supervisor where
  "sup_start = \<lparr>coordinator = None, asked = False, ended = False, watch = Watching, conns = [], terms = 0,
     kills = 0, returned = None\<rparr>"

text \<open>\<open>end\<close>: one SIGTERM now, and a kill after \<open>terminateGrace\<close>, which is a step of its own.\<close>

definition end_process :: "supervisor \<Rightarrow> supervisor" where
  "end_process s = s\<lparr>terms := Suc (terms s)\<rparr>"

inductive sup_step :: "supervisor \<Rightarrow> supervisor \<Rightarrow> bool" where
  accept: "returned s = None \<Longrightarrow> sup_step s (s\<lparr>conns := conns s @ [Reading]\<rparr>)"
| read: "returned s = None \<Longrightarrow> i < length (conns s) \<Longrightarrow> conns s ! i = Reading \<Longrightarrow>
    sup_step s (s\<lparr>conns := (conns s)[i := answer_read data]\<rparr>)"
| store: "returned s = None \<Longrightarrow> i < length (conns s) \<Longrightarrow> conns s ! i = Storing \<Longrightarrow>
    sup_step s (s\<lparr>asked := True, conns := (conns s)[i := Ending]\<rparr>)"
| terminate: "returned s = None \<Longrightarrow> i < length (conns s) \<Longrightarrow> conns s ! i = Ending \<Longrightarrow>
    sup_step s (end_process (s\<lparr>conns := (conns s)[i := Waiting]\<rparr>))"
| close: "returned s = None \<Longrightarrow> i < length (conns s) \<Longrightarrow> conns s ! i = Waiting \<Longrightarrow> ended s \<Longrightarrow>
    sup_step s (s\<lparr>conns := (conns s)[i := Closed_ended]\<rparr>)"
| signal: "returned s = None \<Longrightarrow> watch s = Watching \<Longrightarrow> sup_step s (end_process (s\<lparr>watch := Signal_taken\<rparr>))"
| watch_over: "returned s = None \<Longrightarrow> watch s = Watching \<Longrightarrow> ended s \<Longrightarrow> sup_step s (s\<lparr>watch := Watch_over\<rparr>)"
| kill: "returned s = None \<Longrightarrow> kills s < terms s \<Longrightarrow> sup_step s (s\<lparr>kills := Suc (kills s)\<rparr>)"
| exits: "returned s = None \<Longrightarrow> coordinator s = None \<Longrightarrow> sup_step s (s\<lparr>coordinator := Some w\<rparr>)"
| waited: "returned s = None \<Longrightarrow> coordinator s = Some w \<Longrightarrow> sup_step s (s\<lparr>ended := True\<rparr>)"
| return: "returned s = None \<Longrightarrow> coordinator s = Some w \<Longrightarrow> ended s \<Longrightarrow>
    sup_step s (s\<lparr>returned := Some (run_status (asked s) w)\<rparr>)"

abbreviation sup_reachable :: "supervisor \<Rightarrow> bool" where
  "sup_reachable \<equiv> sup_step\<^sup>*\<^sup>* sup_start"

text \<open>What a caller sees of its connection: the end of the stream without a refusal, when the goroutine
  closed it or the process is gone.\<close>

definition ends_silently :: "supervisor \<Rightarrow> conn \<Rightarrow> bool" where
  "ends_silently s c \<longleftrightarrow> c \<noteq> Closed_refused \<and> (c \<in> {Closed_unread, Closed_ended} \<or> returned s \<noteq> None)"

section \<open>Invariant\<close>

definition sup_inv :: "supervisor \<Rightarrow> bool" where
  "sup_inv s \<longleftrightarrow>
     (ended s \<longrightarrow> coordinator s \<noteq> None) \<and>
     (Closed_ended \<in> set (conns s) \<longrightarrow> ended s) \<and>
     (\<forall>c \<in> {Ending, Waiting, Closed_ended}. c \<in> set (conns s) \<longrightarrow> asked s) \<and>
     (0 < terms s \<longrightarrow> watch s = Signal_taken \<or> asked s) \<and>
     kills s \<le> terms s \<and>
     (case returned s of None \<Rightarrow> True
      | Some st \<Rightarrow> ended s \<and> st = run_status (asked s) (the (coordinator s)))"

lemma conn_at: "i < length cs \<Longrightarrow> cs ! i = c \<Longrightarrow> c \<in> set cs"
  by auto

lemma in_update: "c \<in> set (cs[i := x]) \<Longrightarrow> c = x \<or> c \<in> set cs"
  using set_update_subset_insert [of cs i x] by auto

lemma answer_read_open: "answer_read data \<notin> {Ending, Waiting, Closed_ended}"
  by (simp add: answer_read_def split: option.split)

lemma sup_inv_step: "sup_step s t \<Longrightarrow> sup_inv s \<Longrightarrow> sup_inv t"
proof (induction rule: sup_step.induct)
  case (read s i data)
  then show ?case using answer_read_open [of data] by (auto simp: sup_inv_def dest!: in_update)
next
  case (store s i)
  then show ?case by (auto simp: sup_inv_def dest!: in_update)
next
  case (terminate s i)
  from conn_at [OF terminate(2,3)] terminate(4) have "asked s" by (simp add: sup_inv_def)
  with terminate show ?case by (auto simp: sup_inv_def end_process_def dest!: in_update)
next
  case (close s i)
  from conn_at [OF close(2,3)] close(5) have "asked s" by (simp add: sup_inv_def)
  with close show ?case by (auto simp: sup_inv_def dest!: in_update)
qed (auto simp: sup_inv_def end_process_def)

lemma sup_inv_reachable: "sup_reachable s \<Longrightarrow> sup_inv s"
proof (induction rule: rtranclp_induct)
  case base
  show ?case by (simp add: sup_start_def sup_inv_def)
next
  case (step s t)
  show ?case using step(2,3) by (rule sup_inv_step)
qed

lemma exitCode_nonneg: "0 \<le> exitCode w"
  by (cases w) auto

text \<open>The request of the ZisK client is read as the verb.\<close>

lemma client_request_read: "answer_read (restartVerb @ [CHR 0x0A]) = Storing"
  by (simp add: answer_read_def read_request_def requestLimit_def restartVerb_def verb_def trim_space_def is_space_def)


text \<open>A restart: the verb of the client, a coordinator that exits cleanly, and the code 1.\<close>

definition restarted :: supervisor where
  "restarted = \<lparr>coordinator = Some (Left 0), asked = True, ended = True, watch = Watching, conns = [Closed_ended],
     terms = 1, kills = 0, returned = Some 1\<rparr>"

lemma sup_then: "sup_reachable s \<Longrightarrow> sup_step s t \<Longrightarrow> sup_reachable t"
  by (rule rtranclp.rtrancl_into_rtrancl)

lemma restarted_reachable: "sup_reachable restarted"
proof -
  let ?s0 = sup_start
  let ?s1 = "?s0\<lparr>conns := [Reading]\<rparr>"
  let ?s2 = "?s0\<lparr>conns := [Storing]\<rparr>"
  let ?s3 = "?s0\<lparr>asked := True, conns := [Ending]\<rparr>"
  let ?s4 = "?s0\<lparr>asked := True, conns := [Waiting], terms := 1\<rparr>"
  let ?s5 = "?s4\<lparr>coordinator := Some (Left 0)\<rparr>"
  let ?s6 = "?s5\<lparr>ended := True\<rparr>"
  let ?s7 = "?s6\<lparr>conns := [Closed_ended]\<rparr>"
  have "sup_reachable ?s1"
    by (rule sup_then [OF rtranclp.rtrancl_refl]) (use accept [of ?s0] in \<open>simp add: sup_start_def\<close>)
  then have "sup_reachable ?s2"
    by (rule sup_then) (use read [of ?s1 0 "restartVerb @ [CHR 0x0A]"] in
      \<open>simp add: sup_start_def client_request_read\<close>)
  then have "sup_reachable ?s3"
    by (rule sup_then) (use store [of ?s2 0] in \<open>simp add: sup_start_def\<close>)
  then have "sup_reachable ?s4"
    by (rule sup_then) (use terminate [of ?s3 0] in \<open>simp add: sup_start_def end_process_def\<close>)
  then have "sup_reachable ?s5"
    by (rule sup_then) (use exits [of ?s4 "Left 0"] in \<open>simp add: sup_start_def\<close>)
  then have "sup_reachable ?s6"
    by (rule sup_then) (use waited [of ?s5 "Left 0"] in \<open>simp add: sup_start_def\<close>)
  then have "sup_reachable ?s7"
    by (rule sup_then) (use close [of ?s6 0] in \<open>simp add: sup_start_def\<close>)
  then show ?thesis
    by (rule sup_then) (use return [of ?s7 "Left 0"] in \<open>simp add: sup_start_def restarted_def run_status_def\<close>)
qed


text \<open>A caller that sends no line in time sees the same end of stream while the coordinator runs.\<close>

lemma silent_close: "sup_reachable (sup_start\<lparr>conns := [Closed_unread]\<rparr>)"
proof -
  let ?s1 = "sup_start\<lparr>conns := [Reading]\<rparr>"
  have "sup_reachable ?s1"
    by (rule sup_then [OF rtranclp.rtrancl_refl]) (use accept [of sup_start] in \<open>simp add: sup_start_def\<close>)
  then show ?thesis
    by (rule sup_then) (use read [of ?s1 0 "[]"] in
      \<open>simp add: sup_start_def answer_read_def read_request_def\<close>)
qed

inductive_cases sup_returned_step: "sup_step s t"

text \<open>A returned run takes no further step.\<close>

lemma returned_final: "returned s = Some st \<Longrightarrow> \<not> sup_step s t"
  by (auto elim: sup_returned_step)

end
