(* ===== verification/Journal.thy ===== *)
theory Journal
  imports Hosts Wire_Text Output
begin

text \<open>
  \<open>internal/cluster/journal.go\<close>: the window of a run, the command that reads one container's
  journal, and its conversion into the lines Docker prints. The JSON decoder and the command are
  parameters: \<open>decode\<close> gives the entry of one line, and \<open>wr n\<close> the error of the
  \<open>n\<close>-th write to the file. Times are microseconds since the epoch in UTC. Go leaves it open whether
  \<open>return lines, flush()\<close> reads \<open>lines\<close> before the call; \<open>late\<close> is that choice.
\<close>

section \<open>The window of a run\<close>

datatype journal_error =
    Journal_io string
  | No_timestamp
  | Bad_entry string
  | Bad_message
  | Bad_time string
  | Token_too_long
  | Reading_journal string string journal_error
  | Writing_journal string journal_error

record run_times =
  rt_timestamp :: int
  rt_timestamp_end :: int

definition runWindow :: "journal_error + run_times \<Rightarrow> int \<Rightarrow> journal_error + (int \<times> int)" where
  "runWindow parsed now =
     rbind parsed (\<lambda>p.
       if rt_timestamp p = 0 then Inl No_timestamp
       else Inr (rt_timestamp p, if rt_timestamp_end p \<noteq> 0 then rt_timestamp_end p else now))"

section \<open>The command\<close>

definition sshArgs :: "string \<Rightarrow> string list" where
  "sshArgs destination =
     (let target = trim_prefix ''ssh://'' destination;
          at = nat (last_index CHR ''@'' target + 1);
          host = drop at target;
          colon = last_index CHR '':'' host
      in if colon < 0 then [target]
         else [''-p'', drop (nat (colon + 1)) host, List.take at target @ List.take (nat colon) host])"

definition journalFields :: string where "journalFields = ''MESSAGE,CONTAINER_PARTIAL_MESSAGE''"

definition journalCommand :: "string \<Rightarrow> string \<Rightarrow> int \<Rightarrow> int \<Rightarrow> bool \<Rightarrow> string \<times> string list" where
  "journalCommand destination name since until sudo =
     (let args = [''journalctl'', ''--quiet'', ''--all'', ''-o'', ''json'', ''--utc'', ''--no-pager'',
            ''--output-fields='' @ journalFields, ''CONTAINER_NAME='' @ name,
            ''--since'', ''@'' @ itoa since, ''--until'', ''@'' @ itoa until]
      in if destination = [] then (hd args, tl args)
         else (''ssh'', sshArgs destination @ (if sudo then [''sudo'', ''-n''] @ args else args)))"

section \<open>Time stamps\<close>

definition parse_int64 :: "string \<Rightarrow> int option" where
  "parse_int64 s =
     (let neg = (s \<noteq> [] \<and> hd s = CHR ''-''); ds = (if s \<noteq> [] \<and> hd s \<in> {CHR ''-'', CHR ''+''} then tl s else s);
          v = (if neg then - int (digits_val ds) else int (digits_val ds))
      in if ds \<noteq> [] \<and> list_all is_digit ds \<and> in_i64 v then Some v else None)"

definition journalTime :: "string \<Rightarrow> journal_error + int" where
  "journalTime realtime = (case parse_int64 realtime of None \<Rightarrow> Inl (Bad_time realtime) | Some us \<Rightarrow> Inr us)"

text \<open>A decimal padded with zeros to at least \<open>n\<close> digits.\<close>

definition padded :: "nat \<Rightarrow> nat \<Rightarrow> string" where
  "padded n v = (let s = nat_str v in replicate (n - length s) CHR ''0'' @ s)"

text \<open>The date of a day counted from the epoch, in the proleptic Gregorian calendar: eras of 400 years
  that start on the first of March.\<close>

definition month_day :: "int \<Rightarrow> nat \<Rightarrow> nat \<Rightarrow> int \<times> nat \<times> nat" where
  "month_day y doy mp =
     (if mp < 10 then (y, mp + 3, doy - (153 * mp + 2) div 5 + 1) else (y + 1, mp - 9, doy - (153 * mp + 2) div 5 + 1))"

definition date_in_year :: "int \<Rightarrow> nat \<Rightarrow> int \<times> nat \<times> nat" where
  "date_in_year y doy = month_day y doy ((5 * doy + 2) div 153)"

definition year_of_era :: "nat \<Rightarrow> nat" where
  "year_of_era doe = (doe - doe div 1460 + doe div 36524 - doe div 146096) div 365"

definition year_start :: "nat \<Rightarrow> nat" where
  "year_start yoe = 365 * yoe + yoe div 4 - yoe div 100"

definition date_in_era :: "int \<Rightarrow> nat \<Rightarrow> int \<times> nat \<times> nat" where
  "date_in_era era doe =
     date_in_year (int (year_of_era doe) + era * 400) (doe - year_start (year_of_era doe))"

definition civil_date :: "int \<Rightarrow> int \<times> nat \<times> nat" where
  "civil_date days = date_in_era ((days + 719468) div 146097) (nat ((days + 719468) mod 146097))"

lemmas civil_simps = civil_date_def date_in_era_def year_of_era_def year_start_def date_in_year_def month_day_def

text \<open>\<open>start.Format(journalTimeFormat)\<close>\<close>

definition stamp :: "int \<Rightarrow> string" where
  "stamp us =
     (let (y, m, d) = civil_date (us div 86400000000); r = nat (us mod 86400000000)
      in (if y < 0 then ''-'' else []) @ padded 4 (nat \<bar>y\<bar>) @ ''-'' @ padded 2 m @ ''-'' @ padded 2 d @ ''T''
         @ padded 2 (r div 3600000000) @ '':'' @ padded 2 (r div 60000000 mod 60) @ '':''
         @ padded 2 (r div 1000000 mod 60) @ ''.'' @ padded 9 (r mod 1000000 * 1000) @ ''Z'')"

lemma nat_str_digit: "n < 10 \<Longrightarrow> nat_str n = [digit_char n]"
  by (simp add: nat_str.simps)

lemma nat_str_more: "10 \<le> n \<Longrightarrow> nat_str n = nat_str (n div 10) @ [digit_char (n mod 10)]"
  by (subst nat_str.simps) simp

lemma digit_chars [simp]:
  "digit_char 0 = CHR ''0''" "digit_char 1 = CHR ''1''" "digit_char (Suc 0) = CHR ''1''" "digit_char 2 = CHR ''2''"
  "digit_char 3 = CHR ''3''" "digit_char 4 = CHR ''4''" "digit_char 5 = CHR ''5''" "digit_char 6 = CHR ''6''"
  "digit_char 7 = CHR ''7''" "digit_char 8 = CHR ''8''" "digit_char 9 = CHR ''9''"
  by code_simp+

lemma five_zeros: "replicate 5 CHR ''0'' = ''00000''"
  by (simp add: numeral_eq_Suc)

lemma stamp_leap_day: "stamp 1709251199000001 = ''2024-02-29T23:59:59.000001000Z''"
proof -
  have "civil_date 19782 = (2024, 2, 29)" by (simp add: civil_simps)
  moreover have "padded 4 2024 = ''2024''" "padded 2 2 = ''02''" "padded 2 29 = ''29''" "padded 2 23 = ''23''"
    "padded 2 59 = ''59''" "padded 9 1000 = ''000001000''"
    by (simp_all add: padded_def nat_str_digit nat_str_more five_zeros)
  ultimately show ?thesis by (simp add: stamp_def)
qed

section \<open>Entries\<close>

datatype raw_message =
    Raw_text string
  | Raw_null
  | Raw_values "int list"
  | Raw_other

record journal_entry =
  je_realtime :: string
  je_message :: "raw_message option"
  je_partial :: string

definition journalMessage :: "raw_message option \<Rightarrow> journal_error + string" where
  "journalMessage raw =
     (case raw of
        None \<Rightarrow> Inr []
      | Some (Raw_text t) \<Rightarrow> Inr t
      | Some Raw_null \<Rightarrow> Inr []
      | Some (Raw_values vs) \<Rightarrow> Inr (map (\<lambda>v. char_of (nat (v mod 256))) vs)
      | Some Raw_other \<Rightarrow> Inl Bad_message)"

section \<open>Writing a journal\<close>

definition journalLineLimit :: nat where "journalLineLimit = 2 ^ 20"

record journal_state =
  js_out :: "string list"
  js_lines :: nat
  js_text :: string
  js_start :: int

definition flush_line :: "(nat \<Rightarrow> string option) \<Rightarrow> journal_state \<Rightarrow> (journal_error + unit) \<times> journal_state" where
  "flush_line wr s =
     (case wr (js_lines s) of
        Some e \<Rightarrow> (Inl (Journal_io e), s)
      | None \<Rightarrow> (Inr (), s\<lparr>js_out := js_out s @ [stamp (js_start s) @ '' '' @ js_text s], js_text := [],
                          js_lines := Suc (js_lines s)\<rparr>))"

definition journal_step ::
  "(string \<Rightarrow> journal_entry option) \<Rightarrow> (nat \<Rightarrow> string option) \<Rightarrow> string \<Rightarrow> journal_state
    \<Rightarrow> (journal_error + unit) \<times> journal_state" where
  "journal_step decode wr line s =
     (case decode line of
        None \<Rightarrow> (Inl (Bad_entry line), s)
      | Some entry \<Rightarrow>
          (case journalMessage (je_message entry) of
             Inl e \<Rightarrow> (Inl e, s)
           | Inr message \<Rightarrow>
               (case (if js_text s = [] then journalTime (je_realtime entry) else Inr (js_start s)) of
                  Inl e \<Rightarrow> (Inl e, s)
                | Inr start \<Rightarrow>
                    (let s1 = s\<lparr>js_start := start, js_text := js_text s @ message\<rparr> in
                     if je_partial entry = ''true'' then (Inr (), s1) else flush_line wr s1))))"

fun journal_loop ::
  "(string \<Rightarrow> journal_entry option) \<Rightarrow> (nat \<Rightarrow> string option) \<Rightarrow> string list \<Rightarrow> journal_state
    \<Rightarrow> (journal_error + unit) \<times> journal_state" where
  "journal_loop decode wr [] s = (Inr (), s)"
| "journal_loop decode wr (l # ls) s =
     (case journal_step decode wr l s of
        (Inl e, s1) \<Rightarrow> (Inl e, s1)
      | (Inr _, s1) \<Rightarrow> journal_loop decode wr ls s1)"

text \<open>The lines reported, the error, and the lines of the file.\<close>

definition writeJournal ::
  "bool \<Rightarrow> (string \<Rightarrow> journal_entry option) \<Rightarrow> (nat \<Rightarrow> string option) \<Rightarrow> string
    \<Rightarrow> nat \<times> journal_error option \<times> string list" where
  "writeJournal late decode wr data =
     (case scan_lines journalLineLimit data of
        (ls, too_long) \<Rightarrow>
          (case journal_loop decode wr ls \<lparr>js_out = [], js_lines = 0, js_text = [], js_start = 0\<rparr> of
             (Inl e, s) \<Rightarrow> (js_lines s, Some e, js_out s)
           | (Inr _, s) \<Rightarrow>
               if too_long then (js_lines s, Some Token_too_long, js_out s)
               else if js_text s \<noteq> [] then
                 (case flush_line wr s of
                    (Inl e, s1) \<Rightarrow> (js_lines s, Some e, js_out s1)
                  | (Inr _, s1) \<Rightarrow> (js_lines (if late then s1 else s), None, js_out s1))
               else (js_lines s, None, js_out s)))"

section \<open>A dump\<close>

text \<open>What the file system and the command do in one dump.\<close>

record journal_run =
  jr_create :: "string option"
  jr_pipe :: "string option"
  jr_begin :: "string option"
  jr_stdout :: string
  jr_wait :: "string option"
  jr_close :: "string option"
  jr_write :: "nat \<Rightarrow> string option"

text \<open>\<open>dumpJournal\<close>: the error, the file it leaves where its removal works, and the lines it reports.\<close>

definition dump_outcome ::
  "bool \<Rightarrow> (string \<Rightarrow> journal_entry option) \<Rightarrow> journal_run \<Rightarrow> deployed \<Rightarrow> journal_error option \<times> string list \<times> nat" where
  "dump_outcome late decode r d =
     (let reading = Reading_journal (d_name d) (hostName (d_ssh d)) in
      if jr_pipe r \<noteq> None then (Some (Journal_io (the (jr_pipe r))), [], 0)
      else if jr_begin r \<noteq> None then (Some (reading (Journal_io (the (jr_begin r)))), [], 0)
      else (case writeJournal late decode (jr_write r) (jr_stdout r) of
              (n, write_error, out) \<Rightarrow>
                if jr_wait r \<noteq> None then (Some (reading (Journal_io (the (jr_wait r)))), out, n)
                else (case write_error of
                        Some e \<Rightarrow> (Some (Writing_journal (d_label d @ ''.log'') e), out, n)
                      | None \<Rightarrow> (None, out, n))))"

definition dumpJournal ::
  "bool \<Rightarrow> (string \<Rightarrow> journal_entry option) \<Rightarrow> journal_run \<Rightarrow> deployed
    \<Rightarrow> journal_error option \<times> string list option \<times> string list" where
  "dumpJournal late decode r d =
     (case jr_create r of
        Some e \<Rightarrow> (Some (Journal_io e), None, [])
      | None \<Rightarrow>
          (case dump_outcome late decode r d of
             (err, out, n) \<Rightarrow>
               (let err1 = (if err = None then map_option Journal_io (jr_close r) else err);
                    report = (if err = None then
                      [''['' @ d_label d @ ''] '' @ d_label d @ ''.log, '' @ itoa (int n) @ '' lines''] else [])
                in (err1, if err1 \<noteq> None then None else Some out, report))))"

text \<open>\<open>DumpJournals\<close>: the errors and the files, one per container that is no sidecar. The containers
  are read in parallel, each into its own file.\<close>

definition dumpJournals ::
  "bool \<Rightarrow> (string \<Rightarrow> journal_entry option) \<Rightarrow> (deployed \<Rightarrow> journal_run) \<Rightarrow> deployed list
    \<Rightarrow> journal_error list \<times> (string \<times> string list option) list" where
  "dumpJournals late decode runs selection =
     (let dumped = map (\<lambda>d. (d, dumpJournal late decode (runs d) d)) (filter (\<lambda>d. \<not> d_sidecar d) selection)
      in (concat (map (\<lambda>(d, err, _). case err of Some e \<Rightarrow> [e] | None \<Rightarrow> []) dumped),
          map (\<lambda>(d, _, content, _). (d_label d @ ''.log'', content)) dumped))"

section \<open>What a journal says\<close>

text \<open>The parts of each message, whole messages apart from a last one that was cut off.\<close>

fun split_parts :: "journal_entry list \<Rightarrow> journal_entry list list" where
  "split_parts [] = []"
| "split_parts (e # es) =
     (if je_partial e \<noteq> ''true'' then [e] # split_parts es
      else (case split_parts es of [] \<Rightarrow> [[e]] | g # gs \<Rightarrow> (e # g) # gs))"

definition entry_text :: "journal_entry \<Rightarrow> string" where
  "entry_text e = (case journalMessage (je_message e) of Inr t \<Rightarrow> t | Inl _ \<Rightarrow> [])"

definition entry_time :: "journal_entry \<Rightarrow> int" where
  "entry_time e = (case journalTime (je_realtime e) of Inr t \<Rightarrow> t | Inl _ \<Rightarrow> 0)"

text \<open>The time of the first part that holds any text, the last part otherwise.\<close>

fun parts_time :: "journal_entry list \<Rightarrow> int" where
  "parts_time [] = 0"
| "parts_time (e # es) = (if entry_text e \<noteq> [] \<or> es = [] then entry_time e else parts_time es)"

definition parts_text :: "journal_entry list \<Rightarrow> string" where
  "parts_text g = concat (map entry_text g)"

definition parts_whole :: "journal_entry list \<Rightarrow> bool" where
  "parts_whole g \<longleftrightarrow> je_partial (last g) \<noteq> ''true''"

definition journal_line :: "int \<Rightarrow> string \<Rightarrow> string" where
  "journal_line t txt = stamp t @ '' '' @ txt"

definition journal_text :: "journal_entry list \<Rightarrow> string list" where
  "journal_text es = map (\<lambda>g. journal_line (parts_time g) (parts_text g))
     (filter (\<lambda>g. parts_whole g \<or> parts_text g \<noteq> []) (split_parts es))"

text \<open>The same from the middle of a message whose parts so far are \<open>p\<close>, begun at \<open>t\<close>.\<close>

definition resume_text :: "string \<Rightarrow> int \<Rightarrow> journal_entry list \<Rightarrow> string list" where
  "resume_text p t es =
     (case split_parts es of
        [] \<Rightarrow> (if p = [] then [] else [journal_line t p])
      | g # gs \<Rightarrow>
          (if parts_whole g \<or> p @ parts_text g \<noteq> []
           then [journal_line (if p = [] then parts_time g else t) (p @ parts_text g)] else [])
          @ map (\<lambda>g. journal_line (parts_time g) (parts_text g))
              (filter (\<lambda>g. parts_whole g \<or> parts_text g \<noteq> []) gs))"

lemma resume_text_Nil [simp]: "resume_text [] t es = journal_text es"
  by (simp add: resume_text_def journal_text_def split: list.split)

lemma split_parts_eq_Nil [simp]: "split_parts es = [] \<longleftrightarrow> es = []"
  by (cases es) (auto split: list.split)

lemma split_parts_nonempty: "[] \<notin> set (split_parts es)"
  by (induction es) (auto split: list.split)

lemma resume_text_whole:
  "je_partial e \<noteq> ''true'' \<Longrightarrow> resume_text p t (e # es)
    = journal_line (if p = [] then entry_time e else t) (p @ entry_text e) # journal_text es"
  by (simp add: resume_text_def journal_text_def parts_whole_def parts_text_def)

lemma resume_text_part:
  assumes "je_partial e = ''true''"
  shows "resume_text p t (e # es) = resume_text (p @ entry_text e) (if p = [] then entry_time e else t) es"
proof (cases "split_parts es")
  case Nil
  then show ?thesis using assms by (simp add: resume_text_def parts_whole_def parts_text_def)
next
  case (Cons g gs)
  then have "g \<noteq> []" using split_parts_nonempty [of es] by auto
  then show ?thesis using assms Cons by (auto simp: resume_text_def parts_whole_def parts_text_def)
qed

definition written :: "journal_state \<Rightarrow> string list" where
  "written s = js_out s @ (if js_text s = [] then [] else [journal_line (js_start s) (js_text s)])"

lemma journal_step_ok:
  assumes "journal_step decode wr l s = (Inr (), s1)"
  obtains e where "decode l = Some e"
    "js_text s1 = (if je_partial e = ''true'' then js_text s @ entry_text e else [])"
    "js_out s1 @ resume_text (js_text s1) (js_start s1) es = js_out s @ resume_text (js_text s) (js_start s) (e # es)"
    "js_lines s1 + length (js_out s) = js_lines s + length (js_out s1)"
proof -
  from assms obtain e message where e: "decode l = Some e" "journalMessage (je_message e) = Inr message"
    by (auto simp: journal_step_def split: option.splits sum.splits)
  define start where "start = (if js_text s = [] then entry_time e else js_start s)"
  have t: "(if js_text s = [] then journalTime (je_realtime e) else Inr (js_start s)) = Inr start"
    using assms e by (auto simp: journal_step_def start_def entry_time_def split: sum.splits)
  have m: "message = entry_text e" using e(2) by (simp add: entry_text_def)
  define s0 where "s0 = s\<lparr>js_start := start, js_text := js_text s @ message\<rparr>"
  have s1: "(if je_partial e = ''true'' then (Inr (), s0) else flush_line wr s0) = (Inr (), s1)"
    using assms unfolding journal_step_def e option.case sum.case t by (simp add: s0_def Let_def split: if_splits)
  show thesis
  proof (cases "je_partial e = ''true''")
    case True
    with s1 have "s1 = s0" by simp
    then show thesis using that [OF e(1)] True
      by (simp add: s0_def m start_def resume_text_part)
  next
    case False
    with s1 have "s1 = s0\<lparr>js_out := js_out s0 @ [stamp (js_start s0) @ '' '' @ js_text s0], js_text := [],
        js_lines := Suc (js_lines s0)\<rparr>"
      by (auto simp: flush_line_def split: option.splits)
    then show thesis using that [OF e(1)] False
      by (simp add: s0_def m start_def resume_text_whole journal_line_def)
  qed
qed

lemma journal_loop_ok:
  "journal_loop decode wr ls s = (Inr (), s1) \<Longrightarrow>
    \<exists>es. map decode ls = map Some es \<and> written s1 = js_out s @ resume_text (js_text s) (js_start s) es
      \<and> js_lines s1 + length (js_out s) = js_lines s + length (js_out s1)"
proof (induction ls arbitrary: s)
  case Nil
  then show ?case by (auto simp: written_def resume_text_def)
next
  case (Cons l ls)
  then obtain s0 where s0: "journal_step decode wr l s = (Inr (), s0)" "journal_loop decode wr ls s0 = (Inr (), s1)"
    by (auto split: prod.splits sum.splits)
  from Cons.IH [OF s0(2)] obtain es where es: "map decode ls = map Some es"
    "written s1 = js_out s0 @ resume_text (js_text s0) (js_start s0) es"
    "js_lines s1 + length (js_out s0) = js_lines s0 + length (js_out s1)" by blast
  from s0(1) obtain e where e: "decode l = Some e"
    "js_out s0 @ resume_text (js_text s0) (js_start s0) es = js_out s @ resume_text (js_text s) (js_start s) (e # es)"
    "js_lines s0 + length (js_out s) = js_lines s + length (js_out s0)"
    by (rule journal_step_ok [where es = es])
  have "map decode (l # ls) = map Some (e # es)" using es(1) e(1) by simp
  then show ?case using es(2,3) e(2,3) by (intro exI [of _ "e # es"]) auto
qed

lemma writeJournal_ok:
  assumes "writeJournal late decode wr data = (n, None, out)"
  shows "\<exists>es. map decode (fst (scan_lines journalLineLimit data)) = map Some es \<and> out = journal_text es
    \<and> (late \<longrightarrow> n = length out)"
proof -
  let ?s0 = "\<lparr>js_out = [], js_lines = 0, js_text = [], js_start = 0\<rparr>"
  obtain s where s: "journal_loop decode wr (fst (scan_lines journalLineLimit data)) ?s0 = (Inr (), s)"
    using assms by (auto simp: writeJournal_def split: prod.splits sum.splits)
  from journal_loop_ok [OF s] obtain es where es: "map decode (fst (scan_lines journalLineLimit data)) = map Some es"
    "written s = journal_text es" "js_lines s = length (js_out s)" by auto
  have "out = written s \<and> (late \<longrightarrow> n = length out)"
    using assms s es(3)
    by (auto simp: writeJournal_def written_def flush_line_def journal_line_def split: prod.splits sum.splits option.splits if_splits)
  with es show ?thesis by auto
qed

definition readable :: "journal_entry \<Rightarrow> bool" where
  "readable e \<longleftrightarrow> (\<exists>t us. journalMessage (je_message e) = Inr t \<and> journalTime (je_realtime e) = Inr us)"

lemma journal_step_reads:
  assumes "decode l = Some e" "readable e" "\<forall>n. wr n = None"
  shows "\<exists>s1. journal_step decode wr l s = (Inr (), s1)"
  using assms by (auto simp: journal_step_def readable_def flush_line_def Let_def)

lemma journal_loop_reads:
  "map decode ls = map Some es \<Longrightarrow> \<forall>e \<in> set es. readable e \<Longrightarrow> \<forall>n. wr n = None \<Longrightarrow>
    \<exists>s1. journal_loop decode wr ls s = (Inr (), s1)"
proof (induction ls arbitrary: es s)
  case (Cons l ls)
  then obtain e es' where es: "es = e # es'" "decode l = Some e" "map decode ls = map Some es'" by auto
  with Cons.prems obtain s1 where "journal_step decode wr l s = (Inr (), s1)"
    using journal_step_reads [of decode l e wr s] by auto
  moreover have "\<exists>s2. journal_loop decode wr ls s1 = (Inr (), s2)"
    by (rule Cons.IH [OF es(3)]) (use Cons.prems(2,3) es(1) in auto)
  ultimately show ?case by (simp del: split_paired_Ex)
qed simp

lemma writeJournal_reads:
  assumes "map decode (fst (scan_lines journalLineLimit data)) = map Some es" "\<forall>e \<in> set es. readable e"
    "\<forall>n. wr n = None" "\<not> snd (scan_lines journalLineLimit data)"
  shows "\<exists>n out. writeJournal late decode wr data = (n, None, out)"
proof -
  obtain s where "journal_loop decode wr (fst (scan_lines journalLineLimit data))
      \<lparr>js_out = [], js_lines = 0, js_text = [], js_start = 0\<rparr> = (Inr (), s)"
    using journal_loop_reads [OF assms(1-3)] by blast
  moreover obtain ls where "scan_lines journalLineLimit data = (ls, False)"
    using assms(4) by (cases "scan_lines journalLineLimit data") auto
  ultimately show ?thesis using assms(3) by (auto simp: writeJournal_def flush_line_def)
qed


text \<open>A message split in two, whose first part is empty: the line carries the time of the second.\<close>

definition split_sample :: "string \<Rightarrow> journal_entry option" where
  "split_sample l =
     (if l = ''a'' then Some \<lparr>je_realtime = ''1'', je_message = None, je_partial = ''true''\<rparr>
      else if l = ''b'' then Some \<lparr>je_realtime = ''2'', je_message = Some (Raw_text ''x''), je_partial = ''true''\<rparr>
      else if l = ''c'' then Some \<lparr>je_realtime = ''3'', je_message = Some (Raw_values [121]), je_partial = []\<rparr>
      else None)"

definition split_run :: journal_run where
  "split_run = \<lparr>jr_create = None, jr_pipe = None, jr_begin = None, jr_stdout = send_lines [''a'', ''b'', ''c''],
     jr_wait = None, jr_close = None, jr_write = (\<lambda>_. None)\<rparr>"

definition split_container :: deployed where
  "split_container = \<lparr>d_ssh = [], d_name = ''n'', d_label = ''l'', d_sidecar = False\<rparr>"

lemma split_entries: "map split_sample [''a'', ''b'', ''c''] = map Some
    [the (split_sample ''a''), the (split_sample ''b''), the (split_sample ''c'')]"
  by (simp add: split_sample_def)

lemma char_y: "(char_of (121 :: nat) :: char) = CHR ''y''"
  by code_simp

lemma parse_digits: "parse_int64 ''1'' = Some 1" "parse_int64 ''2'' = Some 2" "parse_int64 ''3'' = Some 3"
  by (simp_all add: parse_int64_def is_digit_def digits_val_def digit_val_def in_i64_def)

lemma split_readable: "\<forall>e \<in> {the (split_sample ''a''), the (split_sample ''b''), the (split_sample ''c'')}. readable e"
  by (simp add: split_sample_def readable_def journalMessage_def journalTime_def parse_digits)

lemma split_text: "journal_text [the (split_sample ''a''), the (split_sample ''b''), the (split_sample ''c'')]
    = [stamp 2 @ '' xy'']"
  by (simp add: journal_text_def split_sample_def parts_whole_def parts_text_def journal_line_def entry_text_def
      entry_time_def journalMessage_def journalTime_def parse_digits char_y)


end
