(* ===== verification/Io.thy ===== *)
theory Io
  imports Runtime
begin

text \<open>
  Programs over the machine of \<open>Runtime\<close> that stop at their first error: what the deployment
  code is written in. \<open>None\<close> is a loop that ran out of fuel. \<open>saw srv evs m m'\<close> says that
  between two states the requests of \<open>evs\<close> were made in their order and answered as given, other
  requests apart, so a property can name what a program did and what it was told.
\<close>

type_synonym ('s, 'e, 'a) prog = "'s \<Rightarrow> (('e + 'a) \<times> 's) option"

type_synonym ('q, 'w, 'e, 'a) io = "(('q, 'w) machine, 'e, 'a) prog"

named_theorems io_grows

section \<open>Programs\<close>

definition io_return :: "'a \<Rightarrow> ('s, 'e, 'a) prog" where
  "io_return v m = Some (Inr v, m)"

definition io_fail :: "'e \<Rightarrow> ('s, 'e, 'a) prog" where
  "io_fail e m = Some (Inl e, m)"

definition io_bind :: "('s, 'e, 'a) prog \<Rightarrow> ('a \<Rightarrow> ('s, 'e, 'b) prog) \<Rightarrow> ('s, 'e, 'b) prog" where
  "io_bind f g m =
     (case f m of
        None \<Rightarrow> None
      | Some (Inl e, m1) \<Rightarrow> Some (Inl e, m1)
      | Some (Inr v, m1) \<Rightarrow> g v m1)"

text \<open>An error wrapped, an error as a value, and a program that another one always follows.\<close>

definition io_wrap :: "('e \<Rightarrow> 'e) \<Rightarrow> ('s, 'e, 'a) prog \<Rightarrow> ('s, 'e, 'a) prog" where
  "io_wrap w f m = map_option (\<lambda>(r, m1). (rmap_err w r, m1)) (f m)"

definition io_try :: "('s, 'e, 'a) prog \<Rightarrow> ('s, 'e, 'e + 'a) prog" where
  "io_try f m = map_option (\<lambda>(r, m1). (Inr r, m1)) (f m)"

definition io_finally :: "('s, 'e, 'a) prog \<Rightarrow> ('s, 'e, 'b) prog \<Rightarrow> ('s, 'e, 'a) prog" where
  "io_finally f g m =
     (case f m of
        None \<Rightarrow> None
      | Some (r, m1) \<Rightarrow> (case g m1 of None \<Rightarrow> None | Some (_, m2) \<Rightarrow> Some (r, m2)))"

fun io_each :: "('x \<Rightarrow> ('s, 'e, unit) prog) \<Rightarrow> 'x list \<Rightarrow> ('s, 'e, unit) prog" where
  "io_each f [] = io_return ()"
| "io_each f (x # xs) = io_bind (f x) (\<lambda>_. io_each f xs)"

definition io_ask :: "('q, 'r, 'w) service \<Rightarrow> ctx \<Rightarrow> 'q \<Rightarrow> ('q, 'w, 'e, 'r) io" where
  "io_ask srv c q m = (case call srv c q m of (r, m1) \<Rightarrow> Some (Inr r, m1))"

definition io_sleep :: "'e \<Rightarrow> ctx \<Rightarrow> int \<Rightarrow> ('q, 'w, 'e, unit) io" where
  "io_sleep e c d m = (case sleep c d m of (True, m1) \<Rightarrow> Some (Inr (), m1) | (False, m1) \<Rightarrow> Some (Inl e, m1))"

definition io_now :: "('q, 'w, 'e, int) io" where
  "io_now m = Some (Inr (clock m), m)"

section \<open>Results\<close>

lemma io_return_iff [simp]: "io_return v m = Some (r, m') \<longleftrightarrow> r = Inr v \<and> m' = m"
  by (auto simp: io_return_def)

lemma io_fail_iff [simp]: "io_fail e m = Some (r, m') \<longleftrightarrow> r = Inl e \<and> m' = m"
  by (auto simp: io_fail_def)

lemma io_now_iff [simp]: "io_now m = Some (r, m') \<longleftrightarrow> r = Inr (clock m) \<and> m' = m"
  by (auto simp: io_now_def)

lemma io_bind_Inr:
  "io_bind f g m = Some (Inr b, m') \<longleftrightarrow> (\<exists>v m1. f m = Some (Inr v, m1) \<and> g v m1 = Some (Inr b, m'))"
  by (auto simp: io_bind_def split: option.splits sum.splits)

lemma io_bind_Inl:
  "io_bind f g m = Some (Inl e, m') \<longleftrightarrow>
    f m = Some (Inl e, m') \<or> (\<exists>v m1. f m = Some (Inr v, m1) \<and> g v m1 = Some (Inl e, m'))"
  by (auto simp: io_bind_def split: option.splits sum.splits)

lemma io_bind_Some:
  "io_bind f g m = Some (r, m') \<Longrightarrow>
    (\<exists>e. r = Inl e \<and> f m = Some (Inl e, m')) \<or> (\<exists>v m1. f m = Some (Inr v, m1) \<and> g v m1 = Some (r, m'))"
  by (auto simp: io_bind_def split: option.splits sum.splits)

lemma ex_unit: "(\<exists>u :: unit. P u) \<longleftrightarrow> P ()"
  by (metis (full_types) old.unit.exhaust)

lemma io_bind_returns:
  "f m \<noteq> None \<Longrightarrow> (\<And>v m1. f m = Some (Inr v, m1) \<Longrightarrow> g v m1 \<noteq> None) \<Longrightarrow> io_bind f g m \<noteq> None"
  by (auto simp: io_bind_def split: option.splits sum.splits)

lemma io_leaf_returns [simp]:
  "io_return v m \<noteq> None" "io_fail e m \<noteq> None" "io_ask srv c q m' \<noteq> None" "io_sleep e c d m' \<noteq> None"
  "io_try f m \<noteq> None \<longleftrightarrow> f m \<noteq> None" "io_wrap w f m \<noteq> None \<longleftrightarrow> f m \<noteq> None"
  by (auto simp: io_return_def io_fail_def io_ask_def io_sleep_def io_try_def io_wrap_def split: prod.splits bool.splits)

lemma io_sleep_Inr:
  "io_sleep er (Some e) d m = Some (Inr (), m') \<Longrightarrow> clock m' = clock m + max d 0 \<and> clock m' < e"
  by (auto simp: io_sleep_def sleep_def split: prod.splits bool.splits if_splits)

lemma io_wrap_Inr [simp]: "io_wrap w f m = Some (Inr v, m') \<longleftrightarrow> f m = Some (Inr v, m')"
  by (auto simp: io_wrap_def) (metis rmap_err.elims sum.simps(4))

lemma io_wrap_Inl: "io_wrap w f m = Some (Inl e, m') \<longleftrightarrow> (\<exists>e0. f m = Some (Inl e0, m') \<and> e = w e0)"
  by (auto simp: io_wrap_def rmap_err_Inl_iff)

lemma io_try_iff: "io_try f m = Some (r, m') \<longleftrightarrow> (\<exists>x. f m = Some (x, m') \<and> r = Inr x)"
  by (auto simp: io_try_def)

lemma io_finally_iff:
  "io_finally f g m = Some (r, m') \<longleftrightarrow> (\<exists>m1 x. f m = Some (r, m1) \<and> g m1 = Some (x, m'))"
  by (auto simp: io_finally_def split: option.splits)

lemma io_ask_iff: "io_ask srv c q m = Some (r, m') \<longleftrightarrow> (\<exists>v. call srv c q m = (v, m') \<and> r = Inr v)"
  by (auto simp: io_ask_def split: prod.splits)

lemma io_ask_Inr [simp]: "io_ask srv c q m = Some (Inr v, m') \<longleftrightarrow> call srv c q m = (v, m')"
  by (auto simp: io_ask_def split: prod.splits)

lemma io_ask_Inl [simp]: "io_ask srv c q m \<noteq> Some (Inl e, m')"
  by (auto simp: io_ask_def split: prod.splits)

lemma io_ask_bind: "call srv c q m = (r, m1) \<Longrightarrow> io_bind (io_ask srv c q) g m = g r m1"
  by (simp add: io_bind_def io_ask_def)

lemma io_bind_InlE:
  assumes "io_bind f g m = Some (Inl e, m')"
  obtains "f m = Some (Inl e, m')"
  | v m1 where "f m = Some (Inr v, m1)" "g v m1 = Some (Inl e, m')"
  using assms unfolding io_bind_Inl by blast

lemma io_bind_assoc: "io_bind (io_bind f g) h = io_bind f (\<lambda>v. io_bind (g v) h)"
  by (rule ext) (simp add: io_bind_def split: option.split sum.split)

lemmas io_results = io_bind_Inr io_bind_Inl io_wrap_Inl io_try_iff io_finally_iff

section \<open>Programs that succeed\<close>

text \<open>From every state the program ends with this value.\<close>

definition gives :: "('s, 'e, 'a) prog \<Rightarrow> 'a \<Rightarrow> bool" where
  "gives f v \<longleftrightarrow> (\<forall>s. \<exists>s'. f s = Some (Inr v, s'))"

lemma gives_return: "gives (io_return v) v"
  by (simp add: gives_def)

lemma gives_bind: "gives f v \<Longrightarrow> gives (g v) w \<Longrightarrow> gives (io_bind f g) w"
  unfolding gives_def
proof
  fix s
  assume f: "\<forall>s. \<exists>s'. f s = Some (Inr v, s')" and g: "\<forall>s. \<exists>s'. g v s = Some (Inr w, s')"
  from f obtain s1 where "f s = Some (Inr v, s1)" by blast
  moreover from g obtain s2 where "g v s1 = Some (Inr w, s2)" by blast
  ultimately show "\<exists>s'. io_bind f g s = Some (Inr w, s')" by (simp add: io_bind_def)
qed

lemma gives_seq: "gives f v \<Longrightarrow> gives g w \<Longrightarrow> gives (io_bind f (\<lambda>_. g)) w"
  by (rule gives_bind)

lemma gives_wrap: "gives f v \<Longrightarrow> gives (io_wrap w f) v"
  by (simp add: gives_def)

lemma gives_try: "gives f v \<Longrightarrow> gives (io_try f) (Inr v)"
  by (simp add: gives_def io_try_iff)

lemma gives_tried: "(\<And>s. f s \<noteq> None) \<Longrightarrow> gives (io_bind (io_try f) (\<lambda>_. io_return ())) ()"
  unfolding gives_def io_bind_Inr ex_unit io_try_iff by (metis not_None_eq surj_pair io_return_def)

lemma gives_finally: "gives f v \<Longrightarrow> gives g w \<Longrightarrow> gives (io_finally f g) v"
  unfolding gives_def io_finally_iff by blast

lemma gives_each: "(\<And>x. x \<in> set xs \<Longrightarrow> gives (f x) ()) \<Longrightarrow> gives (io_each f xs) ()"
  by (induction xs) (auto intro!: gives_return gives_bind)

section \<open>Growth\<close>

definition io_mono :: "('q, 'w, 'e, 'a) io \<Rightarrow> bool" where
  "io_mono f \<longleftrightarrow> (\<forall>m r m'. f m = Some (r, m') \<longrightarrow> grows (\<lambda>_. True) m m')"

lemma io_monoD: "io_mono f \<Longrightarrow> f m = Some (r, m') \<Longrightarrow> grows (\<lambda>_. True) m m'"
  by (simp add: io_mono_def)

lemma io_mono_return [io_grows]: "io_mono (io_return v)"
  by (simp add: io_mono_def)

lemma io_mono_fail [io_grows]: "io_mono (io_fail e)"
  by (simp add: io_mono_def)

lemma io_mono_now [io_grows]: "io_mono io_now"
  by (simp add: io_mono_def)

lemma io_mono_none [io_grows]: "io_mono (\<lambda>m. None)"
  by (simp add: io_mono_def)

lemma io_mono_bind [io_grows]:
  assumes "io_mono f" "\<And>v. io_mono (g v)"
  shows "io_mono (io_bind f g)"
  unfolding io_mono_def
proof (intro allI impI)
  fix m r m'
  assume "io_bind f g m = Some (r, m')"
  from io_bind_Some [OF this] show "grows (\<lambda>_. True) m m'"
  proof (elim disjE exE conjE)
    fix e assume "f m = Some (Inl e, m')"
    then show ?thesis by (rule io_monoD [OF assms(1)])
  next
    fix v m1 assume f: "f m = Some (Inr v, m1)" and g: "g v m1 = Some (r, m')"
    show ?thesis by (rule grows_trans [OF io_monoD [OF assms(1) f] io_monoD [OF assms(2) g]])
  qed
qed

lemma io_mono_wrap [io_grows]: "io_mono f \<Longrightarrow> io_mono (io_wrap w f)"
  by (auto simp: io_mono_def io_wrap_def)

lemma io_mono_try [io_grows]: "io_mono f \<Longrightarrow> io_mono (io_try f)"
  by (auto simp: io_mono_def io_try_iff)

lemma io_mono_finally [io_grows]: "io_mono f \<Longrightarrow> io_mono g \<Longrightarrow> io_mono (io_finally f g)"
  unfolding io_mono_def io_finally_iff by (blast intro: grows_trans)

lemma io_mono_ask [io_grows]: "io_mono (io_ask srv c q)"
  by (auto simp: io_mono_def io_ask_iff intro: grows_call_eq)

lemma io_mono_sleep [io_grows]: "io_mono (io_sleep e c d)"
  unfolding io_mono_def io_sleep_def
proof (intro allI impI)
  fix m r m'
  assume "(case sleep c d m of (True, m1) \<Rightarrow> Some (Inr (), m1) | (False, m1) \<Rightarrow> Some (Inl e, m1)) = Some (r, m')"
  then have "m' = snd (sleep c d m)" by (auto split: prod.splits bool.splits)
  then show "grows (\<lambda>_. True) m m'" by (simp add: grows_sleep)
qed

lemma io_mono_if [io_grows]: "io_mono f \<Longrightarrow> io_mono g \<Longrightarrow> io_mono (if b then f else g)"
  by simp

lemma io_mono_option [io_grows]:
  "io_mono f \<Longrightarrow> (\<And>x. io_mono (g x)) \<Longrightarrow> io_mono (case opt of None \<Rightarrow> f | Some x \<Rightarrow> g x)"
  by (simp split: option.split)

lemma io_mono_sum [io_grows]:
  "(\<And>x. io_mono (f x)) \<Longrightarrow> (\<And>x. io_mono (g x)) \<Longrightarrow> io_mono (case s of Inl x \<Rightarrow> f x | Inr x \<Rightarrow> g x)"
  by (simp split: sum.split)

lemma io_mono_pair [io_grows]: "(\<And>x y. io_mono (f x y)) \<Longrightarrow> io_mono (case p of (x, y) \<Rightarrow> f x y)"
  by (simp split: prod.split)

lemma io_mono_each [io_grows]: "(\<And>x. io_mono (f x)) \<Longrightarrow> io_mono (io_each f xs)"
  by (induction xs) (simp_all add: io_mono_return io_mono_bind)

section \<open>What was asked and answered\<close>

fun saw :: "('q, 'r, 'w) service \<Rightarrow> ('q \<times> 'r) list \<Rightarrow> ('q, 'w) machine \<Rightarrow> ('q, 'w) machine \<Rightarrow> bool" where
  "saw srv [] m m' = grows (\<lambda>_. True) m m'"
| "saw srv ((q, r) # evs) m m' =
     (\<exists>c m1 m2. grows (\<lambda>_. True) m m1 \<and> call srv c q m1 = (r, m2) \<and> saw srv evs m2 m')"

lemma saw_grows: "saw srv evs m m' \<Longrightarrow> grows (\<lambda>_. True) m m'"
proof (induction evs arbitrary: m)
  case (Cons ev evs)
  obtain q r where ev: "ev = (q, r)" by force
  with Cons.prems obtain c m1 m2 where s: "grows (\<lambda>_. True) m m1" "call srv c q m1 = (r, m2)" "saw srv evs m2 m'" by auto
  from grows_call_eq [OF s(2)] have "grows (\<lambda>_. True) m1 m2" by simp
  with s(1) Cons.IH [OF s(3)] show ?case by (blast intro: grows_trans)
qed simp

lemma saw_before: "grows (\<lambda>_. True) m m1 \<Longrightarrow> saw srv evs m1 m' \<Longrightarrow> saw srv evs m m'"
proof (cases evs)
  case (Cons ev list)
  obtain q r where ev: "ev = (q, r)" by force
  assume g: "grows (\<lambda>_. True) m m1" and "saw srv evs m1 m'"
  with Cons ev obtain c m2 m3 where "grows (\<lambda>_. True) m1 m2" "call srv c q m2 = (r, m3)" "saw srv list m3 m'" by auto
  with grows_trans [OF g] Cons ev show ?thesis unfolding Cons ev saw.simps by blast
qed (auto intro: grows_trans)

lemma saw_append: "saw srv evs m m1 \<Longrightarrow> saw srv evs' m1 m' \<Longrightarrow> saw srv (evs @ evs') m m'"
proof (induction evs arbitrary: m)
  case Nil
  then show ?case by (auto intro: saw_before)
next
  case (Cons ev evs)
  obtain q r where ev: "ev = (q, r)" by force
  with Cons.prems(1) obtain c m2 m3 where s: "grows (\<lambda>_. True) m m2" "call srv c q m2 = (r, m3)" "saw srv evs m3 m1" by auto
  from Cons.IH [OF s(3) Cons.prems(2)] have "saw srv (evs @ evs') m3 m'" .
  with s(1,2) ev show ?case by auto
qed

lemma saw_after: "saw srv evs m m1 \<Longrightarrow> grows (\<lambda>_. True) m1 m' \<Longrightarrow> saw srv evs m m'"
  using saw_append [of srv evs m m1 "[]" m'] by simp

lemma saw_call: "call srv c q m = (r, m') \<Longrightarrow> saw srv [(q, r)] m m'"
  unfolding saw.simps by (intro exI [of _ c] exI [of _ m] exI [of _ m'] conjI grows_refl)

lemma saw_skip: "saw srv (ev # evs) m m' \<Longrightarrow> saw srv evs m m'"
proof -
  assume a: "saw srv (ev # evs) m m'"
  obtain q r where ev: "ev = (q, r)" by force
  with a obtain c m1 m2 where s: "grows (\<lambda>_. True) m m1" "call srv c q m1 = (r, m2)" "saw srv evs m2 m'" by auto
  from grows_call_eq [OF s(2)] have "grows (\<lambda>_. True) m1 m2" by simp
  with s(1,3) show ?thesis by (blast intro: grows_trans saw_before)
qed

text \<open>A loop over a list made every request of its rounds, in order.\<close>

lemma io_each_Cons_Inr:
  "io_each f (x # xs) m = Some (Inr (), m') \<longleftrightarrow>
    (\<exists>m1. f x m = Some (Inr (), m1) \<and> io_each f xs m1 = Some (Inr (), m'))"
  by (auto simp: io_bind_Inr)

lemma io_each_all:
  assumes "io_each f xs m = Some (Inr (), m')" "\<And>x. io_mono (f x)" "x \<in> set xs"
  shows "\<exists>m1 m2. grows (\<lambda>_. True) m m1 \<and> f x m1 = Some (Inr (), m2) \<and> grows (\<lambda>_. True) m2 m'"
  using assms(1,3)
proof (induction xs arbitrary: m)
  case (Cons y ys)
  from Cons.prems(1) obtain m1 where s: "f y m = Some (Inr (), m1)" "io_each f ys m1 = Some (Inr (), m')"
    by (auto simp: io_bind_Inr)
  show ?case
  proof (cases "x = y")
    case True
    then show ?thesis using s(1) io_monoD [OF io_mono_each [OF assms(2)] s(2)] grows_refl by blast
  next
    case False
    with Cons.prems(2) Cons.IH [OF s(2)] obtain m2 m3 where
      "grows (\<lambda>_. True) m1 m2" "f x m2 = Some (Inr (), m3)" "grows (\<lambda>_. True) m3 m'" by auto
    with grows_trans [OF io_monoD [OF assms(2) s(1)]] show ?thesis by blast
  qed
qed simp

end
