(* ===== verification/Container.thy ===== *)
theory Container
  imports Cluster_Config Bytes "HOL-Library.AList"
begin

text \<open>
  What a deployment creates: the container specifications of \<open>internal/cluster/docker.go\<close>, with
  the fields of Docker's configuration the code sets, and the telemetry sidecars of
  \<open>internal/cluster/sidecar.go\<close>. Durations are nanoseconds; a field the code leaves out has its
  zero value in \<open>plain_container\<close>. The field list \<open>dcgm-fields.csv\<close> is embedded, and a
  parameter here.
\<close>

record mount =
  mt_volume :: bool
  mt_source :: string
  mt_target :: string
  mt_readonly :: bool
  mt_create :: bool

record device_request =
  dr_count :: int
  dr_device_ids :: "string list"
  dr_capabilities :: "string list list"

record health_check =
  hc_test :: "string list"
  hc_interval :: int
  hc_timeout :: int
  hc_start_period :: int
  hc_retries :: int

datatype restart_policy = Restart_no | Restart_on_failure | Restart_unless_stopped

record container =
  cn_name :: string
  cn_image :: string
  cn_user :: string
  cn_entrypoint :: "string list"
  cn_env :: "string list"
  cn_cmd :: "string list"
  cn_labels :: "(string \<times> string) list"
  cn_health :: "health_check option"
  cn_host_network :: bool
  cn_restart :: restart_policy
  cn_shm_size :: int
  cn_cap_add :: "string list"
  cn_cap_drop :: "string list"
  cn_security :: "string list"
  cn_readonly :: bool
  cn_journald :: "string option"
  cn_mounts :: "mount list"
  cn_ports :: "(string \<times> string) list"
  cn_cpuset :: string
  cn_memlock :: bool
  cn_devices :: "device_request list"
  cn_files :: "(string \<times> bytes) list"

definition plain_container :: container where
  "plain_container = \<lparr>cn_name = [], cn_image = [], cn_user = [], cn_entrypoint = [], cn_env = [], cn_cmd = [],
     cn_labels = [], cn_health = None, cn_host_network = False, cn_restart = Restart_no, cn_shm_size = 0,
     cn_cap_add = [], cn_cap_drop = [], cn_security = [], cn_readonly = False, cn_journald = None, cn_mounts = [],
     cn_ports = [], cn_cpuset = [], cn_memlock = False, cn_devices = [], cn_files = []\<rparr>"

text \<open>\<open>Label\<close> of \<open>inspect.go\<close>, and \<open>marked\<close>, which adds it to a copy of the labels.\<close>

definition provoor_label :: string where "provoor_label = ''provoor''"

definition marked :: "container \<Rightarrow> container" where
  "marked c = c\<lparr>cn_labels := AList.update provoor_label [] (cn_labels c)\<rparr>"

definition volume_mount :: "string \<Rightarrow> string \<Rightarrow> bool \<Rightarrow> mount" where
  "volume_mount source target readonly =
     \<lparr>mt_volume = True, mt_source = source, mt_target = target, mt_readonly = readonly, mt_create = False\<rparr>"

definition bind_mount :: "string \<Rightarrow> string \<Rightarrow> mount" where
  "bind_mount source target =
     \<lparr>mt_volume = False, mt_source = source, mt_target = target, mt_readonly = False, mt_create = True\<rparr>"

text \<open>\<open>DeviceRequest\<close>: the devices of a selection; and all the devices of a host.\<close>

definition deviceRequest :: "gpu \<Rightarrow> device_request" where
  "deviceRequest g = \<lparr>dr_count = 0, dr_device_ids = map itoa (device_ids g), dr_capabilities = [[''gpu'']]\<rparr>"

definition all_devices :: device_request where
  "all_devices = \<lparr>dr_count = - 1, dr_device_ids = [], dr_capabilities = [[''gpu'']]\<rparr>"

text \<open>\<open>int64(GB) << 30\<close>\<close>

definition gigabytes :: "int \<Rightarrow> int" where
  "gigabytes n = i64 (n * 2 ^ 30)"

lemma marked_keeps [simp]:
  "cn_name (marked c) = cn_name c" "cn_image (marked c) = cn_image c" "cn_cmd (marked c) = cn_cmd c"
  "cn_env (marked c) = cn_env c" "cn_files (marked c) = cn_files c"
  by (simp_all add: marked_def)

text \<open>A listing by the label finds every container the code creates.\<close>

lemma marked_listed: "map_of (cn_labels (marked c)) provoor_label = Some []"
  by (simp add: marked_def update_conv')

section \<open>Sidecars\<close>

definition dcgmImage :: string where
  "dcgmImage = ''nvcr.io/nvidia/k8s/dcgm-exporter:4.6.0-4.8.3-distroless''"
definition dcgmPort :: int where "dcgmPort = 9401"
definition dcgmFieldsPath :: string where "dcgmFieldsPath = ''/etc/dcgm-exporter/provoor.csv''"
definition nodeImage :: string where "nodeImage = ''quay.io/prometheus/node-exporter:v1.12.1''"
definition nodePort :: int where "nodePort = 9402"

definition sidecar_base :: container where
  "sidecar_base = plain_container\<lparr>cn_host_network := True, cn_restart := Restart_unless_stopped,
     cn_cap_drop := [''ALL''], cn_security := [''no-new-privileges'']\<rparr>"

text \<open>Go's \<open>/\<close> truncates.\<close>

definition go_div :: "int \<Rightarrow> int \<Rightarrow> int" where
  "go_div a b = sgn a * sgn b * (\<bar>a\<bar> div \<bar>b\<bar>)"

definition sidecarSpec :: "bytes \<Rightarrow> sidecar \<Rightarrow> int \<Rightarrow> container" where
  "sidecarSpec dcgmFields s interval =
     (if sc_kind s = sidecarNode then
        sidecar_base\<lparr>cn_readonly := True, cn_image := nodeImage,
          cn_cmd := [''--web.listen-address=:'' @ itoa nodePort, ''--collector.disable-defaults'', ''--collector.cpu'',
            ''--collector.meminfo'']\<rparr>
      else
        (let cmd = [''-f'', dcgmFieldsPath, ''-a'', '':'' @ itoa dcgmPort, ''-c'', itoa (go_div interval millisecond),
               ''--disable-startup-validate'', ''--no-hostname''];
             base = sidecar_base\<lparr>cn_image := dcgmImage, cn_files := [(dcgmFieldsPath, dcgmFields)]\<rparr>
         in if nv_hostengine s \<noteq> []
            then base\<lparr>cn_cmd := cmd @ [''-r'', nv_hostengine s], cn_user := ''65534:65534''\<rparr>
            else base\<lparr>cn_cmd := cmd, cn_cap_add := [''SYS_ADMIN''], cn_devices := [all_devices]\<rparr>))"

text \<open>The specification \<open>startSidecar\<close> creates on a node.\<close>

definition named_sidecar :: "bytes \<Rightarrow> sidecar \<Rightarrow> string \<Rightarrow> int \<Rightarrow> container" where
  "named_sidecar dcgmFields s node interval =
     (let name = sidecarName (sc_kind s) node
      in (sidecarSpec dcgmFields s interval)\<lparr>cn_name := name, cn_journald := Some name\<rparr>)"

text \<open>Only an embedded engine gets devices and a capability.\<close>

lemma sidecar_privileges:
  "cn_cap_drop (sidecarSpec f s i) = [''ALL''] \<and>
   (cn_devices (sidecarSpec f s i) \<noteq> [] \<or> cn_cap_add (sidecarSpec f s i) \<noteq> [] \<longrightarrow>
     sc_kind s \<noteq> sidecarNode \<and> nv_hostengine s = [])"
  by (simp add: sidecarSpec_def sidecar_base_def plain_container_def Let_def)

end
