(* ===== verification/Daemon.thy ===== *)
theory Daemon
  imports Io Container
begin

text \<open>
  The operations of \<open>internal/cluster/docker.go\<close> on one Docker daemon, as programs over the calls of
  the Docker client: pulling, inspecting, starting, running and removing containers, and the waits for
  a port or a log line. The daemon is the service \<open>srv\<close>. \<open>ord\<close> is the order in which Go ranges
  over the files of a container; progress lines are left out. A loop takes fuel.
\<close>

section \<open>The Docker client\<close>

datatype docker_request =
    Docker_pull string
  | Docker_inspect string
  | Docker_remove string
  | Docker_create container
  | Docker_copy string string bytes
  | Docker_begin string
  | Docker_logs string string
  | Docker_wait string
  | Exec_create string "string list"
  | Exec_begin string
  | Exec_inspect string
  | Docker_stop string
  | Docker_remove_stopped string
  | Volume_inspect string
  | Volume_create string
  | Volume_remove string
  | Docker_info
  | Docker_list string
  | Image_inspect string

datatype docker_error = Not_found | Docker_error string

record docker_reply =
  dk_error :: "docker_error option"
  dk_id :: string
  dk_running :: bool
  dk_restarting :: bool
  dk_restarts :: nat
  dk_started :: string
  dk_text :: string
  dk_code :: int
  dk_cpus :: int
  dk_names :: "string list list"

type_synonym 'w docker = "(docker_request, docker_reply, 'w) service"
type_synonym 'w host_machine = "(docker_request, 'w) machine"
type_synonym file_order = "(string \<times> bytes) list \<Rightarrow> (string \<times> bytes) list"

text \<open>An error of the daemon, one of the code, the end of the context, and a wrapped error.\<close>

datatype deploy_error =
    Raw docker_error
  | Message string
  | Context_ended
  | Wrapped string deploy_error

type_synonym ('w, 'a) docker_io = "(docker_request, 'w, deploy_error, 'a) io"

text \<open>A request whose error is returned.\<close>

definition must :: "'w docker \<Rightarrow> ctx \<Rightarrow> docker_request \<Rightarrow> ('w, docker_reply) docker_io" where
  "must srv c q = io_bind (io_ask srv c q)
     (\<lambda>r. case dk_error r of None \<Rightarrow> io_return r | Some e \<Rightarrow> io_fail (Raw e))"

section \<open>Images and containers\<close>

definition pullImage :: "'w docker \<Rightarrow> ctx \<Rightarrow> string \<Rightarrow> ('w, unit) docker_io" where
  "pullImage srv c ref =
     io_wrap (Wrapped (''pulling '' @ ref)) (io_bind (must srv c (Docker_pull ref)) (\<lambda>_. io_return ()))"

definition running :: "'w docker \<Rightarrow> ctx \<Rightarrow> string \<Rightarrow> ('w, bool) docker_io" where
  "running srv c name = io_bind (io_ask srv c (Docker_inspect name)) (\<lambda>r.
     case dk_error r of
       Some Not_found \<Rightarrow> io_return False
     | Some e \<Rightarrow> io_fail (Raw e)
     | None \<Rightarrow>
         if dk_running r \<and> \<not> dk_restarting r then io_return True
         else io_bind (must srv c (Docker_remove name)) (\<lambda>_. io_return False))"

definition copyFile :: "'w docker \<Rightarrow> ctx \<Rightarrow> string \<Rightarrow> string \<times> bytes \<Rightarrow> ('w, unit) docker_io" where
  "copyFile srv c cid f =
     io_bind (must srv c (Docker_copy cid (trim_prefix ''/'' (fst f)) (snd f))) (\<lambda>_. io_return ())"

definition container_begin :: "'w docker \<Rightarrow> ctx \<Rightarrow> file_order \<Rightarrow> container \<Rightarrow> ('w, unit) docker_io" where
  "container_begin srv c ord spec =
     io_bind (must srv c (Docker_create (marked spec))) (\<lambda>created.
     io_bind (io_each (copyFile srv c (dk_id created)) (ord (cn_files spec))) (\<lambda>_.
     io_bind (must srv c (Docker_begin (dk_id created))) (\<lambda>_. io_return ())))"

definition containerRemoveTimeout :: int where "containerRemoveTimeout = 30 * second"

definition remove_finally :: "'w docker \<Rightarrow> ctx \<Rightarrow> string \<Rightarrow> ('w, docker_reply) docker_io" where
  "remove_finally srv c name m =
     io_ask srv (with_timeout (without_cancel c) containerRemoveTimeout (clock m)) (Docker_remove name) m"

text \<open>The container of \<open>Run\<close> from its start to its exit; the result is what it wrote.\<close>

definition run_body :: "'w docker \<Rightarrow> ctx \<Rightarrow> file_order \<Rightarrow> container \<Rightarrow> ('w, string) docker_io" where
  "run_body srv c ord spec =
     io_bind (container_begin srv c ord spec) (\<lambda>_.
     io_bind (must srv c (Docker_logs (cn_name spec) [])) (\<lambda>logs.
     io_bind (must srv c (Docker_wait (cn_name spec))) (\<lambda>status.
       if dk_code status \<noteq> 0 then io_fail (Message (''exited with code '' @ itoa (dk_code status)))
       else io_return (dk_text logs))))"

definition container_run :: "'w docker \<Rightarrow> ctx \<Rightarrow> file_order \<Rightarrow> container \<Rightarrow> ('w, string) docker_io" where
  "container_run srv c ord spec =
     io_bind (io_ask srv c (Docker_remove (cn_name spec))) (\<lambda>_.
       io_finally (run_body srv c ord spec) (remove_finally srv c (cn_name spec)))"

definition stopAndRemove :: "'w docker \<Rightarrow> ctx \<Rightarrow> string \<Rightarrow> string \<Rightarrow> ('w, unit) docker_io" where
  "stopAndRemove srv c name node = io_bind (io_ask srv c (Docker_stop name)) (\<lambda>r.
     case dk_error r of
       Some Not_found \<Rightarrow> io_return ()
     | Some e \<Rightarrow> io_fail (Wrapped (''stopping '' @ name @ '' on '' @ node) (Raw e))
     | None \<Rightarrow> io_wrap (Wrapped (''removing '' @ name @ '' on '' @ node))
         (io_bind (must srv c (Docker_remove_stopped name)) (\<lambda>_. io_return ())))"

section \<open>Waiting\<close>

definition execPollInterval :: int where "execPollInterval = 200 * millisecond"
definition listeningPollInterval :: int where "listeningPollInterval = 3 * second"
definition logPollInterval :: int where "logPollInterval = 5 * second"
definition coordinatorReadyTimeout :: int where "coordinatorReadyTimeout = 120 * second"

fun exec_poll :: "nat \<Rightarrow> 'w docker \<Rightarrow> ctx \<Rightarrow> string \<Rightarrow> ('w, bool) docker_io" where
  "exec_poll 0 srv c eid = (\<lambda>m. None)"
| "exec_poll (Suc fuel) srv c eid =
     io_bind (must srv c (Exec_inspect eid)) (\<lambda>r.
       if \<not> dk_running r then io_return (dk_code r = 0)
       else io_bind (io_sleep Context_ended c execPollInterval) (\<lambda>_. exec_poll fuel srv c eid))"

definition execSucceeds :: "nat \<Rightarrow> 'w docker \<Rightarrow> ctx \<Rightarrow> string \<Rightarrow> string list \<Rightarrow> ('w, bool) docker_io" where
  "execSucceeds fuel srv c name cmd =
     io_bind (must srv c (Exec_create name cmd)) (\<lambda>created.
     io_bind (must srv c (Exec_begin (dk_id created))) (\<lambda>_.
     exec_poll fuel srv c (dk_id created)))"

definition listening_probe :: "int list \<Rightarrow> string list" where
  "listening_probe ports =
     [''bash'', ''-c'', join '' && '' (map (\<lambda>p. ''(echo > /dev/tcp/127.0.0.1/'' @ itoa p @ '')'') ports)]"

text \<open>An error under an ended context is the expiry. Whether a deadline or the caller ended it is not
  kept apart.\<close>

definition listening_error :: "ctx \<Rightarrow> string \<Rightarrow> deploy_error \<Rightarrow> ('w, unit) docker_io" where
  "listening_error c what e m =
     (if ctx_done c (clock m) then io_fail (Wrapped ''not ready'' Context_ended) m else io_fail (Wrapped what e) m)"

definition at_node :: "string \<Rightarrow> string \<Rightarrow> string \<Rightarrow> string" where
  "at_node what name node = what @ '' '' @ name @ '' on '' @ node"

fun listening_loop :: "nat \<Rightarrow> 'w docker \<Rightarrow> ctx \<Rightarrow> string \<Rightarrow> string \<Rightarrow> string list \<Rightarrow> ('w, unit) docker_io" where
  "listening_loop 0 srv c name node probe = (\<lambda>m. None)"
| "listening_loop (Suc fuel) srv c name node probe =
     io_bind (io_ask srv c (Docker_inspect name)) (\<lambda>r.
       case dk_error r of
         Some e \<Rightarrow> listening_error c (at_node ''inspecting'' name node) (Raw e)
       | None \<Rightarrow>
           if \<not> dk_running r then io_fail (Message (name @ '' on '' @ node @ '' exited before it was ready, journalctl CONTAINER_NAME='' @ name @ '' has the log''))
           else io_bind (io_try (execSucceeds (Suc fuel) srv c name probe)) (\<lambda>ready.
             case ready of
               Inl e \<Rightarrow> listening_error c (at_node ''probing'' name node) e
             | Inr True \<Rightarrow> io_return ()
             | Inr False \<Rightarrow>
                 io_bind (io_try (io_sleep Context_ended c listeningPollInterval)) (\<lambda>slept.
                   case slept of
                     Inl e \<Rightarrow> io_fail (Wrapped ''not ready'' e)
                   | Inr _ \<Rightarrow> listening_loop fuel srv c name node probe)))"

definition waitListening ::
  "nat \<Rightarrow> 'w docker \<Rightarrow> ctx \<Rightarrow> string \<Rightarrow> string \<Rightarrow> int list \<Rightarrow> ('w, unit) docker_io" where
  "waitListening fuel srv c name node ports m =
     listening_loop fuel srv (with_timeout c coordinatorReadyTimeout (clock m)) name node (listening_probe ports) m"

text \<open>\<open>WaitLogLine\<close>: \<open>deadline\<close> is a time, and no context.\<close>

fun log_loop :: "nat \<Rightarrow> 'w docker \<Rightarrow> ctx \<Rightarrow> string \<Rightarrow> string \<Rightarrow> string \<Rightarrow> int \<Rightarrow> ('w, unit) docker_io" where
  "log_loop 0 srv c name lbl line deadline = (\<lambda>m. None)"
| "log_loop (Suc fuel) srv c name lbl line deadline =
     io_bind (io_wrap (Wrapped (''inspecting '' @ lbl)) (must srv c (Docker_inspect name))) (\<lambda>r.
       if \<not> dk_running r then io_fail (Message (lbl @ '' exited before it was ready, journalctl CONTAINER_NAME='' @ name @ '' has the log''))
       else io_bind (io_wrap (Wrapped (''reading the log of '' @ lbl)) (must srv c (Docker_logs name (dk_started r)))) (\<lambda>logs.
         if contains_str line (dk_text logs) then io_return ()
         else io_bind io_now (\<lambda>now.
           if deadline < now then io_fail (Message (lbl @ '' not ready''))
           else io_bind (io_sleep Context_ended c logPollInterval) (\<lambda>_.
             log_loop fuel srv c name lbl line deadline))))"

definition waitLogLine ::
  "nat \<Rightarrow> 'w docker \<Rightarrow> ctx \<Rightarrow> string \<Rightarrow> string \<Rightarrow> string \<Rightarrow> int \<Rightarrow> ('w, unit) docker_io" where
  "waitLogLine fuel srv c name lbl line timeout m = log_loop fuel srv c name lbl line (clock m + timeout) m"

section \<open>The coordinator\<close>

definition startCoordinator ::
  "nat \<Rightarrow> 'w docker \<Rightarrow> ctx \<Rightarrow> file_order \<Rightarrow> string \<Rightarrow> container \<Rightarrow> int list \<Rightarrow> ('w, unit) docker_io" where
  "startCoordinator fuel srv c ord node spec listening =
     io_bind (io_wrap (Wrapped (''coordinator on '' @ node)) (running srv c (cn_name spec))) (\<lambda>up.
     io_bind (if up then io_return ()
              else io_wrap (Wrapped (''starting coordinator on '' @ node)) (container_begin srv c ord spec)) (\<lambda>_.
     waitListening fuel srv c (cn_name spec) node listening))"

section \<open>Sidecars\<close>

definition sidecarSettle :: int where "sidecarSettle = 5 * second"

fun error_text :: "deploy_error \<Rightarrow> string" where
  "error_text (Raw (Docker_error t)) = t"
| "error_text (Raw Not_found) = ''not found''"
| "error_text (Message t) = t"
| "error_text Context_ended = ''context ended''"
| "error_text (Wrapped t e) = t @ '': '' @ error_text e"

definition lastLogLine :: "'w docker \<Rightarrow> ctx \<Rightarrow> string \<Rightarrow> ('w, string) docker_io" where
  "lastLogLine srv c name = io_bind (io_try (must srv c (Docker_logs name []))) (\<lambda>r.
     case r of
       Inl e \<Rightarrow> io_return (error_text e)
     | Inr logs \<Rightarrow> io_return (last (split_on CHR 0x0A (trim_space (dk_text logs)))))"

fun sidecar_loop :: "nat \<Rightarrow> 'w docker \<Rightarrow> ctx \<Rightarrow> string \<Rightarrow> int \<Rightarrow> ('w, unit) docker_io" where
  "sidecar_loop 0 srv c name deadline = (\<lambda>m. None)"
| "sidecar_loop (Suc fuel) srv c name deadline =
     io_bind (must srv c (Docker_inspect name)) (\<lambda>r.
       if \<not> dk_running r \<or> 0 < dk_restarts r
       then io_bind (lastLogLine srv c name) (\<lambda>line. io_fail (Message (name @ '' exited at startup: '' @ line)))
       else io_bind io_now (\<lambda>now.
         if deadline < now then io_return ()
         else io_bind (io_sleep Context_ended c second) (\<lambda>_. sidecar_loop fuel srv c name deadline)))"

definition waitSidecarRunning :: "nat \<Rightarrow> 'w docker \<Rightarrow> ctx \<Rightarrow> string \<Rightarrow> ('w, unit) docker_io" where
  "waitSidecarRunning fuel srv c name m = sidecar_loop fuel srv c name (clock m + sidecarSettle) m"

definition startSidecar :: "nat \<Rightarrow> 'w docker \<Rightarrow> ctx \<Rightarrow> file_order \<Rightarrow> bytes \<Rightarrow> int \<Rightarrow> sidecar \<Rightarrow> ('w, unit) docker_io" where
  "startSidecar fuel srv c ord dcgmFields interval s =
     (let node = hostName (sc_ssh s); spec = named_sidecar dcgmFields s node interval in
      io_bind (io_try (pullImage srv c (cn_image spec))) (\<lambda>pulled.
      io_bind (case pulled of
                 Inr _ \<Rightarrow> io_return ()
               | Inl pullErr \<Rightarrow>
                   io_bind (io_ask srv c (Image_inspect (cn_image spec))) (\<lambda>r.
                     if dk_error r \<noteq> None
                     then io_fail (Wrapped (''pulling the '' @ sc_kind s @ '' image on '' @ node) pullErr)
                     else io_return ())) (\<lambda>_.
      io_bind (io_ask srv c (Docker_remove (cn_name spec))) (\<lambda>_.
      io_bind (io_wrap (Wrapped (''starting '' @ cn_name spec)) (container_begin srv c ord spec)) (\<lambda>_.
      waitSidecarRunning fuel srv c (cn_name spec))))))"

definition stopSidecar :: "'w docker \<Rightarrow> ctx \<Rightarrow> string \<Rightarrow> string \<Rightarrow> ('w, unit) docker_io" where
  "stopSidecar srv c kind node = io_bind (io_ask srv c (Docker_remove (sidecarName kind node))) (\<lambda>r.
     case dk_error r of None \<Rightarrow> io_return () | Some Not_found \<Rightarrow> io_return () | Some e \<Rightarrow> io_fail (Raw e))"

section \<open>Outcomes of the operations\<close>

lemma must_Inr [simp]: "must srv c q m = Some (Inr r, m') \<longleftrightarrow> call srv c q m = (r, m') \<and> dk_error r = None"
  by (auto simp: must_def io_bind_Inr split: option.splits)

lemma must_Inl: "must srv c q m = Some (Inl e, m') \<Longrightarrow> \<exists>r. call srv c q m = (r, m') \<and> dk_error r \<noteq> None"
  by (auto simp: must_def io_bind_Inl split: option.splits)

lemma io_mono_must [io_grows]: "io_mono (must srv c q)"
  unfolding must_def by (intro io_grows)

lemma io_mono_pullImage [io_grows]: "io_mono (pullImage srv c ref)"
  unfolding pullImage_def by (intro io_grows)

lemma io_mono_running [io_grows]: "io_mono (running srv c name)"
  unfolding running_def by (intro io_mono_bind io_grows) (auto split: option.split docker_error.split intro!: io_grows)

lemma io_mono_copyFile [io_grows]: "io_mono (copyFile srv c cid f)"
  unfolding copyFile_def by (intro io_grows)

lemma io_mono_container_begin [io_grows]: "io_mono (container_begin srv c ord spec)"
  unfolding container_begin_def by (intro io_grows)

lemma io_mono_remove_finally [io_grows]: "io_mono (remove_finally srv c name)"
  by (auto simp: io_mono_def remove_finally_def io_ask_iff intro: grows_call_eq)

lemma io_mono_run_body [io_grows]: "io_mono (run_body srv c ord spec)"
  unfolding run_body_def by (intro io_grows)

lemma io_mono_container_run [io_grows]: "io_mono (container_run srv c ord spec)"
  unfolding container_run_def by (intro io_grows)

lemma io_mono_stopAndRemove [io_grows]: "io_mono (stopAndRemove srv c name node)"
  unfolding stopAndRemove_def by (intro io_mono_bind io_grows) (auto split: option.split docker_error.split intro!: io_grows)

lemma io_mono_exec_poll [io_grows]: "io_mono (exec_poll fuel srv c eid)"
  by (induction fuel) (auto intro!: io_grows)

lemma io_mono_execSucceeds [io_grows]: "io_mono (execSucceeds fuel srv c name cmd)"
  unfolding execSucceeds_def by (intro io_grows)

lemma io_mono_listening_error [io_grows]: "io_mono (listening_error c what e)"
  by (auto simp: io_mono_def listening_error_def split: if_splits)

lemma io_mono_bool [io_grows]: "io_mono f \<Longrightarrow> io_mono g \<Longrightarrow> io_mono (case b of True \<Rightarrow> f | False \<Rightarrow> g)"
  by (simp split: bool.split)

lemma io_mono_listening_loop [io_grows]: "io_mono (listening_loop fuel srv c name node probe)"
  by (induction fuel) (simp_all del: exec_poll.simps, (intro io_grows | assumption)+)

lemma io_mono_waitListening [io_grows]: "io_mono (waitListening fuel srv c name node ports)"
  using io_mono_listening_loop by (fastforce simp: io_mono_def waitListening_def)

lemma io_mono_log_loop [io_grows]: "io_mono (log_loop fuel srv c name lbl line deadline)"
  by (induction fuel) (simp_all, (intro io_grows | assumption)+)

lemma io_mono_waitLogLine [io_grows]: "io_mono (waitLogLine fuel srv c name lbl line timeout)"
  using io_mono_log_loop by (fastforce simp: io_mono_def waitLogLine_def)

lemma io_mono_startCoordinator [io_grows]: "io_mono (startCoordinator fuel srv c ord node spec listening)"
  unfolding startCoordinator_def by (intro io_grows)

end
