(* ===== verification/Daemon_Proofs.thy ===== *)
theory Daemon_Proofs
  imports Daemon
begin

text \<open>
  What the operations of one daemon did where they end without an error, as the requests made and the
  answers given: a container was created, filled and started; a job ran to the exit code zero; a port
  answered; a log held a line. A job removes its container whatever happens.
\<close>

section \<open>Starting a container\<close>

definition copies_of :: "string \<Rightarrow> (string \<times> bytes) list \<Rightarrow> docker_request list" where
  "copies_of cid fs = map (\<lambda>f. Docker_copy cid (trim_prefix ''/'' (fst f)) (snd f)) fs"

definition all_ok :: "('q \<times> docker_reply) list \<Rightarrow> bool" where
  "all_ok evs \<longleftrightarrow> list_all (\<lambda>(q, r). dk_error r = None) evs"

lemma all_ok_simps [simp]:
  "all_ok []" "all_ok ((q, r) # evs) \<longleftrightarrow> dk_error r = None \<and> all_ok evs"
  "all_ok (evs @ evs') \<longleftrightarrow> all_ok evs \<and> all_ok evs'"
  by (simp_all add: all_ok_def)

text \<open>The container \<open>spec\<close> was created under the label, its files were copied and it was started.\<close>

definition begun ::
  "file_order \<Rightarrow> container \<Rightarrow> (docker_request \<times> docker_reply) list \<Rightarrow> bool" where
  "begun ord spec evs \<longleftrightarrow> all_ok evs \<and>
     (\<exists>created. map fst evs = Docker_create (marked spec) # copies_of (dk_id created) (ord (cn_files spec))
        @ [Docker_begin (dk_id created)] \<and> snd (hd evs) = created)"

lemma copyFile_Inr: "copyFile srv c cid f m = Some (Inr (), m') \<longleftrightarrow>
    (\<exists>r. call srv c (Docker_copy cid (trim_prefix ''/'' (fst f)) (snd f)) m = (r, m') \<and> dk_error r = None)"
  by (auto simp: copyFile_def io_bind_Inr)

lemma copies_saw:
  "io_each (copyFile srv c cid) fs m = Some (Inr (), m') \<Longrightarrow>
    \<exists>evs. saw srv evs m m' \<and> all_ok evs \<and> map fst evs = copies_of cid fs"
proof (induction fs arbitrary: m)
  case Nil
  then show ?case by (intro exI [of _ "[]"]) (simp add: copies_of_def)
next
  case (Cons f fs)
  from Cons.prems obtain r m1 where r: "call srv c (Docker_copy cid (trim_prefix ''/'' (fst f)) (snd f)) m = (r, m1)"
    "dk_error r = None" and rest: "io_each (copyFile srv c cid) fs m1 = Some (Inr (), m')"
    by (auto simp: io_bind_Inr copyFile_Inr)
  from Cons.IH [OF rest] obtain evs where "saw srv evs m1 m'" "all_ok evs" "map fst evs = copies_of cid fs" by blast
  with saw_append [OF saw_call [OF r(1)]] r(2) show ?case
    by (intro exI [of _ "(Docker_copy cid (trim_prefix ''/'' (fst f)) (snd f), r) # evs"]) (auto simp: copies_of_def)
qed

lemma container_begin_saw:
  assumes "container_begin srv c ord spec m = Some (Inr (), m')"
  shows "\<exists>evs. saw srv evs m m' \<and> begun ord spec evs"
proof -
  from assms obtain created m1 m2 r where
    1: "call srv c (Docker_create (marked spec)) m = (created, m1)" "dk_error created = None" and
    2: "io_each (copyFile srv c (dk_id created)) (ord (cn_files spec)) m1 = Some (Inr (), m2)" and
    3: "call srv c (Docker_begin (dk_id created)) m2 = (r, m')" "dk_error r = None"
    by (auto simp: container_begin_def io_bind_Inr)
  from copies_saw [OF 2] obtain evs where evs: "saw srv evs m1 m2" "all_ok evs"
    "map fst evs = copies_of (dk_id created) (ord (cn_files spec))" by blast
  have "saw srv ([(Docker_create (marked spec), created)] @ evs @ [(Docker_begin (dk_id created), r)]) m m'"
    by (intro saw_append [OF saw_call [OF 1(1)]] saw_append [OF evs(1)] saw_call [OF 3(1)])
  moreover have "begun ord spec ([(Docker_create (marked spec), created)] @ evs @ [(Docker_begin (dk_id created), r)])"
    using 1(2) 3(2) evs(2,3) by (auto simp: begun_def)
  ultimately show ?thesis by blast
qed

section \<open>Running a job\<close>

text \<open>The job \<open>spec\<close> ran to the exit code zero between two states, and wrote \<open>out\<close>.\<close>

definition job_ran :: "'w docker \<Rightarrow> file_order \<Rightarrow> container \<Rightarrow> string \<Rightarrow> 'w host_machine \<Rightarrow> 'w host_machine \<Rightarrow> bool" where
  "job_ran srv ord spec out m m' \<longleftrightarrow>
     (\<exists>evs logs status. begun ord spec evs \<and> dk_code status = 0 \<and> dk_error status = None \<and> dk_text logs = out
        \<and> saw srv (evs @ [(Docker_logs (cn_name spec) [], logs), (Docker_wait (cn_name spec), status)]) m m')"

lemma job_ran_within:
  "grows (\<lambda>_. True) m m1 \<Longrightarrow> job_ran srv ord spec out m1 m2 \<Longrightarrow> grows (\<lambda>_. True) m2 m' \<Longrightarrow> job_ran srv ord spec out m m'"
  unfolding job_ran_def by (blast intro: saw_before saw_after)

lemma run_body_ran:
  assumes "run_body srv c ord spec m = Some (Inr out, m')"
  shows "job_ran srv ord spec out m m'"
proof -
  from assms obtain m1 logs m2 status where
    1: "container_begin srv c ord spec m = Some (Inr (), m1)" and
    2: "call srv c (Docker_logs (cn_name spec) []) m1 = (logs, m2)" and
    3: "call srv c (Docker_wait (cn_name spec)) m2 = (status, m')" "dk_error status = None" "dk_code status = 0"
      "out = dk_text logs"
    by (auto simp: run_body_def io_bind_Inr split: if_splits)
  from container_begin_saw [OF 1] obtain evs where "saw srv evs m m1" "begun ord spec evs" by blast
  moreover from this(1) saw_append [OF saw_call [OF 2] saw_call [OF 3(1)]]
  have "saw srv (evs @ [(Docker_logs (cn_name spec) [], logs)] @ [(Docker_wait (cn_name spec), status)]) m m'"
    by (rule saw_append)
  ultimately show ?thesis using 3 by (auto simp: job_ran_def)
qed

lemma container_run_ends:
  assumes "container_run srv c ord spec m = Some (r, m')"
  shows "(\<exists>m1 reply. grows (\<lambda>_. True) m m1 \<and>
      call srv (Some (clock m1 + containerRemoveTimeout)) (Docker_remove (cn_name spec)) m1 = (reply, m'))
    \<and> (\<forall>out. r = Inr out \<longrightarrow> job_ran srv ord spec out m m')"
proof -
  from assms obtain r0 m0 where 0: "call srv c (Docker_remove (cn_name spec)) m = (r0, m0)" and
    fin: "io_finally (run_body srv c ord spec) (remove_finally srv c (cn_name spec)) m0 = Some (r, m')"
    by (auto simp: container_run_def io_bind_def io_ask_def split: prod.splits)
  from fin obtain m1 reply where 1: "run_body srv c ord spec m0 = Some (r, m1)" and
    2: "call srv (Some (clock m1 + containerRemoveTimeout)) (Docker_remove (cn_name spec)) m1 = (reply, m')"
    by (auto simp: io_finally_iff remove_finally_def io_ask_iff with_timeout_def without_cancel_def)
  have g0: "grows (\<lambda>_. True) m m0" using 0 by (rule grows_call_eq) simp
  have g1: "grows (\<lambda>_. True) m0 m1" by (rule io_monoD [OF io_mono_run_body 1])
  have g2: "grows (\<lambda>_. True) m1 m'" using 2 by (rule grows_call_eq) simp
  have "job_ran srv ord spec out m m'" if "r = Inr out" for out
    using job_ran_within [OF g0 run_body_ran g2] 1 that by blast
  with grows_trans [OF g0 g1] 2 show ?thesis by blast
qed

section \<open>Waiting\<close>

text \<open>Inside the running container \<open>name\<close> the probe exited with the code zero.\<close>

definition probed :: "'w docker \<Rightarrow> string \<Rightarrow> string list \<Rightarrow> 'w host_machine \<Rightarrow> 'w host_machine \<Rightarrow> bool" where
  "probed srv name probe m m' \<longleftrightarrow>
     (\<exists>r created e final. saw srv [(Docker_inspect name, r), (Exec_create name probe, created),
          (Exec_begin (dk_id created), e), (Exec_inspect (dk_id created), final)] m m'
        \<and> dk_error r = None \<and> dk_running r \<and> \<not> dk_running final \<and> dk_code final = 0)"

lemma exec_poll_True:
  "exec_poll fuel srv c eid m = Some (Inr True, m') \<Longrightarrow>
    \<exists>final. saw srv [(Exec_inspect eid, final)] m m' \<and> \<not> dk_running final \<and> dk_code final = 0"
proof (induction fuel arbitrary: m)
  case (Suc fuel)
  then obtain r m1 where r: "call srv c (Exec_inspect eid) m = (r, m1)" "dk_error r = None"
    and rest: "(if \<not> dk_running r then io_return (dk_code r = 0)
       else io_bind (io_sleep Context_ended c execPollInterval) (\<lambda>_. exec_poll fuel srv c eid)) m1 = Some (Inr True, m')"
    by (auto simp: io_bind_Inr)
  show ?case
  proof (cases "dk_running r")
    case True
    with rest obtain m2 where m2: "io_sleep Context_ended c execPollInterval m1 = Some (Inr (), m2)"
      "exec_poll fuel srv c eid m2 = Some (Inr True, m')" by (auto simp: io_bind_Inr)
    have "grows (\<lambda>_. True) m m2"
      using grows_trans [OF grows_call_eq [OF r(1)] io_monoD [OF io_mono_sleep m2(1)]] by simp
    with Suc.IH [OF m2(2)] show ?thesis by (blast intro: saw_before)
  next
    case False
    with rest r show ?thesis using saw_call [OF r(1)] by auto
  qed
qed simp

lemma execSucceeds_True:
  assumes "execSucceeds fuel srv c name probe m = Some (Inr True, m')"
  shows "\<exists>created e final. saw srv [(Exec_create name probe, created), (Exec_begin (dk_id created), e),
      (Exec_inspect (dk_id created), final)] m m' \<and> \<not> dk_running final \<and> dk_code final = 0"
proof -
  from assms obtain created m1 e m2 where 1: "call srv c (Exec_create name probe) m = (created, m1)"
    and 2: "call srv c (Exec_begin (dk_id created)) m1 = (e, m2)"
    and 3: "exec_poll fuel srv c (dk_id created) m2 = Some (Inr True, m')"
    by (auto simp: execSucceeds_def io_bind_Inr)
  from exec_poll_True [OF 3] obtain final where f: "saw srv [(Exec_inspect (dk_id created), final)] m2 m'"
    "\<not> dk_running final" "dk_code final = 0" by blast
  from saw_append [OF saw_append [OF saw_call [OF 1] saw_call [OF 2]] f(1)] f(2,3)
  show ?thesis by (intro exI [of _ created] exI [of _ e] exI [of _ final]) simp
qed

lemma listening_loop_ok:
  "listening_loop fuel srv c name node probe m = Some (Inr (), m') \<Longrightarrow> probed srv name probe m m'"
proof (induction fuel arbitrary: m)
  case (Suc fuel)
  obtain r m1 where r: "call srv c (Docker_inspect name) m = (r, m1)" by force
  have g: "grows (\<lambda>_. True) m m1" using r by (rule grows_call_eq) simp
  from Suc.prems r have ok: "dk_error r = None" "dk_running r" and
    rest: "io_bind (io_try (execSucceeds (Suc fuel) srv c name probe)) (\<lambda>ready. case ready of
        Inl e \<Rightarrow> listening_error c (at_node ''probing'' name node) e
      | Inr True \<Rightarrow> io_return ()
      | Inr False \<Rightarrow> io_bind (io_try (io_sleep Context_ended c listeningPollInterval)) (\<lambda>slept. case slept of
            Inl e \<Rightarrow> io_fail (Wrapped ''not ready'' e) | Inr _ \<Rightarrow> listening_loop fuel srv c name node probe)) m1
      = Some (Inr (), m')"
    by (auto simp: io_bind_Inr listening_error_def split: option.splits if_splits)
  from rest obtain x m2 where x: "execSucceeds (Suc fuel) srv c name probe m1 = Some (x, m2)" and
    cont: "(case x of Inl e \<Rightarrow> listening_error c (at_node ''probing'' name node) e
      | Inr True \<Rightarrow> io_return ()
      | Inr False \<Rightarrow> io_bind (io_try (io_sleep Context_ended c listeningPollInterval)) (\<lambda>slept. case slept of
            Inl e \<Rightarrow> io_fail (Wrapped ''not ready'' e) | Inr _ \<Rightarrow> listening_loop fuel srv c name node probe)) m2
      = Some (Inr (), m')"
    unfolding io_bind_Inr io_try_iff sum.inject by blast
  have g2: "grows (\<lambda>_. True) m1 m2" by (rule io_monoD [OF io_mono_execSucceeds x])
  show ?case
  proof (cases x)
    case (Inl e)
    with cont show ?thesis by (auto simp: listening_error_def split: if_splits)
  next
    case (Inr b)
    show ?thesis
    proof (cases b)
      case True
      with cont Inr x have "execSucceeds (Suc fuel) srv c name probe m1 = Some (Inr True, m')" by auto
      from execSucceeds_True [OF this] saw_append [OF saw_call [OF r]] ok show ?thesis
        unfolding probed_def by fastforce
    next
      case False
      with cont Inr obtain m3 where m3: "io_sleep Context_ended c listeningPollInterval m2 = Some (Inr (), m3)"
        "listening_loop fuel srv c name node probe m3 = Some (Inr (), m')"
        by (auto simp: io_bind_Inr io_try_iff simp del: listening_loop.simps split: sum.splits)
          (metis (full_types) old.unit.exhaust sum.exhaust)
      have "grows (\<lambda>_. True) m m3"
        using grows_trans [OF grows_trans [OF g g2] io_monoD [OF io_mono_sleep m3(1)]] .
      with Suc.IH [OF m3(2)] show ?thesis unfolding probed_def by (blast intro: saw_before)
    qed
  qed
qed simp

text \<open>The running container \<open>name\<close> had logged \<open>line\<close> since its start.\<close>

definition logged :: "'w docker \<Rightarrow> string \<Rightarrow> string \<Rightarrow> 'w host_machine \<Rightarrow> 'w host_machine \<Rightarrow> bool" where
  "logged srv name line m m' \<longleftrightarrow>
     (\<exists>r logs. saw srv [(Docker_inspect name, r), (Docker_logs name (dk_started r), logs)] m m'
        \<and> dk_error r = None \<and> dk_running r \<and> contains_str line (dk_text logs))"

lemma log_loop_ok:
  "log_loop fuel srv c name lbl line deadline m = Some (Inr (), m') \<Longrightarrow> logged srv name line m m'"
proof (induction fuel arbitrary: m)
  case (Suc fuel)
  then obtain r m1 where r: "call srv c (Docker_inspect name) m = (r, m1)" "dk_error r = None" "dk_running r" and
    rest: "io_bind (io_wrap (Wrapped (''reading the log of '' @ lbl)) (must srv c (Docker_logs name (dk_started r)))) (\<lambda>logs.
         if contains_str line (dk_text logs) then io_return ()
         else io_bind io_now (\<lambda>now.
           if deadline < now then io_fail (Message (lbl @ '' not ready''))
           else io_bind (io_sleep Context_ended c logPollInterval) (\<lambda>_.
             log_loop fuel srv c name lbl line deadline))) m1 = Some (Inr (), m')"
    by (auto simp: io_bind_Inr split: if_splits)
  from rest obtain logs m2 where l: "call srv c (Docker_logs name (dk_started r)) m1 = (logs, m2)" and
    cont: "(if contains_str line (dk_text logs) then io_return ()
         else io_bind io_now (\<lambda>now.
           if deadline < now then io_fail (Message (lbl @ '' not ready''))
           else io_bind (io_sleep Context_ended c logPollInterval) (\<lambda>_.
             log_loop fuel srv c name lbl line deadline))) m2 = Some (Inr (), m')"
    by (auto simp: io_bind_Inr)
  note both = saw_append [OF saw_call [OF r(1)] saw_call [OF l]]
  show ?case
  proof (cases "contains_str line (dk_text logs)")
    case True
    with cont have "m' = m2" by simp
    moreover have "saw srv [(Docker_inspect name, r), (Docker_logs name (dk_started r), logs)] m m2"
      using both by (simp del: saw.simps)
    ultimately show ?thesis unfolding logged_def using r(2,3) True by blast
  next
    case False
    with cont obtain m3 where m3: "io_sleep Context_ended c logPollInterval m2 = Some (Inr (), m3)"
      "log_loop fuel srv c name lbl line deadline m3 = Some (Inr (), m')"
      by (auto simp: io_bind_Inr split: if_splits)
    have "grows (\<lambda>_. True) m m3"
      using grows_trans [OF saw_grows [OF both] io_monoD [OF io_mono_sleep m3(1)]] .
    with Suc.IH [OF m3(2)] show ?thesis unfolding logged_def by (blast intro: saw_before)
  qed
qed simp

lemma waitLogLine_ok: "waitLogLine fuel srv c name lbl line timeout m = Some (Inr (), m') \<Longrightarrow> logged srv name line m m'"
  unfolding waitLogLine_def by (rule log_loop_ok)

lemma startCoordinator_ok:
  assumes "startCoordinator fuel srv c ord node spec ports m = Some (Inr (), m')"
  shows "probed srv (cn_name spec) (listening_probe ports) m m'"
proof -
  from assms obtain up m1 m2 where 1: "running srv c (cn_name spec) m = Some (Inr up, m1)" and
    2: "(if up then io_return ()
              else io_wrap (Wrapped (''starting coordinator on '' @ node)) (container_begin srv c ord spec)) m1 = Some (Inr (), m2)" and
    3: "waitListening fuel srv c (cn_name spec) node ports m2 = Some (Inr (), m')"
    by (auto simp: startCoordinator_def io_bind_Inr)
  have "grows (\<lambda>_. True) m1 m2"
    using 2 by (rule io_monoD [rotated]) (intro io_grows)
  with io_monoD [OF io_mono_running 1] have "grows (\<lambda>_. True) m m2" by (rule grows_trans)
  moreover have "probed srv (cn_name spec) (listening_probe ports) m2 m'"
    using 3 unfolding waitListening_def by (rule listening_loop_ok)
  ultimately show ?thesis unfolding probed_def by (blast intro: saw_before)
qed

lemma logged_within: "grows (\<lambda>_. True) m m1 \<Longrightarrow> logged srv name line m1 m2 \<Longrightarrow> grows (\<lambda>_. True) m2 m' \<Longrightarrow>
    logged srv name line m m'"
  unfolding logged_def by (blast intro: saw_before saw_after)

lemma probed_within: "grows (\<lambda>_. True) m m1 \<Longrightarrow> probed srv name pr m1 m2 \<Longrightarrow> grows (\<lambda>_. True) m2 m' \<Longrightarrow>
    probed srv name pr m m'"
  unfolding probed_def by (blast intro: saw_before saw_after)

section \<open>The waits end\<close>

lemma must_returns [simp]: "must srv c q m \<noteq> None"
  by (auto simp: must_def io_bind_def io_ask_def io_return_def io_fail_def split: prod.splits option.splits)

text \<open>After a poll and a pause before the end of the context, the remaining time has shrunk by a poll.\<close>

lemma poll_budget:
  assumes "e - clock m < int (Suc fuel) * execPollInterval" "clock m \<le> clock m1"
    and "io_sleep er (Some e) d m1 = Some (Inr (), m2)" "execPollInterval \<le> d"
  shows "e - clock m2 < int fuel * execPollInterval \<and> 0 < fuel"
proof -
  from io_sleep_Inr [OF assms(3)] have m2: "clock m2 = clock m1 + max d 0" "clock m2 < e" by simp_all
  with assms have gap: "e - clock m2 < int fuel * execPollInterval" by (simp add: algebra_simps)
  moreover have "0 < fuel"
  proof (rule ccontr)
    assume "\<not> 0 < fuel"
    with gap m2(2) show False by simp
  qed
  ultimately show ?thesis by blast
qed

lemma exec_poll_returns:
  "e - clock m < int fuel * execPollInterval \<Longrightarrow> 0 < fuel \<Longrightarrow> exec_poll fuel srv (Some e) eid m \<noteq> None"
proof (induction fuel arbitrary: m)
  case (Suc fuel)
  show ?case unfolding exec_poll.simps
  proof (rule io_bind_returns)
    fix r m1
    assume r: "must srv (Some e) (Exec_inspect eid) m = Some (Inr r, m1)"
    have c: "clock m \<le> clock m1" using r call_clock by fastforce
    show "(if \<not> dk_running r then io_return (dk_code r = 0)
        else io_bind (io_sleep Context_ended (Some e) execPollInterval) (\<lambda>_. exec_poll fuel srv (Some e) eid)) m1 \<noteq> None"
    proof (cases "dk_running r")
      case True
      have "io_bind (io_sleep Context_ended (Some e) execPollInterval) (\<lambda>_. exec_poll fuel srv (Some e) eid) m1 \<noteq> None"
      proof (rule io_bind_returns)
        fix u m2
        assume "io_sleep Context_ended (Some e) execPollInterval m1 = Some (Inr u, m2)"
        then have "io_sleep Context_ended (Some e) execPollInterval m1 = Some (Inr (), m2)" by simp
        from poll_budget [OF Suc.prems(1) c this] show "exec_poll fuel srv (Some e) eid m2 \<noteq> None"
          using Suc.IH by simp
      qed simp
      with True show ?thesis by simp
    qed simp
  qed simp
qed simp

lemma execSucceeds_returns:
  assumes "e - clock m < int fuel * execPollInterval" "0 < fuel"
  shows "execSucceeds fuel srv (Some e) name cmd m \<noteq> None"
  unfolding execSucceeds_def
proof (intro io_bind_returns)
  fix created m1 v m2
  assume "must srv (Some e) (Exec_create name cmd) m = Some (Inr created, m1)"
    "must srv (Some e) (Exec_begin (dk_id created)) m1 = Some (Inr v, m2)"
  then have "call srv (Some e) (Exec_create name cmd) m = (created, m1)"
    "call srv (Some e) (Exec_begin (dk_id created)) m1 = (v, m2)" by simp_all
  from order_trans [OF this [THEN call_clock]] have "clock m \<le> clock m2" .
  with assms show "exec_poll fuel srv (Some e) (dk_id created) m2 \<noteq> None" by (intro exec_poll_returns) auto
qed simp_all

lemma listening_error_returns: "listening_error c what er m \<noteq> None"
  by (simp add: listening_error_def)

lemma listening_loop_returns:
  "e - clock m < int fuel * execPollInterval \<Longrightarrow> 0 < fuel \<Longrightarrow>
    listening_loop fuel srv (Some e) name node probe m \<noteq> None"
proof (induction fuel arbitrary: m)
  case (Suc fuel)
  note err = listening_error_returns
  show ?case unfolding listening_loop.simps
  proof (rule io_bind_returns)
    fix r m1
    assume "io_ask srv (Some e) (Docker_inspect name) m = Some (Inr r, m1)"
    then have c1: "clock m \<le> clock m1" using call_clock by fastforce
    have "io_bind (io_try (execSucceeds (Suc fuel) srv (Some e) name probe)) (\<lambda>ready.
             case ready of
               Inl er \<Rightarrow> listening_error (Some e) (at_node ''probing'' name node) er
             | Inr True \<Rightarrow> io_return ()
             | Inr False \<Rightarrow>
                 io_bind (io_try (io_sleep Context_ended (Some e) listeningPollInterval)) (\<lambda>slept.
                   case slept of
                     Inl er \<Rightarrow> io_fail (Wrapped ''not ready'' er)
                   | Inr _ \<Rightarrow> listening_loop fuel srv (Some e) name node probe)) m1 \<noteq> None"
    proof (rule io_bind_returns)
      show "io_try (execSucceeds (Suc fuel) srv (Some e) name probe) m1 \<noteq> None"
        unfolding io_leaf_returns using Suc.prems c1 by (intro execSucceeds_returns) auto
    next
      fix ready m2
      assume "io_try (execSucceeds (Suc fuel) srv (Some e) name probe) m1 = Some (Inr ready, m2)"
      then have c2: "clock m1 \<le> clock m2"
        by (intro grows_clock io_monoD [OF io_mono_try [OF io_mono_execSucceeds]])
      have "io_bind (io_try (io_sleep Context_ended (Some e) listeningPollInterval)) (\<lambda>slept.
           case slept of Inl er \<Rightarrow> io_fail (Wrapped ''not ready'' er)
             | Inr _ \<Rightarrow> listening_loop fuel srv (Some e) name node probe) m2 \<noteq> None"
      proof (rule io_bind_returns)
        fix slept m3
        assume s: "io_try (io_sleep Context_ended (Some e) listeningPollInterval) m2 = Some (Inr slept, m3)"
        show "(case slept of Inl er \<Rightarrow> io_fail (Wrapped ''not ready'' er)
             | Inr _ \<Rightarrow> listening_loop fuel srv (Some e) name node probe) m3 \<noteq> None"
        proof (cases slept)
          case (Inr u)
          with s have "io_sleep Context_ended (Some e) listeningPollInterval m2 = Some (Inr (), m3)"
            by (simp add: io_try_iff)
          from poll_budget [OF Suc.prems(1) order_trans [OF c1 c2] this] Inr show ?thesis
            using Suc.IH by (simp add: execPollInterval_def listeningPollInterval_def millisecond_def second_def)
        qed simp
      qed (simp only: io_leaf_returns simp_thms)
      with err show "(case ready of
               Inl er \<Rightarrow> listening_error (Some e) (at_node ''probing'' name node) er
             | Inr True \<Rightarrow> io_return ()
             | Inr False \<Rightarrow>
                 io_bind (io_try (io_sleep Context_ended (Some e) listeningPollInterval)) (\<lambda>slept.
                   case slept of
                     Inl er \<Rightarrow> io_fail (Wrapped ''not ready'' er)
                   | Inr _ \<Rightarrow> listening_loop fuel srv (Some e) name node probe)) m2 \<noteq> None"
        by (cases ready; simp only: sum.case err not_False_eq_True) (simp only: io_leaf_returns simp_thms split: bool.split)
    qed
    with err show "(case dk_error r of
         Some er \<Rightarrow> listening_error (Some e) (at_node ''inspecting'' name node) (Raw er)
       | None \<Rightarrow>
           if \<not> dk_running r then io_fail (Message (name @ '' on '' @ node @ '' exited before it was ready, journalctl CONTAINER_NAME='' @ name @ '' has the log''))
           else io_bind (io_try (execSucceeds (Suc fuel) srv (Some e) name probe)) (\<lambda>ready.
             case ready of
               Inl er \<Rightarrow> listening_error (Some e) (at_node ''probing'' name node) er
             | Inr True \<Rightarrow> io_return ()
             | Inr False \<Rightarrow>
                 io_bind (io_try (io_sleep Context_ended (Some e) listeningPollInterval)) (\<lambda>slept.
                   case slept of
                     Inl er \<Rightarrow> io_fail (Wrapped ''not ready'' er)
                   | Inr _ \<Rightarrow> listening_loop fuel srv (Some e) name node probe))) m1 \<noteq> None"
      by (simp split: option.split del: listening_loop.simps io_leaf_returns) (auto simp: io_fail_def)
  qed simp
qed simp

text \<open>Six hundred polls of 200 ms cover the two minutes.\<close>

lemma waitListening_returns: "600 < fuel \<Longrightarrow> waitListening fuel srv c name node ports m \<noteq> None"
proof -
  assume fuel: "600 < fuel"
  obtain e where e: "with_timeout c coordinatorReadyTimeout (clock m) = Some e" "e \<le> clock m + coordinatorReadyTimeout"
    by (cases c) (auto simp: with_timeout_def)
  have "600 * execPollInterval \<le> int fuel * execPollInterval"
    using fuel by (intro mult_right_mono) (auto simp: execPollInterval_def millisecond_def)
  moreover have "601 * execPollInterval \<le> int fuel * execPollInterval"
    using fuel by (intro mult_right_mono) (auto simp: execPollInterval_def millisecond_def)
  ultimately have "e - clock m < int fuel * execPollInterval"
    using e(2) by (simp add: coordinatorReadyTimeout_def execPollInterval_def millisecond_def second_def)
  then show ?thesis unfolding waitListening_def e(1) using fuel by (intro listening_loop_returns) auto
qed

end
