(* ===== verification/Daemon_Ends.thy ===== *)
theory Daemon_Ends
  imports Daemon_Proofs
begin

text \<open>
  Every operation on a daemon ends, whatever the daemon answers: with more than a thousand rounds of
  fuel no loop runs out, since every wait is bounded by a deadline and every round sleeps.
\<close>

definition ends :: "('s, 'e, 'a) prog \<Rightarrow> bool" where
  "ends f \<longleftrightarrow> (\<forall>s. f s \<noteq> None)"

named_theorems io_ends \<open>Programs that end\<close>

lemma endsD: "ends f \<Longrightarrow> f s \<noteq> None"
  by (simp add: ends_def)

lemma endsI: "(\<And>s. f s \<noteq> None) \<Longrightarrow> ends f"
  by (simp add: ends_def)

lemma ends_leaf [io_ends]: "ends (io_return v)" "ends (io_fail e)"
  by (simp_all add: ends_def)

lemma ends_ask [io_ends]: "ends (io_ask srv c q)"
  by (intro endsI) simp

lemma ends_sleep [io_ends]: "ends (io_sleep e c d)"
  by (intro endsI) simp

lemma ends_now [io_ends]: "ends io_now"
  by (simp add: ends_def io_now_def)

lemma ends_bind [io_ends]:
  assumes "ends f" "\<And>v. ends (g v)"
  shows "ends (io_bind f g)"
  by (rule endsI) (rule io_bind_returns [OF endsD [OF assms(1)] endsD [OF assms(2)]])

lemma ends_wrap [io_ends]: "ends f \<Longrightarrow> ends (io_wrap w f)"
  unfolding ends_def io_leaf_returns by assumption

lemma ends_try [io_ends]: "ends f \<Longrightarrow> ends (io_try f)"
  unfolding ends_def io_leaf_returns by assumption

lemma ends_finally [io_ends]:
  assumes "ends f" "ends g"
  shows "ends (io_finally f g)"
proof (rule endsI)
  fix s
  from endsD [OF assms(1), of s] obtain r m where "f s = Some (r, m)" by auto
  moreover from endsD [OF assms(2), of m] obtain x m' where "g m = Some (x, m')" by auto
  ultimately show "io_finally f g s \<noteq> None" by (simp add: io_finally_def)
qed

lemma ends_if [io_ends]: "ends f \<Longrightarrow> ends g \<Longrightarrow> ends (if b then f else g)"
  by simp

lemma ends_sum [io_ends]:
  "(\<And>x. ends (f x)) \<Longrightarrow> (\<And>x. ends (g x)) \<Longrightarrow> ends (case s of Inl x \<Rightarrow> f x | Inr x \<Rightarrow> g x)"
  by (simp split: sum.split)

lemma ends_each [io_ends]: "(\<And>x. ends (f x)) \<Longrightarrow> ends (io_each f xs)"
  by (induction xs) (simp_all add: ends_leaf ends_bind)

section \<open>Operations without a loop\<close>

lemma ends_must [io_ends]: "ends (must srv c q)"
  by (intro endsI) simp

lemma ends_error [io_ends]:
  "ends f \<Longrightarrow> ends g \<Longrightarrow> (\<And>e. ends (h e)) \<Longrightarrow>
    ends (case er of None \<Rightarrow> f | Some Not_found \<Rightarrow> g | Some (Docker_error e) \<Rightarrow> h e)"
  by (simp split: option.split docker_error.split)

lemma ends_pullImage [io_ends]: "ends (pullImage srv c ref)"
  unfolding pullImage_def by (intro io_ends)

lemma ends_running [io_ends]: "ends (running srv c name)"
  unfolding running_def by (intro io_ends)

lemma ends_container_begin [io_ends]: "ends (container_begin srv c ord spec)"
  unfolding container_begin_def copyFile_def by (intro io_ends)

lemma ends_remove_finally [io_ends]: "ends (remove_finally srv c name)"
  by (intro endsI) (simp add: remove_finally_def)

lemma ends_container_run [io_ends]: "ends (container_run srv c ord spec)"
  unfolding container_run_def run_body_def by (intro io_ends)

lemma ends_stopAndRemove [io_ends]: "ends (stopAndRemove srv c name node)"
  unfolding stopAndRemove_def by (intro io_ends)

lemma ends_stopSidecar [io_ends]: "ends (stopSidecar srv c kind node)"
  unfolding stopSidecar_def by (intro io_ends)

lemma ends_lastLogLine [io_ends]: "ends (lastLogLine srv c name)"
  unfolding lastLogLine_def by (intro io_ends)

section \<open>Waits\<close>

lemma sleep_moves: "io_sleep er c d m = Some (Inr u, m') \<Longrightarrow> clock m' = clock m + max d 0"
  by (auto simp: io_sleep_def sleep_def split: option.splits if_splits)

text \<open>A round of a wait before its deadline that sleeps a second or more leaves a shorter one.\<close>

lemma wait_budget:
  assumes "deadline - clock m < int fuel * second" "clock m \<le> clock m1" "\<not> deadline < clock m1"
    and "io_sleep er c d m1 = Some (Inr u, m2)" "second \<le> d"
  shows "0 < fuel \<and> deadline - clock m2 < (int fuel - 1) * second"
  using assms(1-3,5) sleep_moves [OF assms(4)]
  by (cases fuel) (auto simp: algebra_simps second_def)

lemma log_loop_returns:
  "deadline - clock m < (int fuel - 1) * second \<Longrightarrow> 0 < fuel \<Longrightarrow> log_loop fuel srv c name lbl line deadline m \<noteq> None"
proof (induction fuel arbitrary: m)
  case (Suc fuel)
  let ?read = "io_wrap (Wrapped (''reading the log of '' @ lbl))"
  let ?gone = "Message (lbl @ '' exited before it was ready, journalctl CONTAINER_NAME='' @ name @ '' has the log'')"
  let ?late = "Message (lbl @ '' not ready'')"
  let ?again = "io_bind (io_sleep Context_ended c logPollInterval) (\<lambda>_. log_loop fuel srv c name lbl line deadline)"
  have again: "?again m1 \<noteq> None" if "clock m \<le> clock m1" "\<not> deadline < clock m1" for m1
  proof (rule io_bind_returns)
    fix u m2
    assume "io_sleep Context_ended c logPollInterval m1 = Some (Inr u, m2)"
    from wait_budget [OF _ that this, of fuel] Suc.prems(1) Suc.IH
    show "log_loop fuel srv c name lbl line deadline m2 \<noteq> None" by (simp add: logPollInterval_def second_def)
  qed simp
  show ?case unfolding log_loop.simps
  proof (rule io_bind_returns)
    fix r m1
    assume "io_wrap (Wrapped (''inspecting '' @ lbl)) (must srv c (Docker_inspect name)) m = Some (Inr r, m1)"
    then have c1: "clock m \<le> clock m1" using call_clock by fastforce
    have "io_bind (?read (must srv c (Docker_logs name (dk_started r)))) (\<lambda>logs.
         if contains_str line (dk_text logs) then io_return ()
         else io_bind io_now (\<lambda>now. if deadline < now then io_fail ?late else ?again)) m1 \<noteq> None"
    proof (rule io_bind_returns)
      fix logs m2
      assume "?read (must srv c (Docker_logs name (dk_started r))) m1 = Some (Inr logs, m2)"
      then have c2: "clock m1 \<le> clock m2" using call_clock by fastforce
      show "(if contains_str line (dk_text logs) then io_return ()
         else io_bind io_now (\<lambda>now. if deadline < now then io_fail ?late else ?again)) m2 \<noteq> None"
        using again [OF order_trans [OF c1 c2]] by (simp add: io_bind_def [of io_now] io_now_def)
    qed (simp only: io_leaf_returns must_returns simp_thms)
    then show "(if \<not> dk_running r then io_fail ?gone
         else io_bind (?read (must srv c (Docker_logs name (dk_started r)))) (\<lambda>logs.
         if contains_str line (dk_text logs) then io_return ()
         else io_bind io_now (\<lambda>now. if deadline < now then io_fail ?late else ?again))) m1 \<noteq> None"
      by (simp only: io_leaf_returns simp_thms split: if_split)
  qed (simp only: io_leaf_returns must_returns simp_thms)
qed simp

lemma sidecar_loop_returns:
  "deadline - clock m < (int fuel - 1) * second \<Longrightarrow> 0 < fuel \<Longrightarrow> sidecar_loop fuel srv c name deadline m \<noteq> None"
proof (induction fuel arbitrary: m)
  case (Suc fuel)
  let ?again = "io_bind (io_sleep Context_ended c second) (\<lambda>_. sidecar_loop fuel srv c name deadline)"
  let ?exit = "io_bind (lastLogLine srv c name) (\<lambda>line. io_fail (Message (name @ '' exited at startup: '' @ line)))"
  have again: "?again m1 \<noteq> None" if "clock m \<le> clock m1" "\<not> deadline < clock m1" for m1
  proof (rule io_bind_returns)
    fix u m2
    assume "io_sleep Context_ended c second m1 = Some (Inr u, m2)"
    from wait_budget [OF _ that this, of fuel] Suc.prems(1) Suc.IH
    show "sidecar_loop fuel srv c name deadline m2 \<noteq> None" by simp
  qed simp
  have exit: "?exit m1 \<noteq> None" for m1
    by (rule endsD) (intro io_ends)
  show ?case unfolding sidecar_loop.simps
  proof (rule io_bind_returns)
    fix r m1
    assume "must srv c (Docker_inspect name) m = Some (Inr r, m1)"
    then have c1: "clock m \<le> clock m1" using call_clock by fastforce
    have "io_bind io_now (\<lambda>now. if deadline < now then io_return () else ?again) m1 \<noteq> None"
      using again [OF c1] by (simp add: io_bind_def [of io_now] io_now_def)
    with exit show "(if \<not> dk_running r \<or> 0 < dk_restarts r then ?exit
        else io_bind io_now (\<lambda>now. if deadline < now then io_return () else ?again)) m1 \<noteq> None"
      by (cases "\<not> dk_running r \<or> 0 < dk_restarts r") (simp_all only: if_True if_False not_False_eq_True)
  qed (simp only: must_returns simp_thms)
qed simp

text \<open>A thousand rounds cover a wait of a thousand seconds.\<close>

lemma log_loop_ends:
  "1000 < fuel \<Longrightarrow> deadline \<le> clock m + 900 * second \<Longrightarrow> log_loop fuel srv c name lbl line deadline m \<noteq> None"
proof -
  assume fuel: "1000 < fuel" and d: "deadline \<le> clock m + 900 * second"
  have "1000 * second \<le> (int fuel - 1) * second"
    using fuel by (intro mult_right_mono) (auto simp: second_def)
  with d have "deadline - clock m < (int fuel - 1) * second" by (simp add: second_def)
  then show ?thesis using fuel by (intro log_loop_returns) auto
qed

lemma ends_waitLogLine: "1000 < fuel \<Longrightarrow> timeout \<le> 900 * second \<Longrightarrow> ends (waitLogLine fuel srv c name lbl line timeout)"
  by (intro endsI) (simp add: waitLogLine_def log_loop_ends)

lemma ends_waitSidecarRunning: "1000 < fuel \<Longrightarrow> ends (waitSidecarRunning fuel srv c name)"
proof (intro endsI)
  fix m :: "'a host_machine"
  assume fuel: "1000 < fuel"
  have "1000 * second \<le> (int fuel - 1) * second"
    using fuel by (intro mult_right_mono) (auto simp: second_def)
  then have "clock m + sidecarSettle - clock m < (int fuel - 1) * second" by (simp add: sidecarSettle_def second_def)
  then show "waitSidecarRunning fuel srv c name m \<noteq> None"
    unfolding waitSidecarRunning_def using fuel by (intro sidecar_loop_returns) auto
qed

lemma ends_waitListening: "1000 < fuel \<Longrightarrow> ends (waitListening fuel srv c name node ports)"
  by (intro endsI waitListening_returns) simp

lemma ends_startCoordinator: "1000 < fuel \<Longrightarrow> ends (startCoordinator fuel srv c ord node spec ports)"
  unfolding startCoordinator_def by (intro io_ends ends_waitListening)

lemma ends_startSidecar: "1000 < fuel \<Longrightarrow> ends (startSidecar fuel srv c ord f interval s)"
  unfolding startSidecar_def Let_def by (intro io_ends ends_waitSidecarRunning)

end
