(* ===== verification/Ere_Client.thy ===== *)
theory Ere_Client
  imports Bytes Wire_Text "HOL-Library.AList"
begin

text \<open>
  \<open>internal/ereserver/client.go\<close>: the calls of an ere-server over Twirp. HTTP is the parameter
  \<open>http\<close>, from a URL and a body to what came back; the protobuf codec is \<open>encode\<close> and
  \<open>decode\<close>, the pprof parser \<open>parse\<close>. A Go map is an association list.
\<close>

datatype client_error =
    Guest_error string
  | Transport_error string

text \<open>What a request comes to: no response, or a status with the body read and what cut it short.\<close>

datatype http_result =
    No_answer string
  | Answer int bytes "string option"

record cost_estimation =
  ce_cost :: "(string \<times> u64) list"
  ce_heap :: "u64 option"
  ce_stack :: "u64 option"

record cost_profile =
  cp_estimation :: cost_estimation
  cp_pprof :: bytes

text \<open>The \<open>Result\<close> of a response: the two cases of the protobuf \<open>oneof\<close>, or none.\<close>

datatype 'a twirp_result =
    Twirp_ok 'a
  | Twirp_err string
  | Twirp_unset

record profile_answer =
  pa_pprof :: bytes
  pa_heap :: u64
  pa_stack :: u64

section \<open>Requests\<close>

definition executeEstimatedCostPath :: string where
  "executeEstimatedCostPath = ''/twirp/api.ZkvmService/ExecuteEstimatedCost''"

definition profilePath :: string where
  "profilePath = ''/twirp/api.ZkvmService/Profile''"

definition healthPath :: string where
  "healthPath = ''/health''"

definition ere_url :: "string \<Rightarrow> string \<Rightarrow> string" where
  "ere_url base path = rev (dropWhile (\<lambda>c. c = CHR ''/'') (rev base)) @ path"

definition ere_post ::
  "(string \<Rightarrow> bytes \<Rightarrow> http_result) \<Rightarrow> ('q \<Rightarrow> string + bytes) \<Rightarrow> (bytes \<Rightarrow> string + 'r)
    \<Rightarrow> string \<Rightarrow> string \<Rightarrow> string \<Rightarrow> 'q \<Rightarrow> client_error + 'r" where
  "ere_post http encode decode base path method request =
     rbind (rmap_err Transport_error (encode request)) (\<lambda>payload.
       case http (ere_url base path) payload of
         No_answer e \<Rightarrow> Inl (Transport_error e)
       | Answer status body broken \<Rightarrow>
           if status < 200 \<or> 299 < status
           then Inl (Transport_error (method @ '' status '' @ itoa status @ '': '' @ readBody (text_of body)))
           else (case broken of
                   Some e \<Rightarrow> Inl (Transport_error e)
                 | None \<Rightarrow> rmap_err (\<lambda>e. Transport_error (''decoding the '' @ method @ '' response: '' @ e)) (decode body)))"

text \<open>\<open>Health\<close>: what it makes of the answer to a GET of \<open>/health\<close>.\<close>

definition ere_health :: "http_result \<Rightarrow> string + unit" where
  "ere_health r =
     (case r of
        No_answer e \<Rightarrow> Inl e
      | Answer status body broken \<Rightarrow>
          if status \<noteq> 200 then Inl (''health status '' @ itoa status @ '': '' @ readBody (text_of body)) else Inr ())"

section \<open>Estimations\<close>

definition executeEstimatedCost ::
  "(string \<Rightarrow> bytes \<Rightarrow> http_result) \<Rightarrow> (bytes \<Rightarrow> string + bytes)
    \<Rightarrow> (bytes \<Rightarrow> string + ((string \<times> u64) list \<times> u64 option) twirp_result) \<Rightarrow> string \<Rightarrow> bytes
    \<Rightarrow> client_error + cost_estimation" where
  "executeEstimatedCost http encode decode base stdin =
     rbind (ere_post http encode decode base executeEstimatedCostPath ''execute_estimated_cost'' stdin) (\<lambda>r.
       case r of
         Twirp_ok (cost, heap) \<Rightarrow>
           if cost = [] then Inl (Transport_error ''execute_estimated_cost returned no cost'')
           else Inr \<lparr>ce_cost = cost, ce_heap = heap, ce_stack = None\<rparr>
       | Twirp_err e \<Rightarrow> Inl (Guest_error e)
       | Twirp_unset \<Rightarrow> Inl (Transport_error ''execute_estimated_cost returned no result''))"

text \<open>The types of a pprof profile's samples, and each sample's values. A value is an \<open>int64\<close>
  and \<open>uint64\<close> keeps its bits. The parser refuses a sample of another length than the types.\<close>

record pprof =
  pp_types :: "string list"
  pp_samples :: "u64 list list"

definition cost_step :: "u64 list list \<Rightarrow> nat \<times> string \<Rightarrow> (string \<times> u64) list \<Rightarrow> (string \<times> u64) list" where
  "cost_step samples it cost =
     (case cut_prefix ''cost.'' (snd it) of
        None \<Rightarrow> cost
      | Some component \<Rightarrow> AList.update component (fold (\<lambda>values acc. acc + values ! fst it) samples 0) cost)"

definition profileCost :: "(bytes \<Rightarrow> string + pprof) \<Rightarrow> bytes \<Rightarrow> client_error + (string \<times> u64) list" where
  "profileCost parse encoded =
     rbind (rmap_err (\<lambda>e. Transport_error (''decoding the pprof profile: '' @ e)) (parse encoded)) (\<lambda>p.
       let cost = fold (cost_step (pp_samples p)) (indexed (pp_types p)) [] in
       if cost = [] then Inl (Transport_error ''profile returned no cost'') else Inr cost)"

definition ere_profile ::
  "(string \<Rightarrow> bytes \<Rightarrow> http_result) \<Rightarrow> (bytes \<Rightarrow> string + bytes) \<Rightarrow> (bytes \<Rightarrow> string + profile_answer twirp_result)
    \<Rightarrow> (bytes \<Rightarrow> string + pprof) \<Rightarrow> string \<Rightarrow> bytes \<Rightarrow> client_error + cost_profile" where
  "ere_profile http encode decode parse base stdin =
     rbind (ere_post http encode decode base profilePath ''profile'' stdin) (\<lambda>r.
       case r of
         Twirp_ok a \<Rightarrow> rbind (profileCost parse (pa_pprof a)) (\<lambda>cost.
           Inr \<lparr>cp_estimation = \<lparr>ce_cost = cost, ce_heap = Some (pa_heap a), ce_stack = Some (pa_stack a)\<rparr>,
                cp_pprof = pa_pprof a\<rparr>)
       | Twirp_err e \<Rightarrow> Inl (Guest_error e)
       | Twirp_unset \<Rightarrow> Inl (Transport_error ''profile returned no result''))"

section \<open>What the costs are\<close>

lemma cost_step_lookup:
  "map_of (cost_step samples (i, t) cost) k =
    (if t = ''cost.'' @ k then Some (fold (\<lambda>values acc. acc + values ! i) samples 0) else map_of cost k)"
proof (cases "cut_prefix ''cost.'' t")
  case None
  moreover have "t \<noteq> ''cost.'' @ k"
  proof
    assume "t = ''cost.'' @ k"
    with None show False using cut_prefix_append [of "''cost.''" k] by (simp only: option.distinct)
  qed
  ultimately show ?thesis by (simp only: cost_step_def snd_conv option.case if_False)
next
  case (Some component)
  then have t: "t = ''cost.'' @ component" by (simp only: cut_prefix_Some_iff)
  have "cost_step samples (i, t) cost
      = AList.update component (fold (\<lambda>values acc. acc + values ! i) samples 0) cost"
    using Some by (simp only: cost_step_def snd_conv fst_conv option.case)
  then show ?thesis unfolding t by (simp add: update_conv')
qed

lemma cost_fold_lookup:
  "distinct (map snd its) \<Longrightarrow> (i, ''cost.'' @ k) \<in> set its \<Longrightarrow>
    map_of (fold (cost_step samples) its []) k = Some (fold (\<lambda>values acc. acc + values ! i) samples 0)"
proof (induction its rule: rev_induct)
  case (snoc it its)
  obtain j t where it: "it = (j, t)" by force
  show ?case
  proof (cases "t = ''cost.'' @ k")
    case True
    have "(i, ''cost.'' @ k) \<notin> set its"
    proof
      assume "(i, ''cost.'' @ k) \<in> set its"
      then have "''cost.'' @ k \<in> snd ` set its" by (metis image_eqI snd_conv)
      with snoc.prems(1) it True show False by simp
    qed
    with snoc.prems(2) it have "i = j" by simp
    with True it show ?thesis by (simp add: cost_step_lookup)
  next
    case False
    with snoc.prems it have "(i, ''cost.'' @ k) \<in> set its" by auto
    with snoc.IH snoc.prems(1) it False show ?thesis by (simp add: cost_step_lookup)
  qed
qed simp

lemma cost_fold_dom: "map_of (fold (cost_step samples) its []) k = None \<longleftrightarrow> ''cost.'' @ k \<notin> snd ` set its"
proof (induction its rule: rev_induct)
  case (snoc it its)
  then show ?case by (cases it) (auto simp: cost_step_lookup)
qed simp

lemma unat_sum:
  "unat (fold (\<lambda>values acc. acc + values ! i) samples (a :: u64)) = (unat a + (\<Sum>values \<leftarrow> samples. unat (values ! i))) mod 2 ^ 64"
proof (induction samples arbitrary: a)
  case Nil
  have "unat a < 2 ^ LENGTH(64)" by (rule unsigned_less)
  then show ?case by simp
next
  case (Cons v vs)
  show ?case by (simp add: Cons.IH unat_word_ariths mod_add_left_eq add.assoc)
qed

text \<open>The cost of a profile names exactly the components with a sample type \<open>cost.<component>\<close>, and
  each one's cost is the sum of its values over all samples modulo 2^64; a profile is refused exactly
  when it does not parse or has no such type.\<close>

theorem profile_cost_sums:
  assumes "parse encoded = Inr p" "distinct (pp_types p)"
  shows "((\<exists>cost. profileCost parse encoded = Inr cost) \<longleftrightarrow> (\<exists>k. ''cost.'' @ k \<in> set (pp_types p)))
    \<and> (\<forall>cost. profileCost parse encoded = Inr cost \<longrightarrow>
      (\<forall>k. map_of cost k = None \<longleftrightarrow> ''cost.'' @ k \<notin> set (pp_types p))
      \<and> (\<forall>i < length (pp_types p). \<forall>k s. pp_types p ! i = ''cost.'' @ k \<longrightarrow> map_of cost k = Some s \<longrightarrow>
          unat s = (\<Sum>values \<leftarrow> pp_samples p. unat (values ! i)) mod 2 ^ 64))"
proof -
  let ?its = "indexed (pp_types p)"
  let ?cost = "fold (cost_step (pp_samples p)) ?its []"
  have run: "profileCost parse encoded = (if ?cost = [] then Inl (Transport_error ''profile returned no cost'') else Inr ?cost)"
    using assms(1) by (simp add: profileCost_def Let_def)
  have types: "snd ` set ?its = set (pp_types p)" by (simp only: list.set_map [symmetric] map_snd_indexed)
  have dom: "map_of ?cost k = None \<longleftrightarrow> ''cost.'' @ k \<notin> set (pp_types p)" for k
    using cost_fold_dom [of "pp_samples p" ?its k] unfolding types .
  have "?cost = [] \<longleftrightarrow> (\<forall>k. ''cost.'' @ k \<notin> set (pp_types p))"
    unfolding dom [symmetric] by (cases ?cost) (auto simp del: fold_simps)
  then have "(\<exists>cost. profileCost parse encoded = Inr cost) \<longleftrightarrow> (\<exists>k. ''cost.'' @ k \<in> set (pp_types p))"
    unfolding run by (simp split: if_split)
  moreover have "unat s = (\<Sum>values \<leftarrow> pp_samples p. unat (values ! i)) mod 2 ^ 64"
    if i: "i < length (pp_types p)" "pp_types p ! i = ''cost.'' @ k" and s: "map_of ?cost k = Some s" for i k s
  proof -
    have "(i, ''cost.'' @ k) \<in> set ?its" unfolding set_indexed using i by auto
    from cost_fold_lookup [OF _ this, of "pp_samples p"] assms(2) s
    have "s = fold (\<lambda>values acc. acc + values ! i) (pp_samples p) 0" by simp
    then show ?thesis by (simp only: unat_sum unat_0 add_0)
  qed
  moreover have "cost = ?cost" if "profileCost parse encoded = Inr cost" for cost
    using that run by (simp split: if_splits)
  ultimately show ?thesis using dom by blast
qed

theorem profile_cost_sums_witness:
  "profileCost (\<lambda>_. Inr \<lparr>pp_types = [''cost.alu'', ''time''], pp_samples = [[5, 1], [-1, 2]]\<rparr>) [] = Inr [(''alu'', 4)]
    \<and> unat (4 :: u64) = (5 + unat (-1 :: u64)) mod 2 ^ 64"
proof -
  let ?p = "\<lparr>pp_types = [''cost.alu'', ''time''], pp_samples = [[5, 1], [-1, 2]]\<rparr>"
  have run: "profileCost (\<lambda>_. Inr ?p) [] = Inr [(''alu'', 4)]"
    by (simp add: profileCost_def cost_step_def indexed_def cut_prefix_def has_prefix_def Let_def)
  have "distinct (pp_types ?p)" by simp
  from profile_cost_sums [of "\<lambda>_. Inr ?p", OF refl this, THEN conjunct2, rule_format, OF run, THEN conjunct2, rule_format, of 0 "''alu''" 4]
  have "unat (4 :: u64) = (5 + unat (-1 :: u64)) mod 2 ^ 64" by simp
  with run show ?thesis by blast
qed

end
