(* ===== verification/Ere_Server.thy ===== *)
theory Ere_Server
  imports Daemon_Ends Ere_Client
begin

text \<open>
  \<open>internal/ereserver/server.go\<close>: the local ere-server container of an estimation, from
  \<open>Start\<close> to \<open>Close\<close>. Docker, the attached connection and the server's health are the
  service \<open>srv\<close>. The relay of the container's output is left out.
\<close>

section \<open>The container\<close>

record ere_spec =
  es_image :: string
  es_cmd :: "string list"
  es_port :: string
  es_binding :: "string \<times> string"
  es_stdin_once :: bool
  es_auto_remove :: bool

definition containerPrefix :: string where "containerPrefix = ''provoor-estimate-''"
definition healthPollInterval :: int where "healthPollInterval = 2 * second"
definition healthRequestTimeout :: int where "healthRequestTimeout = 10 * second"
definition startTimeout :: int where "startTimeout = 1200 * second"
definition removeTimeout :: int where "removeTimeout = 30 * second"

definition containerPort :: "int \<Rightarrow> string" where
  "containerPort port = itoa port @ ''/tcp''"

text \<open>\<open>containerConfig\<close> and \<open>hostConfig\<close>: the port is published on loopback only, and the
  container's stdin closes once it is written.\<close>

definition containerConfig :: "string \<Rightarrow> int \<Rightarrow> ere_spec" where
  "containerConfig img port = \<lparr>es_image = img, es_cmd = [''--port'', itoa port, ''cpu''], es_port = containerPort port,
     es_binding = (''127.0.0.1'', itoa port), es_stdin_once = True, es_auto_remove = True\<rparr>"

section \<open>The requests\<close>

datatype ere_request =
    Ere_image string
  | Ere_free_port
  | Ere_create string ere_spec
  | Ere_attach string
  | Ere_begin string
  | Ere_write string bytes
  | Ere_close_stdin string
  | Ere_inspect string
  | Ere_health string
  | Ere_remove string

record ere_reply =
  er_error :: "docker_error option"
  er_id :: string
  er_digests :: "string list"
  er_port :: int
  er_running :: bool
  er_health :: http_result

type_synonym 'w ere_docker = "(ere_request, ere_reply, 'w) service"
type_synonym 'w ere_machine = "(ere_request, 'w) machine"
type_synonym ('w, 'a) ere_io = "(ere_request, 'w, deploy_error, 'a) io"

definition ere_must :: "'w ere_docker \<Rightarrow> ctx \<Rightarrow> string \<Rightarrow> ere_request \<Rightarrow> ('w, ere_reply) ere_io" where
  "ere_must srv c what q = io_bind (io_ask srv c q)
     (\<lambda>r. case er_error r of None \<Rightarrow> io_return r | Some e \<Rightarrow> io_fail (Wrapped what (Raw e)))"

record ere_server =
  ev_base :: string
  ev_digest :: string
  ev_name :: string

section \<open>Operations\<close>

text \<open>\<open>strings.Cut\<close> at the first @; without one the digest is empty.\<close>

definition digest_part :: "string \<Rightarrow> string" where
  "digest_part s = drop 1 (dropWhile (\<lambda>c. c \<noteq> CHR ''@'') s)"

definition imageDigest :: "'w ere_docker \<Rightarrow> ctx \<Rightarrow> string \<Rightarrow> ('w, string) ere_io" where
  "imageDigest srv c img =
     io_bind (ere_must srv c (''inspecting '' @ img) (Ere_image img)) (\<lambda>r.
       io_return (case er_digests r of [] \<Rightarrow> er_id r | d # _ \<Rightarrow> digest_part d))"

definition removeContainer :: "'w ere_docker \<Rightarrow> ctx \<Rightarrow> string \<Rightarrow> ('w, unit) ere_io" where
  "removeContainer srv c name m =
     io_bind (io_ask srv (with_timeout (without_cancel c) removeTimeout (clock m)) (Ere_remove name)) (\<lambda>r.
       case er_error r of None \<Rightarrow> io_return () | Some Not_found \<Rightarrow> io_return () | Some e \<Rightarrow> io_fail (Raw e)) m"

definition feed :: "'w ere_docker \<Rightarrow> ctx \<Rightarrow> string \<Rightarrow> string \<Rightarrow> bytes \<Rightarrow> ('w, unit) ere_io" where
  "feed srv c name cid elf =
     io_bind (ere_must srv c (''starting '' @ name) (Ere_begin cid)) (\<lambda>_.
     io_bind (ere_must srv None (''writing the guest program to '' @ name) (Ere_write name elf)) (\<lambda>_.
     io_bind (ere_must srv None (''closing the stdin of '' @ name) (Ere_close_stdin name)) (\<lambda>_.
       io_return ())))"

definition probe_health :: "'w ere_docker \<Rightarrow> ctx \<Rightarrow> string \<Rightarrow> ('w, bool) ere_io" where
  "probe_health srv c base m =
     io_bind (io_ask srv (with_timeout c healthRequestTimeout (clock m)) (Ere_health (ere_url base healthPath))) (\<lambda>r.
       io_return (\<not> isl (ere_health (er_health r)))) m"

definition ere_exited :: "string \<Rightarrow> deploy_error" where
  "ere_exited name = Message (name @ '' exited before it served the guest program'')"

fun healthy_loop :: "nat \<Rightarrow> 'w ere_docker \<Rightarrow> ctx \<Rightarrow> string \<Rightarrow> string \<Rightarrow> ('w, unit) ere_io" where
  "healthy_loop 0 srv c name base = (\<lambda>m. None)"
| "healthy_loop (Suc fuel) srv c name base =
     io_bind (io_ask srv c (Ere_inspect name)) (\<lambda>r.
       if er_error r = Some Not_found \<or> er_error r = None \<and> \<not> er_running r then io_fail (ere_exited name)
       else if er_error r \<noteq> None then io_fail (Wrapped (''inspecting '' @ name) (Raw (the (er_error r))))
       else io_bind (probe_health srv c base) (\<lambda>served.
         if served then io_return ()
         else io_bind (io_wrap (Wrapped (name @ '' did not serve the guest program''))
                (io_sleep Context_ended c healthPollInterval)) (\<lambda>_.
           healthy_loop fuel srv c name base)))"

definition waitHealthy :: "nat \<Rightarrow> 'w ere_docker \<Rightarrow> ctx \<Rightarrow> string \<Rightarrow> string \<Rightarrow> ('w, unit) ere_io" where
  "waitHealthy fuel srv c name base m = healthy_loop fuel srv (with_timeout c startTimeout (clock m)) name base m"

text \<open>\<open>Close\<close>; a step of \<open>Start\<close> whose error closes the server first.\<close>

definition ere_close :: "'w ere_docker \<Rightarrow> ctx \<Rightarrow> string \<Rightarrow> ('w, unit) ere_io" where
  "ere_close srv c name = removeContainer srv c name"

definition or_close :: "'w ere_docker \<Rightarrow> ctx \<Rightarrow> string \<Rightarrow> ('w, 'a) ere_io \<Rightarrow> ('w, 'a) ere_io" where
  "or_close srv c name f = io_bind (io_try f) (\<lambda>r.
     case r of Inl e \<Rightarrow> io_bind (io_try (ere_close srv c name)) (\<lambda>_. io_fail e) | Inr v \<Rightarrow> io_return v)"

definition ere_start :: "nat \<Rightarrow> 'w ere_docker \<Rightarrow> ctx \<Rightarrow> string \<Rightarrow> bytes \<Rightarrow> ('w, ere_server) ere_io" where
  "ere_start fuel srv c img elf =
     io_bind (imageDigest srv c img) (\<lambda>digest.
     io_bind (ere_must srv None (''reserving a port for '' @ img) Ere_free_port) (\<lambda>p.
     let port = er_port p; name = containerPrefix @ itoa port; base = ''http://127.0.0.1:'' @ itoa port in
     io_bind (ere_must srv c (''creating '' @ name) (Ere_create name (containerConfig img port))) (\<lambda>created.
     io_bind (or_close srv c name (ere_must srv c (''attaching to '' @ name) (Ere_attach (er_id created)))) (\<lambda>_.
     io_bind (or_close srv c name (feed srv c name (er_id created) elf)) (\<lambda>_.
     io_bind (or_close srv c name (waitHealthy fuel srv c name base)) (\<lambda>_.
     io_return \<lparr>ev_base = base, ev_digest = digest, ev_name = name\<rparr>))))))"

section \<open>Outcomes\<close>

lemma ere_must_Inr [simp]: "ere_must srv c what q m = Some (Inr r, m') \<longleftrightarrow> call srv c q m = (r, m') \<and> er_error r = None"
  by (auto simp: ere_must_def io_bind_Inr split: option.splits)

lemma ere_must_Inl: "ere_must srv c what q m = Some (Inl e, m') \<Longrightarrow> \<exists>r. call srv c q m = (r, m') \<and> er_error r \<noteq> None"
  by (auto simp: ere_must_def io_bind_Inl split: option.splits)

lemma io_mono_ere_must [io_grows]: "io_mono (ere_must srv c what q)"
  unfolding ere_must_def by (intro io_grows)

lemma io_mono_feed [io_grows]: "io_mono (feed srv c name cid elf)"
  unfolding feed_def by (intro io_grows)

lemma io_mono_imageDigest [io_grows]: "io_mono (imageDigest srv c img)"
  unfolding imageDigest_def by (intro io_grows)

lemma io_mono_probe_health [io_grows]: "io_mono (probe_health srv c base)"
  unfolding io_mono_def probe_health_def
  by (intro allI impI) (erule io_monoD [rotated], intro io_grows)

lemma io_mono_removeContainer [io_grows]: "io_mono (removeContainer srv c name)"
  unfolding io_mono_def removeContainer_def
  by (intro allI impI) (erule io_monoD [rotated], intro io_mono_bind io_mono_ask, simp add: io_mono_return io_mono_fail split: option.split docker_error.split)

lemma io_mono_healthy_loop [io_grows]: "io_mono (healthy_loop fuel srv c name base)"
  by (induction fuel) (simp_all only: healthy_loop.simps, (intro io_grows | assumption)+)

lemma io_mono_waitHealthy [io_grows]: "io_mono (waitHealthy fuel srv c name base)"
  using io_mono_healthy_loop unfolding io_mono_def waitHealthy_def by blast

lemma io_mono_or_close [io_grows]: "io_mono f \<Longrightarrow> io_mono (or_close srv c name f)"
  unfolding or_close_def ere_close_def by (intro io_grows)

section \<open>What a start did\<close>

text \<open>The container was found running and then the server answered the health request with 200.\<close>

definition served :: "'w ere_docker \<Rightarrow> string \<Rightarrow> string \<Rightarrow> 'w ere_machine \<Rightarrow> 'w ere_machine \<Rightarrow> bool" where
  "served srv name base m m' \<longleftrightarrow>
     (\<exists>r h. er_error r = None \<and> er_running r \<and> ere_health (er_health h) = Inr ()
        \<and> saw srv [(Ere_inspect name, r), (Ere_health (ere_url base healthPath), h)] m m')"

lemma served_before: "grows (\<lambda>_. True) m m1 \<Longrightarrow> served srv name base m1 m' \<Longrightarrow> served srv name base m m'"
  unfolding served_def by (blast intro: saw_before)

lemma healthy_loop_served: "healthy_loop fuel srv c name base m = Some (Inr (), m') \<Longrightarrow> served srv name base m m'"
proof (induction fuel arbitrary: m)
  case (Suc fuel)
  obtain r m1 where r: "call srv c (Ere_inspect name) m = (r, m1)" by force
  have g1: "grows (\<lambda>_. True) m m1" using r by (rule grows_call_eq) simp
  let ?again = "\<lambda>ok. if ok then io_return ()
         else io_bind (io_wrap (Wrapped (name @ '' did not serve the guest program''))
                (io_sleep Context_ended c healthPollInterval)) (\<lambda>_. healthy_loop fuel srv c name base)"
  have rest: "(if er_error r = Some Not_found \<or> er_error r = None \<and> \<not> er_running r then io_fail (ere_exited name)
       else if er_error r \<noteq> None then io_fail (Wrapped (''inspecting '' @ name) (Raw (the (er_error r))))
       else io_bind (probe_health srv c base) ?again) m1 = Some (Inr (), m')"
    using Suc.prems unfolding healthy_loop.simps io_ask_bind [OF r] .
  have ok: "er_error r = None" "er_running r"
    using rest by (auto split: if_splits)
  with rest have "io_bind (probe_health srv c base) ?again m1 = Some (Inr (), m')" by simp
  then obtain ok m2 where p: "probe_health srv c base m1 = Some (Inr ok, m2)" and again: "?again ok m2 = Some (Inr (), m')"
    unfolding io_bind_Inr by blast
  show ?case
  proof (cases ok)
    case True
    from p obtain c' h where h: "call srv c' (Ere_health (ere_url base healthPath)) m1 = (h, m2)" "ok \<longleftrightarrow> \<not> isl (ere_health (er_health h))"
      unfolding probe_health_def io_bind_Inr by auto
    have "ere_health (er_health h) = Inr ()" using h(2) True by (cases "ere_health (er_health h)") auto
    moreover have "saw srv ([(Ere_inspect name, r)] @ [(Ere_health (ere_url base healthPath), h)]) m m2"
      by (intro saw_append [OF saw_call [OF r] saw_call [OF h(1)]])
    then have "saw srv [(Ere_inspect name, r), (Ere_health (ere_url base healthPath), h)] m m2" by (simp only: append.simps)
    moreover have "m' = m2" using again True by simp
    ultimately show ?thesis using ok unfolding served_def by blast
  next
    case False
    with again obtain m3 where s: "io_sleep Context_ended c healthPollInterval m2 = Some (Inr (), m3)"
      and loop: "healthy_loop fuel srv c name base m3 = Some (Inr (), m')"
      by (auto simp: io_bind_Inr)
    have "grows (\<lambda>_. True) m m3"
      using grows_trans [OF grows_trans [OF g1 io_monoD [OF io_mono_probe_health p]] io_monoD [OF io_mono_sleep s]] .
    from served_before [OF this Suc.IH [OF loop]] show ?thesis .
  qed
qed simp

text \<open>The container was removed under a context of its own, as the last thing.\<close>

definition removed_last :: "'w ere_docker \<Rightarrow> string \<Rightarrow> 'w ere_machine \<Rightarrow> 'w ere_machine \<Rightarrow> bool" where
  "removed_last srv name m m' \<longleftrightarrow>
     (\<exists>m1 reply. grows (\<lambda>_. True) m m1 \<and> call srv (Some (clock m1 + removeTimeout)) (Ere_remove name) m1 = (reply, m'))"

lemma removed_last_before: "grows (\<lambda>_. True) m m1 \<Longrightarrow> removed_last srv name m1 m' \<Longrightarrow> removed_last srv name m m'"
  unfolding removed_last_def by (blast intro: grows_trans)

lemma removeContainer_asks: "removeContainer srv c name m = Some (x, m') \<Longrightarrow>
    \<exists>reply. call srv (Some (clock m + removeTimeout)) (Ere_remove name) m = (reply, m')"
  by (auto simp: removeContainer_def io_bind_def io_ask_def with_timeout_def without_cancel_def io_return_def io_fail_def
      split: prod.splits option.splits docker_error.splits)

lemma or_close_Inl:
  assumes "or_close srv c name f m = Some (Inl e, m')" "io_mono f"
  shows "removed_last srv name m m'"
proof -
  from assms(1) obtain r m1 where f: "f m = Some (r, m1)" and
    rest: "(case r of Inl e \<Rightarrow> io_bind (io_try (ere_close srv c name)) (\<lambda>_. io_fail e) | Inr v \<Rightarrow> io_return v) m1 = Some (Inl e, m')"
    unfolding or_close_def io_bind_Inl io_try_iff by blast
  from rest obtain e0 where "r = Inl e0" by (cases r) auto
  with rest obtain x where "ere_close srv c name m1 = Some (x, m')"
    by (auto simp: io_bind_Inl io_try_iff)
  from removeContainer_asks [OF this [unfolded ere_close_def]] io_monoD [OF assms(2) f]
  show ?thesis unfolding removed_last_def by blast
qed

lemma or_close_Inr:
  assumes "or_close srv c name f m = Some (Inr v, m')"
  shows "f m = Some (Inr v, m')"
proof -
  from assms obtain r m1 where "f m = Some (r, m1)" and
    "(case r of Inl e \<Rightarrow> io_bind (io_try (ere_close srv c name)) (\<lambda>_. io_fail e) | Inr v \<Rightarrow> io_return v) m1 = Some (Inr v, m')"
    unfolding or_close_def io_bind_Inr io_try_iff by blast
  then show ?thesis by (cases r) (auto simp: io_bind_Inr)
qed

definition request_failed :: "'w ere_docker \<Rightarrow> string \<Rightarrow> 'w ere_machine \<Rightarrow> bool" where
  "request_failed srv img m' \<longleftrightarrow>
     (\<exists>c q m1 reply. (q = Ere_image img \<or> q = Ere_free_port \<or> (\<exists>name spec. q = Ere_create name spec))
        \<and> call srv c q m1 = (reply, m') \<and> er_error reply \<noteq> None)"

lemma failed_request:
  assumes "ere_must srv c what q m = Some (Inl e, m')" "q = Ere_image img \<or> q = Ere_free_port \<or> (\<exists>name spec. q = Ere_create name spec)"
  shows "request_failed srv img m'"
  using ere_must_Inl [OF assms(1)] assms(2) unfolding request_failed_def by blast

text \<open>The steps behind the creation of the container.\<close>

definition ere_bring_up :: "nat \<Rightarrow> 'w ere_docker \<Rightarrow> ctx \<Rightarrow> string \<Rightarrow> string \<Rightarrow> string \<Rightarrow> bytes \<Rightarrow> ('w, unit) ere_io" where
  "ere_bring_up fuel srv c name base cid elf =
     io_bind (or_close srv c name (ere_must srv c (''attaching to '' @ name) (Ere_attach cid))) (\<lambda>_.
     io_bind (or_close srv c name (feed srv c name cid elf)) (\<lambda>_.
     or_close srv c name (waitHealthy fuel srv c name base)))"

lemma bring_up_Inl:
  assumes "ere_bring_up fuel srv c name base cid elf m = Some (Inl e, m')"
  shows "removed_last srv name m m'"
proof -
  let ?attach = "or_close srv c name (ere_must srv c (''attaching to '' @ name) (Ere_attach cid))"
  from assms consider "?attach m = Some (Inl e, m')"
    | a m1 where "?attach m = Some (Inr a, m1)" "or_close srv c name (feed srv c name cid elf) m1 = Some (Inl e, m')"
    | a m1 u m2 where "?attach m = Some (Inr a, m1)" "or_close srv c name (feed srv c name cid elf) m1 = Some (Inr u, m2)"
        "or_close srv c name (waitHealthy fuel srv c name base) m2 = Some (Inl e, m')"
    unfolding ere_bring_up_def io_bind_Inl by blast
  then show ?thesis
  proof cases
    case 1
    then show ?thesis by (rule or_close_Inl [OF _ io_mono_ere_must])
  next
    case 2
    from removed_last_before [OF io_monoD [OF io_mono_or_close [OF io_mono_ere_must] 2(1)] or_close_Inl [OF 2(2) io_mono_feed]]
    show ?thesis .
  next
    case 3
    from removed_last_before [OF grows_trans [OF io_monoD [OF io_mono_or_close [OF io_mono_ere_must] 3(1)]
      io_monoD [OF io_mono_or_close [OF io_mono_feed] 3(2)]] or_close_Inl [OF 3(3) io_mono_waitHealthy]]
    show ?thesis .
  qed
qed

lemma feed_writes:
  assumes "feed srv c name cid elf m = Some (Inr (), m')"
  shows "\<exists>w closed. saw srv [(Ere_write name elf, w), (Ere_close_stdin name, closed)] m m' \<and> er_error w = None \<and> er_error closed = None"
proof -
  from assms obtain b m1 w m2 closed where b: "call srv c (Ere_begin cid) m = (b, m1)"
    and w: "call srv None (Ere_write name elf) m1 = (w, m2)" "er_error w = None"
    and closed: "call srv None (Ere_close_stdin name) m2 = (closed, m')" "er_error closed = None"
    by (auto simp: feed_def io_bind_Inr)
  have "saw srv ([(Ere_write name elf, w)] @ [(Ere_close_stdin name, closed)]) m1 m'"
    by (intro saw_append [OF saw_call [OF w(1)] saw_call [OF closed(1)]])
  then have "saw srv [(Ere_write name elf, w), (Ere_close_stdin name, closed)] m1 m'" by (simp only: append.simps)
  moreover have "grows (\<lambda>_. True) m m1" using b by (rule grows_call_eq) simp
  ultimately show ?thesis using w(2) closed(2) saw_before by blast
qed

lemma bring_up_Inr:
  assumes "ere_bring_up fuel srv c name base cid elf m = Some (Inr (), m')"
  shows "\<exists>m1 w closed. saw srv [(Ere_write name elf, w), (Ere_close_stdin name, closed)] m m1
    \<and> er_error w = None \<and> er_error closed = None \<and> served srv name base m1 m'"
proof -
  from assms obtain a m1 m2 where
    a: "or_close srv c name (ere_must srv c (''attaching to '' @ name) (Ere_attach cid)) m = Some (Inr a, m1)" and
    f: "feed srv c name cid elf m1 = Some (Inr (), m2)" and h: "waitHealthy fuel srv c name base m2 = Some (Inr (), m')"
    unfolding ere_bring_up_def io_bind_Inr ex_unit by (blast dest: or_close_Inr)
  have "served srv name base m2 m'" using h unfolding waitHealthy_def by (rule healthy_loop_served)
  moreover have "grows (\<lambda>_. True) m m1" by (rule io_monoD [OF io_mono_or_close [OF io_mono_ere_must] a])
  ultimately show ?thesis using feed_writes [OF f] saw_before by blast
qed

lemma ere_start_steps:
  "ere_start fuel srv c img elf =
     io_bind (imageDigest srv c img) (\<lambda>digest.
     io_bind (ere_must srv None (''reserving a port for '' @ img) Ere_free_port) (\<lambda>p.
     io_bind (ere_must srv c (''creating '' @ containerPrefix @ itoa (er_port p))
       (Ere_create (containerPrefix @ itoa (er_port p)) (containerConfig img (er_port p)))) (\<lambda>created.
     io_bind (ere_bring_up fuel srv c (containerPrefix @ itoa (er_port p)) (''http://127.0.0.1:'' @ itoa (er_port p)) (er_id created) elf) (\<lambda>_.
     io_return \<lparr>ev_base = ''http://127.0.0.1:'' @ itoa (er_port p), ev_digest = digest, ev_name = containerPrefix @ itoa (er_port p)\<rparr>))))"
  by (simp only: ere_start_def Let_def ere_bring_up_def io_bind_assoc)


text \<open>A daemon and a server that answer every request.\<close>

definition ere_ready :: "unit ere_docker" where
  "ere_ready q c t w = (\<lparr>er_error = None, er_id = ''c0'', er_digests = [''img@sha256:ab''], er_port = 4174, er_running = True,
     er_health = Answer 200 [] None\<rparr>, 0, w)"


section \<open>The start ends\<close>

lemma probe_health_returns: "probe_health srv c base m \<noteq> None"
  unfolding probe_health_def by (rule io_bind_returns) (simp_all only: io_leaf_returns simp_thms)

lemma healthy_loop_returns:
  "e - clock m < int fuel * healthPollInterval \<Longrightarrow> 0 < fuel \<Longrightarrow> healthy_loop fuel srv (Some e) name base m \<noteq> None"
proof (induction fuel arbitrary: m)
  case (Suc fuel)
  let ?sleep = "io_wrap (Wrapped (name @ '' did not serve the guest program'')) (io_sleep Context_ended (Some e) healthPollInterval)"
  let ?again = "\<lambda>ok. if ok then io_return () else io_bind ?sleep (\<lambda>_. healthy_loop fuel srv (Some e) name base)"
  obtain r m1 where r: "call srv (Some e) (Ere_inspect name) m = (r, m1)" by force
  have c1: "clock m \<le> clock m1" using r by (rule call_clock)
  have loop: "io_bind (probe_health srv (Some e) base) ?again m1 \<noteq> None"
  proof (rule io_bind_returns [OF probe_health_returns])
    fix ok m2 assume p: "probe_health srv (Some e) base m1 = Some (Inr ok, m2)"
    have c2: "clock m1 \<le> clock m2" by (rule grows_clock [OF io_monoD [OF io_mono_probe_health p]])
    have "io_bind ?sleep (\<lambda>_. healthy_loop fuel srv (Some e) name base) m2 \<noteq> None"
    proof (rule io_bind_returns)
      fix u m3 assume "?sleep m2 = Some (Inr u, m3)"
      then have s: "io_sleep Context_ended (Some e) healthPollInterval m2 = Some (Inr (), m3)" by simp
      from io_sleep_Inr [OF s] have m3: "clock m3 = clock m2 + healthPollInterval" "clock m3 < e"
        by (simp_all add: healthPollInterval_def second_def)
      with Suc.prems(1) c1 c2 have gap: "e - clock m3 < int fuel * healthPollInterval" by (simp add: algebra_simps)
      moreover have "0 < fuel" using gap m3(2) by (cases fuel) auto
      ultimately show "healthy_loop fuel srv (Some e) name base m3 \<noteq> None" by (rule Suc.IH)
    qed (simp only: io_leaf_returns simp_thms)
    then show "?again ok m2 \<noteq> None" by (cases ok) (simp_all only: if_True if_False io_leaf_returns simp_thms)
  qed
  have split: "(if a then io_fail x else if b then io_fail y else f) m1 \<noteq> None" if "f m1 \<noteq> None" for a b x y and f :: "('a, unit) ere_io"
    using that by (cases a; cases b) (simp_all only: if_True if_False io_leaf_returns simp_thms)
  show ?case unfolding healthy_loop.simps io_ask_bind [OF r] using loop by (rule split)
qed simp

text \<open>Six hundred polls of two seconds cover the twenty minutes.\<close>

lemma ends_waitHealthy: "600 < fuel \<Longrightarrow> ends (waitHealthy fuel srv c name base)"
proof (rule endsI)
  fix m :: "'a ere_machine"
  assume fuel: "600 < fuel"
  obtain e where e: "with_timeout c startTimeout (clock m) = Some e" "e \<le> clock m + startTimeout"
    by (cases c) (auto simp: with_timeout_def)
  have "601 * healthPollInterval \<le> int fuel * healthPollInterval"
    using fuel by (intro mult_right_mono) (auto simp: healthPollInterval_def second_def)
  then have "e - clock m < int fuel * healthPollInterval"
    using e(2) by (simp add: startTimeout_def healthPollInterval_def second_def)
  then show "waitHealthy fuel srv c name base m \<noteq> None"
    unfolding waitHealthy_def e(1) using fuel by (intro healthy_loop_returns) auto
qed

lemma ends_ere_must: "ends (ere_must srv c what q)"
proof -
  have "ends (case e of None \<Rightarrow> io_return r | Some x \<Rightarrow> io_fail (f x))" for e r f by (cases e) (simp_all add: ends_leaf)
  then show ?thesis unfolding ere_must_def by (intro ends_bind ends_ask)
qed

lemma ends_removeContainer: "ends (removeContainer srv c name)"
proof (rule endsI)
  fix m :: "'a ere_machine"
  have "ends (case er of None \<Rightarrow> io_return () | Some Not_found \<Rightarrow> io_return () | Some e \<Rightarrow> io_fail (Raw e))" for er
    by (simp add: ends_leaf split: option.split docker_error.split)
  then have "ends (io_bind (io_ask srv x (Ere_remove name)) (\<lambda>r. case er_error r of None \<Rightarrow> io_return () | Some Not_found \<Rightarrow> io_return ()
      | Some e \<Rightarrow> io_fail (Raw e)))" for x by (rule ends_bind [OF ends_ask])
  then show "removeContainer srv c name m \<noteq> None" unfolding removeContainer_def by (rule endsD)
qed

lemma ends_or_close: "ends f \<Longrightarrow> ends (or_close srv c name f)"
  unfolding or_close_def ere_close_def by (intro ends_bind ends_try ends_sum ends_leaf ends_removeContainer)

lemma ends_ere_start: "600 < fuel \<Longrightarrow> ends (ere_start fuel srv c img elf)"
  unfolding ere_start_steps ere_bring_up_def imageDigest_def feed_def
  by (intro ends_bind ends_or_close ends_ere_must ends_waitHealthy ends_leaf)

end
