(* ===== verification/Inspect.thy ===== *)
theory Inspect
  imports Hosts Container Wire_Text
begin

text \<open>
  \<open>internal/cluster/inspect.go\<close>: listing the containers of a deployment and leading their log
  lines. \<open>ask\<close> is the daemon of a destination, answering a listing; the age of a container, its
  quoting and the terminal test are parameters. Docker gives a container at least one name and no two
  containers of a host the same one, so the order of a sort that is not stable does not show.
\<close>

section \<open>Ports\<close>

datatype port = Port (port_private: int) (port_ip: string) (port_public: int) (port_type: string)

definition comparePorts :: "port \<Rightarrow> port \<Rightarrow> int" where
  "comparePorts a b =
     cmp_or (cmp_compare (port_private a) (port_private b))
       (cmp_or (cmp_compare (port_ip a) (port_ip b))
         (cmp_or (cmp_compare (port_public a) (port_public b)) (cmp_compare (port_type a) (port_type b))))"

lemma cmp_or_step: "cmp_or (cmp_compare a b) r \<le> 0 \<longleftrightarrow> a < b \<or> a = b \<and> r \<le> 0"
  by (auto simp: cmp_or_def cmp_compare_def)

lemma lex_le: "(a, r) \<le> (b, s) \<longleftrightarrow> a < b \<or> a = b \<and> r \<le> s" for a b :: "'a :: linorder" and r s :: "'b :: linorder"
  by (auto simp: less_eq_prod_simp)

lemma comparePorts_le: "comparePorts a b \<le> 0 \<longleftrightarrow>
    (port_private a, port_ip a, port_public a, port_type a) \<le> (port_private b, port_ip b, port_public b, port_type b)"
  by (simp only: comparePorts_def cmp_or_step cmp_compare_le_0 lex_le)

text \<open>\<open>comparePorts\<close> is a linear order, so sorting by it has one result.\<close>

instantiation port :: linorder
begin

definition less_eq_port :: "port \<Rightarrow> port \<Rightarrow> bool" where
  "a \<le> b \<longleftrightarrow> comparePorts a b \<le> 0"

definition less_port :: "port \<Rightarrow> port \<Rightarrow> bool" where
  "a < b \<longleftrightarrow> comparePorts a b \<le> 0 \<and> \<not> comparePorts b a \<le> 0"

instance
proof
  fix a b c :: port
  show "a < b \<longleftrightarrow> a \<le> b \<and> \<not> b \<le> a" by (simp add: less_port_def less_eq_port_def)
  show "a \<le> a" by (simp add: less_eq_port_def comparePorts_le)
  show "a \<le> b \<Longrightarrow> b \<le> c \<Longrightarrow> a \<le> c" unfolding less_eq_port_def comparePorts_le by (rule order_trans)
  show "a \<le> b \<Longrightarrow> b \<le> a \<Longrightarrow> a = b" unfolding less_eq_port_def comparePorts_le
    by (cases a; cases b) (auto dest: antisym)
  show "a \<le> b \<or> b \<le> a" unfolding less_eq_port_def comparePorts_le by (rule linear)
qed

end

definition port_text :: "port \<Rightarrow> string" where
  "port_text p =
     (let inner = itoa (port_private p) @ ''/'' @ port_type p in
      if port_ip p = [] then inner
      else join_host_port (port_ip p) (itoa (port_public p)) @ ''->'' @ inner)"

definition displayablePorts :: "port list \<Rightarrow> string" where
  "displayablePorts ports = join '', '' (map port_text (sort ports))"

lemma displayablePorts_order: "mset ps = mset qs \<Longrightarrow> displayablePorts ps = displayablePorts qs"
  unfolding displayablePorts_def by (metis properties_for_sort mset_sort sorted_sort)

section \<open>Listings\<close>

record summary =
  sm_names :: "string list"
  sm_image :: string
  sm_command :: string
  sm_status :: string
  sm_ports :: "port list"

record listed =
  l_ssh :: string
  l_name :: string
  l_summary :: summary

datatype list_filter =
    Labelled string
  | Named "string list"

record list_options =
  lo_all :: bool
  lo_filter :: list_filter

type_synonym lister = "string \<Rightarrow> list_options \<Rightarrow> string + summary list"

definition listNode :: "listed \<Rightarrow> string" where
  "listNode l = hostName (l_ssh l)"

definition selectedNames :: "deployed list option \<Rightarrow> string \<Rightarrow> string list option" where
  "selectedNames selection destination =
     (case selection of None \<Rightarrow> None
      | Some ds \<Rightarrow> Some (map d_name (filter (\<lambda>d. d_ssh d = destination) ds)))"

definition listOptions :: "string list option \<Rightarrow> bool \<Rightarrow> list_options" where
  "listOptions names all =
     \<lparr>lo_all = all, lo_filter = (case names of Some (n # ns) \<Rightarrow> Named (n # ns) | _ \<Rightarrow> Labelled provoor_label)\<rparr>"

text \<open>The empty text is no name.\<close>

definition listedName :: "summary \<Rightarrow> string list option \<Rightarrow> string" where
  "listedName s names =
     (case names of
        None \<Rightarrow> trim_prefix ''/'' (hd (sm_names s))
      | Some ns \<Rightarrow> (case find (\<lambda>n. CHR ''/'' # n \<in> set (sm_names s)) ns of None \<Rightarrow> [] | Some n \<Rightarrow> n))"

definition compare_listed :: "listed \<Rightarrow> listed \<Rightarrow> int" where
  "compare_listed a b = cmp_compare (l_name a) (l_name b)"

definition host_listing :: "string \<Rightarrow> string list option \<Rightarrow> summary list \<Rightarrow> listed list" where
  "host_listing destination names summaries =
     sort_stable compare_listed
       (map (\<lambda>s. \<lparr>l_ssh = destination, l_name = listedName s names, l_summary = s\<rparr>)
         (filter (\<lambda>s. listedName s names \<noteq> []) summaries))"

definition listing_error :: "string \<Rightarrow> string \<Rightarrow> string" where
  "listing_error destination e = ''listing containers on '' @ hostName destination @ '': '' @ e"

fun list_loop :: "lister \<Rightarrow> deployed list option \<Rightarrow> bool \<Rightarrow> string list \<Rightarrow> listed list \<Rightarrow> string + listed list" where
  "list_loop ask selection all [] acc = Inr acc"
| "list_loop ask selection all (d # ds) acc =
     (let names = selectedNames selection d in
      if selection \<noteq> None \<and> names = Some [] then list_loop ask selection all ds acc
      else (case ask d (listOptions names all) of
              Inl e \<Rightarrow> Inl (listing_error d e)
            | Inr summaries \<Rightarrow> list_loop ask selection all ds (acc @ host_listing d names summaries)))"

definition listContainers :: "lister \<Rightarrow> 'cli hosts \<Rightarrow> deployed list option \<Rightarrow> bool \<Rightarrow> string + listed list" where
  "listContainers ask hosts selection all = list_loop ask selection all (hostDestinations hosts) []"

section \<open>Tables and logs\<close>

definition commandWidth :: nat where "commandWidth = 20"

text \<open>\<open>ellipsis\<close> is the character U+2026 in UTF-8.\<close>

definition ellipsis :: "string \<Rightarrow> nat \<Rightarrow> string" where
  "ellipsis s width = (if length s \<le> width then s
     else List.take (width - 1) s @ [char_of (226 :: nat), char_of (128 :: nat), char_of (166 :: nat)])"

definition table_row :: "(summary \<Rightarrow> string) \<Rightarrow> (string \<Rightarrow> string) \<Rightarrow> listed \<Rightarrow> string list" where
  "table_row created quote l =
     [listNode l, l_name l, sm_image (l_summary l), quote (ellipsis (sm_command (l_summary l)) commandWidth),
      created (l_summary l) @ '' ago'', sm_status (l_summary l), displayablePorts (sm_ports (l_summary l))]"

definition logColors :: "int list" where
  "logColors = [36, 33, 32, 35, 34, 96, 93, 92, 95, 94]"

definition log_prefix :: "listed \<Rightarrow> string" where
  "log_prefix l = listNode l @ ''/'' @ l_name l"

definition logLead :: "string \<Rightarrow> nat \<Rightarrow> nat \<Rightarrow> bool \<Rightarrow> string" where
  "logLead prefix width i colored =
     (let padded = prefix @ replicate (width - length prefix) CHR '' '' in
      (if colored then CHR 0x1B # ''['' @ itoa (logColors ! (i mod length logColors)) @ ''m'' @ padded @ CHR 0x1B # ''[0m''
       else padded) @ '' | '')"

text \<open>The leads of \<open>StreamLogs\<close>.\<close>

definition log_leads :: "bool \<Rightarrow> listed list \<Rightarrow> string list" where
  "log_leads colored ls =
     (let width = foldr (\<lambda>l w. max (length (log_prefix l)) w) ls 0
      in map (\<lambda>(i, l). logLead (log_prefix l) width i colored) (indexed ls))"

section \<open>What a listing holds\<close>

interpretation listed_order: key_comparator compare_listed l_name
  by unfold_locales (simp add: compare_listed_def)

definition host_result :: "lister \<Rightarrow> deployed list option \<Rightarrow> bool \<Rightarrow> string \<Rightarrow> listed list \<Rightarrow> bool" where
  "host_result ask selection all d xs \<longleftrightarrow>
     (let names = selectedNames selection d in
      if selection \<noteq> None \<and> names = Some [] then xs = []
      else \<exists>ss. ask d (listOptions names all) = Inr ss \<and> xs = host_listing d names ss)"

lemma list_loop_Inr:
  "list_loop ask selection all ds acc = Inr ls \<Longrightarrow> \<exists>xss. ls = acc @ concat xss \<and> list_all2 (host_result ask selection all) ds xss"
proof (induction ds arbitrary: acc)
  case (Cons d ds)
  show ?case
  proof (cases "selection \<noteq> None \<and> selectedNames selection d = Some []")
    case True
    with Cons.prems have "list_loop ask selection all ds acc = Inr ls" by (simp add: Let_def)
    from Cons.IH [OF this] obtain xss where "ls = acc @ concat xss" "list_all2 (host_result ask selection all) ds xss" by blast
    moreover have "host_result ask selection all d []" using True by (simp add: host_result_def)
    ultimately show ?thesis by (intro exI [of _ "[] # xss"]) simp
  next
    case False
    with Cons.prems obtain ss where ss: "ask d (listOptions (selectedNames selection d) all) = Inr ss"
      and rest: "list_loop ask selection all ds (acc @ host_listing d (selectedNames selection d) ss) = Inr ls"
      by (auto simp: Let_def split: sum.splits if_splits)
    from Cons.IH [OF rest] obtain xss where
      "ls = (acc @ host_listing d (selectedNames selection d) ss) @ concat xss" "list_all2 (host_result ask selection all) ds xss" by blast
    moreover have "host_result ask selection all d (host_listing d (selectedNames selection d) ss)"
      using ss False by (auto simp: host_result_def Let_def)
    ultimately show ?thesis by (intro exI [of _ "host_listing d (selectedNames selection d) ss # xss"]) simp
  qed
qed simp

lemma host_listing_entry: "l \<in> set (host_listing d names ss) \<Longrightarrow>
    l_ssh l = d \<and> l_name l = listedName (l_summary l) names \<and> l_name l \<noteq> []"
  by (auto simp: host_listing_def)

lemma host_result_ssh: "host_result ask selection all d xs \<Longrightarrow> l \<in> set xs \<Longrightarrow> l_ssh l = d"
  by (auto simp: host_result_def Let_def host_listing_entry split: if_splits)

lemma filter_concat_hosts:
  assumes "list_all2 P ds xss" "\<And>d xs l. P d xs \<Longrightarrow> l \<in> set xs \<Longrightarrow> l_ssh l = d" "distinct ds"
  shows "(\<forall>d \<in> set ds. P d (filter (\<lambda>l. l_ssh l = d) (concat xss)))
    \<and> concat xss = concat (map (\<lambda>d. filter (\<lambda>l. l_ssh l = d) (concat xss)) ds)
    \<and> (\<forall>l \<in> set (concat xss). l_ssh l \<in> set ds)"
  using assms(1,3)
proof (induction rule: list_all2_induct)
  case (Cons d ds xs xss)
  have xs: "filter (\<lambda>l. l_ssh l = d) xs = xs" "\<And>h. h \<in> set ds \<Longrightarrow> filter (\<lambda>l. l_ssh l = h) xs = []"
    using assms(2) [OF Cons.hyps(1)] Cons.prems by (auto simp: filter_empty_conv intro: filter_True)
  have IH: "\<forall>d \<in> set ds. P d (filter (\<lambda>l. l_ssh l = d) (concat xss))"
    "concat xss = concat (map (\<lambda>d. filter (\<lambda>l. l_ssh l = d) (concat xss)) ds)"
    "\<forall>l \<in> set (concat xss). l_ssh l \<in> set ds" using Cons.IH Cons.prems by auto
  have none: "filter (\<lambda>l. l_ssh l = d) (concat xss) = []"
    using IH(3) Cons.prems unfolding filter_empty_conv by auto
  let ?G = "\<lambda>h. filter (\<lambda>l. l_ssh l = h) (concat (xs # xss))"
  have "map ?G ds = map (\<lambda>h. filter (\<lambda>l. l_ssh l = h) (concat xss)) ds"
    by (rule map_cong) (simp_all add: xs(2))
  then have "concat (map ?G ds) = concat xss" using IH(2) by (simp only:)
  moreover have "?G d = xs" using xs(1) none by simp
  ultimately have "concat (map ?G (d # ds)) = xs @ concat xss" by (simp only: list.map concat.simps)
  moreover have "\<forall>h \<in> set (d # ds). P h (filter (\<lambda>l. l_ssh l = h) (concat (xs # xss)))"
    using xs none IH(1) Cons.hyps(1) by simp
  moreover have "\<forall>l \<in> set (concat (xs # xss)). l_ssh l \<in> set (d # ds)"
    using IH(3) assms(2) [OF Cons.hyps(1)] by auto
  ultimately show ?case by simp
qed simp

lemma listedName_Some:
  assumes "\<forall>n \<in> set ns. n \<noteq> []"
  shows "listedName s (Some ns) \<noteq> [] \<longleftrightarrow> (\<exists>n \<in> set ns. CHR ''/'' # n \<in> set (sm_names s))"
    and "listedName s (Some ns) \<noteq> [] \<Longrightarrow> listedName s (Some ns) \<in> set ns \<and> CHR ''/'' # listedName s (Some ns) \<in> set (sm_names s)"
proof -
  let ?P = "\<lambda>n. CHR ''/'' # n \<in> set (sm_names s)"
  have "(listedName s (Some ns) \<noteq> [] \<longleftrightarrow> (\<exists>n \<in> set ns. ?P n))
    \<and> (listedName s (Some ns) \<noteq> [] \<longrightarrow> listedName s (Some ns) \<in> set ns \<and> ?P (listedName s (Some ns)))"
  proof (cases "find ?P ns")
    case None
    then have "listedName s (Some ns) = []" by (simp add: listedName_def)
    moreover have "\<not> (\<exists>n \<in> set ns. ?P n)" using None by (auto simp: find_None_iff)
    ultimately show ?thesis by blast
  next
    case (Some n)
    then obtain i where "i < length ns" "?P n" "n = ns ! i" by (auto simp: find_Some_iff)
    then have "n \<in> set ns" "?P n" by simp_all
    moreover have "listedName s (Some ns) = n" using Some by (simp add: listedName_def)
    ultimately show ?thesis using assms by auto
  qed
  then show "listedName s (Some ns) \<noteq> [] \<longleftrightarrow> (\<exists>n \<in> set ns. ?P n)"
    and "listedName s (Some ns) \<noteq> [] \<Longrightarrow> listedName s (Some ns) \<in> set ns \<and> ?P (listedName s (Some ns))" by blast+
qed

text \<open>The members of a selection on one host that a container is.\<close>

definition selected_on :: "deployed list \<Rightarrow> string \<Rightarrow> summary \<Rightarrow> bool" where
  "selected_on sel h s \<longleftrightarrow> (\<exists>d \<in> set sel. d_ssh d = h \<and> CHR ''/'' # d_name d \<in> set (sm_names s))"

text \<open>A listing of a selection of named containers holds exactly the containers of the selection that
  their own hosts reported, however much more a daemon's filter by name let through: each under the
  full name the selection gives it, host by host in dial order and by name within a host.\<close>

lemma listing_selected:
  assumes "listContainers ask hosts (Some sel) all = Inr ls" "hosts_ok hosts" "\<forall>d \<in> set sel. d_name d \<noteq> []"
  shows "(\<forall>l \<in> set ls. l_ssh l \<in> set (hostDestinations hosts) \<and> CHR ''/'' # l_name l \<in> set (sm_names (l_summary l))
      \<and> (\<exists>d \<in> set sel. d_ssh d = l_ssh l \<and> d_name d = l_name l))
    \<and> (\<forall>h \<in> set (hostDestinations hosts) \<inter> d_ssh ` set sel. \<exists>ss. ask h (listOptions (selectedNames (Some sel) h) all) = Inr ss
      \<and> mset (map l_summary (filter (\<lambda>l. l_ssh l = h) ls)) = mset (filter (selected_on sel h) ss)
      \<and> sorted (map l_name (filter (\<lambda>l. l_ssh l = h) ls)))
    \<and> ls = concat (map (\<lambda>h. filter (\<lambda>l. l_ssh l = h) ls) (hostDestinations hosts))"
proof -
  let ?names = "\<lambda>h. map d_name (filter (\<lambda>d. d_ssh d = h) sel)"
  have names: "selectedNames (Some sel) h = Some (?names h)" for h by (simp add: selectedNames_def)
  from list_loop_Inr [OF assms(1) [unfolded listContainers_def]] obtain xss where
    eq: "ls = concat xss" and xss: "list_all2 (host_result ask (Some sel) all) (hostDestinations hosts) xss" by auto
  have own: "l_ssh l = d" if "host_result ask (Some sel) all d xs" "l \<in> set xs" for d xs l
    using host_result_ssh that .
  have dist: "distinct (hostDestinations hosts)" using assms(2) by (simp add: hosts_ok_def hostDestinations_def)
  have all: "(\<forall>h \<in> set (hostDestinations hosts). host_result ask (Some sel) all h (filter (\<lambda>l. l_ssh l = h) (concat xss)))
    \<and> concat xss = concat (map (\<lambda>h. filter (\<lambda>l. l_ssh l = h) (concat xss)) (hostDestinations hosts))
    \<and> (\<forall>l \<in> set (concat xss). l_ssh l \<in> set (hostDestinations hosts))"
    by (rule filter_concat_hosts [OF xss _ dist]) (rule own)
  have ls: "\<forall>h \<in> set (hostDestinations hosts). host_result ask (Some sel) all h (filter (\<lambda>l. l_ssh l = h) ls)"
    "ls = concat (map (\<lambda>h. filter (\<lambda>l. l_ssh l = h) ls) (hostDestinations hosts))"
    "\<forall>l \<in> set ls. l_ssh l \<in> set (hostDestinations hosts)"
    unfolding eq using all by blast+
  have good: "\<forall>n \<in> set (?names h). n \<noteq> []" for h using assms(3) by auto
  have on: "listedName s (Some (?names h)) \<noteq> [] \<longleftrightarrow> selected_on sel h s" for s h
    unfolding listedName_Some(1) [OF good] selected_on_def by auto
  have member: "CHR ''/'' # l_name l \<in> set (sm_names (l_summary l)) \<and> (\<exists>d \<in> set sel. d_ssh d = l_ssh l \<and> d_name d = l_name l)"
    if l: "l \<in> set ls" for l
  proof -
    have "host_result ask (Some sel) all (l_ssh l) (filter (\<lambda>k. l_ssh k = l_ssh l) ls)" using ls(1,3) l by blast
    then have "filter (\<lambda>k. l_ssh k = l_ssh l) ls = [] \<or> (\<exists>ss. filter (\<lambda>k. l_ssh k = l_ssh l) ls
        = host_listing (l_ssh l) (Some (?names (l_ssh l))) ss)"
      unfolding host_result_def names Let_def by (auto split: if_splits)
    moreover have mem: "l \<in> set (filter (\<lambda>k. l_ssh k = l_ssh l) ls)" using l by simp
    then have "filter (\<lambda>k. l_ssh k = l_ssh l) ls \<noteq> []" by (metis empty_iff list.set(1))
    ultimately obtain ss where "filter (\<lambda>k. l_ssh k = l_ssh l) ls = host_listing (l_ssh l) (Some (?names (l_ssh l))) ss" by blast
    with mem have entry: "l \<in> set (host_listing (l_ssh l) (Some (?names (l_ssh l))) ss)" by (simp only:)
    have n: "l_name l = listedName (l_summary l) (Some (?names (l_ssh l)))" "l_name l \<noteq> []"
      using host_listing_entry [OF entry] by blast+
    from listedName_Some(2) [OF good, of "l_summary l" "l_ssh l"] n show ?thesis by auto
  qed
  have host: "\<exists>ss. ask h (listOptions (selectedNames (Some sel) h) all) = Inr ss
      \<and> mset (map l_summary (filter (\<lambda>l. l_ssh l = h) ls)) = mset (filter (selected_on sel h) ss)
      \<and> sorted (map l_name (filter (\<lambda>l. l_ssh l = h) ls))"
    if h: "h \<in> set (hostDestinations hosts)" "h \<in> d_ssh ` set sel" for h
  proof -
    have "?names h \<noteq> []" using h(2) by (auto simp: filter_empty_conv)
    from ls(1) h(1) have "host_result ask (Some sel) all h (filter (\<lambda>l. l_ssh l = h) ls)" by blast
    with \<open>?names h \<noteq> []\<close> obtain ss where ss: "ask h (listOptions (selectedNames (Some sel) h) all) = Inr ss"
      and eq: "filter (\<lambda>l. l_ssh l = h) ls = host_listing h (Some (?names h)) ss"
      unfolding host_result_def names Let_def by auto
    have "mset (map l_summary (host_listing h (Some (?names h)) ss)) = mset (filter (selected_on sel h) ss)"
      unfolding host_listing_def on by (simp add: image_mset.compositionality comp_def)
    moreover have "sorted (map l_name (host_listing h (Some (?names h)) ss))"
      unfolding host_listing_def by (rule listed_order.sorted_keys)
    ultimately show ?thesis using ss eq by auto
  qed
  show ?thesis using member host ls(2,3) by blast
qed

text \<open>The leads of a set of log streams are of one width, colors apart.\<close>

lemma log_leads_aligned: "lead \<in> set (log_leads False ls) \<Longrightarrow> lead' \<in> set (log_leads False ls) \<Longrightarrow> length lead = length lead'"
proof -
  let ?w = "foldr (\<lambda>l w. max (length (log_prefix l)) w) ls 0"
  have "l \<in> set ls \<Longrightarrow> length (log_prefix l) \<le> foldr (\<lambda>l w. max (length (log_prefix l)) w) ls 0" for l
    by (induction ls) auto
  then have "length (logLead (log_prefix l) ?w i False) = ?w + 3" if "l \<in> set ls" for i l
    using that by (simp add: logLead_def)
  then have "\<forall>lead \<in> set (log_leads False ls). length lead = ?w + 3"
    unfolding log_leads_def Let_def set_map set_indexed by auto
  then show "lead \<in> set (log_leads False ls) \<Longrightarrow> lead' \<in> set (log_leads False ls) \<Longrightarrow> length lead = length lead'" by simp
qed

end
