(* ===== verification/Guests.thy ===== *)
theory Guests
  imports Daemon
begin

text \<open>
  \<open>internal/cluster/guest.go\<close>: reading a guest's ELF and verifying key from a path or a URL, and
  its name. The file system and HTTP are the parameters \<open>readFile\<close> and \<open>fetch\<close>; the path of a
  parsed URL is the parameter \<open>url_path\<close>, \<open>None\<close> where it does not parse.
\<close>

definition isURL :: "string \<Rightarrow> bool" where
  "isURL source \<longleftrightarrow> has_prefix ''http://'' source \<or> has_prefix ''https://'' source"

text \<open>What a GET comes to: no request, no response, or a status with a body that may fail to arrive.\<close>

datatype fetched =
    Bad_request string
  | No_response string
  | Response nat string "string + bytes"

definition resolveSource :: "(string \<Rightarrow> string + bytes) \<Rightarrow> (string \<Rightarrow> fetched) \<Rightarrow> string \<Rightarrow> deploy_error + bytes" where
  "resolveSource readFile fetch source =
     (if \<not> isURL source then (case readFile source of Inl e \<Rightarrow> Inl (Message e) | Inr b \<Rightarrow> Inr b)
      else (case fetch source of
              Bad_request e \<Rightarrow> Inl (Message e)
            | No_response e \<Rightarrow> Inl (Wrapped (''fetching '' @ source) (Message e))
            | Response code status body \<Rightarrow>
                if code \<noteq> 200 then Inl (Message (''fetching '' @ source @ '': status '' @ status))
                else (case body of
                        Inl e \<Rightarrow> Inl (Wrapped (''fetching '' @ source) (Message e))
                      | Inr b \<Rightarrow> Inr b)))"

definition ResolveGuest :: "(string \<Rightarrow> deploy_error + bytes) \<Rightarrow> guest \<Rightarrow> deploy_error + (bytes \<times> bytes)" where
  "ResolveGuest resolve g =
     rbind (resolve (guest_elf g)) (\<lambda>elf. rbind (resolve (guest_vk g)) (\<lambda>vk. Inr (elf, vk)))"

text \<open>\<open>path.Base\<close>\<close>

definition path_base :: "string \<Rightarrow> string" where
  "path_base p =
     (if p = [] then ''.''
      else let q = rev (dropWhile (\<lambda>c. c = CHR ''/'') (rev p)) in
           if q = [] then ''/'' else rev (takeWhile (\<lambda>c. c \<noteq> CHR ''/'') (rev q)))"

definition guestELFName :: "(string \<Rightarrow> string option) \<Rightarrow> string \<Rightarrow> string" where
  "guestELFName url_path source =
     (let p = (if isURL source then (case url_path source of Some p \<Rightarrow> p | None \<Rightarrow> source) else source)
      in trim_suffix ''.elf'' (path_base p))"

end
