(* ===== verification/Zisk_Config.thy ===== *)
theory Zisk_Config
  imports Hosts
begin

text \<open>
  \<open>internal/zisk/config.go\<close>: the configuration of a ZisK cluster, its defaults, its
  validation and the containers it deploys. The last check of \<open>validate\<close> ranges over a Go
  map, whose order the runtime picks on every run: it is the parameter \<open>ord\<close>, any
  permutation of the settings.
\<close>

record zisk_worker =
  zw_node :: node
  zw_gpu :: gpu

record zisk_prover =
  shm_size_gb :: int
  mpi_np :: int
  mpi_numa_ppr :: int
  mpi_threads :: int
  max_streams :: int
  number_threads_witness :: int
  max_witness_stored :: int
  minimal_memory :: bool
  cpu_mops :: bool

record zisk_config =
  zc_cluster :: cluster_config
  zc_workers :: "zisk_worker list"
  zc_prover :: zisk_prover

definition zisk_coordinatorContainer :: string where
  "zisk_coordinatorContainer = ''zisk-coordinator''"
definition zisk_workerContainer :: string where
  "zisk_workerContainer = ''zisk-worker''"

definition zisk_setDefaults :: "zisk_config \<Rightarrow> zisk_config" where
  "zisk_setDefaults cfg =
     (let c1 = cfg\<lparr>zc_cluster := cc_setDefaults (zc_cluster cfg)\<rparr>;
          c2 = (if shm_size_gb (zc_prover c1) = 0
                then c1\<lparr>zc_prover := (zc_prover c1)\<lparr>shm_size_gb := 64\<rparr>\<rparr> else c1)
      in if mpi_np (zc_prover c2) = 0
         then c2\<lparr>zc_prover := (zc_prover c2)\<lparr>mpi_np := 1\<rparr>\<rparr> else c2)"

definition zisk_destinations :: "zisk_config \<Rightarrow> string list" where
  "zisk_destinations cfg =
     node_ssh (coordinator (zc_cluster cfg)) # map (\<lambda>w. node_ssh (zw_node w)) (zc_workers cfg)"

fun zisk_workers_check ::
  "node \<Rightarrow> string set \<Rightarrow> (nat \<times> zisk_worker) list \<Rightarrow> config_error + unit" where
  "zisk_workers_check coord seenSSH [] = Inr ()"
| "zisk_workers_check coord seenSSH ((i, w) # rest) =
     (if node_ssh (zw_node w) \<in> seenSSH then Inl (Worker_host_duplicate (node_ssh (zw_node w)))
      else rbind (validateColocation coord (zw_node w)) (\<lambda>_.
        rbind (rmap_err (Worker_error i) (gpu_validate (zw_gpu w))) (\<lambda>_.
          zisk_workers_check coord (insert (node_ssh (zw_node w)) seenSSH) rest)))"

definition zisk_settings :: "zisk_prover \<Rightarrow> (string \<times> int) list" where
  "zisk_settings p =
     [(''shm_size_gb'', shm_size_gb p), (''mpi_np'', mpi_np p), (''mpi_numa_ppr'', mpi_numa_ppr p),
      (''mpi_threads'', mpi_threads p), (''max_streams'', max_streams p),
      (''number_threads_witness'', number_threads_witness p),
      (''max_witness_stored'', max_witness_stored p)]"

type_synonym map_order = "(string \<times> int) list \<Rightarrow> (string \<times> int) list"

definition zisk_validate :: "map_order \<Rightarrow> zisk_config \<Rightarrow> config_error + unit" where
  "zisk_validate ord cfg =
     rbind (cc_validate (zc_cluster cfg) ''zisk'') (\<lambda>_.
       if zc_workers cfg = [] then Inl Worker_required
       else
         rbind (telemetry_validate (telemetry (zc_cluster cfg)) (zisk_destinations cfg)) (\<lambda>_.
         rbind (zisk_workers_check (coordinator (zc_cluster cfg)) {} (indexed (zc_workers cfg))) (\<lambda>_.
         rfor (\<lambda>(name, value). if value < 0 then Inl (Setting_negative name value) else Inr ())
           (ord (zisk_settings (zc_prover cfg))))))"

definition zisk_containers :: "zisk_config \<Rightarrow> deployed list" where
  "zisk_containers cfg =
     \<lparr>d_ssh = node_ssh (coordinator (zc_cluster cfg)), d_name = zisk_coordinatorContainer,
      d_label = CoordinatorName, d_sidecar = False\<rparr>
     # map (\<lambda>(i, w). \<lparr>d_ssh = node_ssh (zw_node w), d_name = zisk_workerContainer,
              d_label = workerName i (zw_gpu w), d_sidecar = False\<rparr>) (indexed (zc_workers cfg))
     @ sidecars_deployed (telemetry (zc_cluster cfg))"

section \<open>What validation accepts\<close>

definition gpu_ok :: "gpu \<Rightarrow> bool" where
  "gpu_ok g \<longleftrightarrow> device_ids g \<noteq> [] \<and> (\<forall>d \<in> set (device_ids g). 0 \<le> d) \<and> distinct (device_ids g)"

definition zisk_worker_ok :: "node \<Rightarrow> zisk_worker \<Rightarrow> bool" where
  "zisk_worker_ok coord w \<longleftrightarrow>
     (node_ssh (zw_node w) = node_ssh coord \<or> node_ip coord \<noteq> []) \<and> gpu_ok (zw_gpu w)"

definition zisk_ok :: "zisk_config \<Rightarrow> bool" where
  "zisk_ok cfg \<longleftrightarrow> cc_ok (zc_cluster cfg) ''zisk'' \<and> zc_workers cfg \<noteq> []
     \<and> (\<forall>s \<in> set (sidecars (telemetry (zc_cluster cfg))). sidecar_ok (set (zisk_destinations cfg)) s)
     \<and> distinct (map (\<lambda>s. (sc_ssh s, sc_kind s)) (sidecars (telemetry (zc_cluster cfg))))
     \<and> distinct (map (\<lambda>w. node_ssh (zw_node w)) (zc_workers cfg))
     \<and> (\<forall>w \<in> set (zc_workers cfg). zisk_worker_ok (coordinator (zc_cluster cfg)) w)
     \<and> (\<forall>(name, value) \<in> set (zisk_settings (zc_prover cfg)). 0 \<le> value)"

lemma zisk_workers_check_iff:
  "zisk_workers_check coord seen iws = Inr u \<longleftrightarrow>
     (\<forall>w \<in> set (map snd iws). zisk_worker_ok coord w)
     \<and> fresh_keys seen (map (\<lambda>w. node_ssh (zw_node w)) (map snd iws))"
proof (induction iws arbitrary: seen)
  case (Cons x iws)
  then show ?case
    by (cases x) (auto simp: res_simps colocation_iff gpu_validate_iff zisk_worker_ok_def gpu_ok_def)
qed simp

lemma zisk_validate_accepts:
  assumes "mset (ord (zisk_settings (zc_prover cfg))) = mset (zisk_settings (zc_prover cfg))"
  shows "zisk_validate ord cfg = Inr () \<longleftrightarrow> zisk_ok cfg"
proof -
  from assms have "set (ord (zisk_settings (zc_prover cfg))) = set (zisk_settings (zc_prover cfg))"
    by (rule mset_eq_setD)
  moreover have "rfor (\<lambda>(name, value). if value < 0 then Inl (Setting_negative name value) else Inr ()) xs
      = Inr () \<longleftrightarrow> (\<forall>(name, value) \<in> set xs. 0 \<le> value)" for xs
    by (auto simp: res_simps split: if_splits)
  moreover have "zisk_workers_check (coordinator (zc_cluster cfg)) {} (indexed (zc_workers cfg)) = Inr ()
      \<longleftrightarrow> (\<forall>w \<in> set (zc_workers cfg). zisk_worker_ok (coordinator (zc_cluster cfg)) w)
        \<and> distinct (map (\<lambda>w. node_ssh (zw_node w)) (zc_workers cfg))"
    unfolding zisk_workers_check_iff map_snd_indexed by simp
  ultimately show ?thesis
    by (simp add: zisk_validate_def zisk_ok_def rbind_Inr_iff cc_validate_iff telemetry_validate_iff)
      blast
qed

section \<open>The deployed containers\<close>

lemma zisk_one_per_name:
  assumes "zisk_ok cfg"
  shows "distinct (map (\<lambda>d. (d_ssh d, d_name d)) (zisk_containers cfg))"
proof -
  let ?key = "\<lambda>d. (d_ssh d, d_name d)" and ?side = "sidecars (telemetry (zc_cluster cfg))"
  have kinds: "\<forall>s \<in> set ?side. sc_kind s \<in> {sidecarDCGM, sidecarNode}"
    using assms by (auto simp: zisk_ok_def sidecar_ok_def)
  have pre: "n \<noteq> sidecarName (sc_kind s) h" if "s \<in> set ?side" "\<not> has_prefix ''provoor-'' n" for n s h
    using that kinds sidecarName_prefix by auto
  have ws: "map ?key (map (\<lambda>(i, w). \<lparr>d_ssh = node_ssh (zw_node w), d_name = zisk_workerContainer,
      d_label = workerName i (zw_gpu w), d_sidecar = False\<rparr>) (indexed (zc_workers cfg)))
    = map (\<lambda>w. (node_ssh (zw_node w), zisk_workerContainer)) (zc_workers cfg)"
    using map_indexed_snd [of "\<lambda>w. (node_ssh (zw_node w), zisk_workerContainer)" "zc_workers cfg"]
    by (simp add: comp_def case_prod_unfold)
  have "distinct (map (\<lambda>w. node_ssh (zw_node w)) (zc_workers cfg))"
    using assms by (simp add: zisk_ok_def)
  then have dw: "distinct (map (\<lambda>w. (node_ssh (zw_node w), zisk_workerContainer)) (zc_workers cfg))"
    by (rule distinct_map_finer) simp
  have ds: "distinct (map ?key (sidecars_deployed (telemetry (zc_cluster cfg))))"
    using sidecar_names_distinct [OF _ kinds] assms
    by (simp add: sidecars_deployed_def zisk_ok_def comp_def)
  have nc: "\<not> has_prefix ''provoor-'' zisk_coordinatorContainer" "\<not> has_prefix ''provoor-'' zisk_workerContainer"
    "zisk_coordinatorContainer \<noteq> zisk_workerContainer"
    by (simp_all add: has_prefix_def zisk_coordinatorContainer_def zisk_workerContainer_def)
  show ?thesis
    unfolding zisk_containers_def list.map map_append distinct.simps distinct_append ws
    using dw ds nc pre by (auto simp: sidecars_deployed_def)
qed

lemma zisk_one_per_label:
  "distinct (map d_label (filter (\<lambda>d. \<not> d_sidecar d) (zisk_containers cfg)))"
proof -
  let ?w = "\<lambda>(i, w). \<lparr>d_ssh = node_ssh (zw_node w), d_name = zisk_workerContainer,
      d_label = workerName i (zw_gpu w), d_sidecar = False\<rparr>"
  have all: "filter (\<lambda>d. \<not> d_sidecar d) (map ?w (indexed (zc_workers cfg)))
      = map ?w (indexed (zc_workers cfg))"
    by (rule filter_True) (auto simp: case_prod_beta)
  have "distinct (map (d_label \<circ> ?w) (indexed (zc_workers cfg)))"
    by (rule distinct_indexed_keys) (auto dest: workerName_index_inj)
  moreover have "CoordinatorName \<notin> set (map (d_label \<circ> ?w) (indexed (zc_workers cfg)))"
    using workerName_not_coordinator by (auto simp: case_prod_beta) metis
  ultimately show ?thesis by (simp add: zisk_containers_def all)
qed

interpretation zisk_backend: backend zisk_containers zisk_destinations zisk_ok
proof
  fix cfg d
  assume ok: "zisk_ok cfg"
  show "\<exists>d ds. zisk_containers cfg = d # ds \<and> d_label d = CoordinatorName \<and> \<not> d_sidecar d"
    by (simp add: zisk_containers_def)
  show "distinct (map (\<lambda>d. (d_ssh d, d_name d)) (zisk_containers cfg))"
    using ok by (rule zisk_one_per_name)
  show "distinct (map d_label (filter (\<lambda>d. \<not> d_sidecar d) (zisk_containers cfg)))"
    by (rule zisk_one_per_label)
  assume "d \<in> set (zisk_containers cfg)"
  with ok show "d_ssh d \<in> set (zisk_destinations cfg)"
    by (auto simp: zisk_containers_def zisk_destinations_def zisk_ok_def sidecar_ok_def
        sidecars_deployed_def set_indexed)
qed


section \<open>What a validated deployment has\<close>

definition zisk_sample :: zisk_config where
  "zisk_sample =
     \<lparr>zc_cluster = \<lparr>cc_zkvm = ''zisk'', zkvm_version = ''0.15.0'', image = [], image_tag = [], verbose = 1,
        guests = [\<lparr>guest_elf = ''g.elf'', guest_vk = ''g.vk''\<rparr>],
        coordinator = \<lparr>node_ssh = ''a'', node_ip = ''10.0.0.1''\<rparr>,
        telemetry = \<lparr>interval_ms = 0, sidecars = [\<lparr>sc_ssh = ''b'', sc_kind = sidecarNode, nv_hostengine = []\<rparr>]\<rparr>\<rparr>,
      zc_workers = [\<lparr>zw_node = \<lparr>node_ssh = ''a'', node_ip = []\<rparr>, zw_gpu = \<lparr>device_ids = [0, 1]\<rparr>\<rparr>,
        \<lparr>zw_node = \<lparr>node_ssh = ''b'', node_ip = []\<rparr>, zw_gpu = \<lparr>device_ids = [0]\<rparr>\<rparr>],
      zc_prover = \<lparr>shm_size_gb = 64, mpi_np = 1, mpi_numa_ppr = 0, mpi_threads = 0, max_streams = 0,
        number_threads_witness = 0, max_witness_stored = 4, minimal_memory = True, cpu_mops = False\<rparr>\<rparr>"

text \<open>C27: ZisK validation accepts a configuration exactly when the shared settings hold, there is a worker, every sidecar runs a known kind on a host
  the deployment dials, no worker host and no (host, kind) of a sidecar repeats, every worker off the
  coordinator's host can reach its address, device ids are distinct and non-negative, and no prover
  setting is negative, whatever order the runtime ranges over the settings in.\<close>

theorem zisk_validation:
  assumes "mset (ord (zisk_settings (zc_prover cfg))) = mset (zisk_settings (zc_prover cfg))"
  shows "zisk_validate ord cfg = Inr () \<longleftrightarrow> zisk_ok cfg"
  using assms by (rule zisk_validate_accepts)

lemma zisk_sample_ok: "zisk_ok zisk_sample"
  by code_simp

theorem zisk_validation_witness: "zisk_validate rev zisk_sample = Inr ()"
  using zisk_validation [of rev zisk_sample] zisk_sample_ok by simp

text \<open>A validated ZisK configuration whose destinations were dialed lists the coordinator first,
  has a client for every container it lists, gives every container its own name on its host, and
  would dump the journals of different containers into different files.\<close>

theorem zisk_deployment:
  assumes "mset (ord (zisk_settings (zc_prover cfg))) = mset (zisk_settings (zc_prover cfg))"
    and "zisk_validate ord cfg = Inr ()"
    and "dialHosts dial ping (zisk_destinations cfg) = Inr h"
  shows "d_label (hd (zisk_containers cfg)) = CoordinatorName
    \<and> (\<forall>d. d \<in> set (zisk_containers cfg) \<longrightarrow> hostClient h (d_ssh d) \<noteq> None)
    \<and> (\<forall>d e. d \<in> set (zisk_containers cfg) \<longrightarrow> e \<in> set (zisk_containers cfg) \<longrightarrow>
        d_ssh d = d_ssh e \<longrightarrow> d_name d = d_name e \<longrightarrow> d = e)
    \<and> distinct (List.map_filter journalFile (zisk_containers cfg))"
proof -
  from assms(1,2) have ok: "zisk_ok cfg" by (simp add: zisk_validate_accepts)
  show ?thesis
    using zisk_backend.coordinator_first [OF ok] zisk_backend.listed_has_client [OF ok assms(3)]
      zisk_backend.name_identifies [OF ok] zisk_backend.journal_files_distinct [OF ok]
    by auto
qed

theorem zisk_deployment_witness:
  "\<exists>h. dialHosts (\<lambda>d. Inr d) (\<lambda>_. None :: unit option) (zisk_destinations zisk_sample) = Inr h
     \<and> hostClient h ''b'' = Some ''b'' \<and> d_label (hd (zisk_containers zisk_sample)) = CoordinatorName"
proof -
  have "\<exists>h. dialHosts (\<lambda>d. Inr d) (\<lambda>_. None :: unit option) (zisk_destinations zisk_sample) = Inr h
      \<and> hostClient h ''b'' = Some ''b''"
    by (simp add: dialHosts_def zisk_destinations_def zisk_sample_def no_hosts_def hostClient_def)
  moreover have "zisk_validate id zisk_sample = Inr ()"
    using zisk_sample_ok by (simp add: zisk_validate_accepts)
  ultimately show ?thesis using zisk_deployment [of id zisk_sample] by fastforce
qed

end
