(* ===== verification/Commands.thy ===== *)
theory Commands
  imports Inspect Serve_Provers Guests Zisk_Config Openvm_Config
begin

text \<open>
  \<open>cmd/provoor/main.go\<close>: what the commands do with the packages, from the configuration file to
  the open port. Reading a file and decoding YAML are the parameters \<open>readFile\<close>, \<open>peek\<close>
  and \<open>yaml\<close>. Flag parsing, the printed lines, the HTTP server behind the open port and the
  signals are left out.
\<close>

section \<open>Loading a configuration\<close>

datatype load_error =
    Load_failed string
  | Invalid_config string config_error

definition zkvm_of :: "(string \<Rightarrow> string + bytes) \<Rightarrow> (bytes \<Rightarrow> string + string) \<Rightarrow> string \<Rightarrow> load_error + string" where
  "zkvm_of readFile peek path =
     rbind (rmap_err Load_failed (readFile path)) (\<lambda>raw.
       rmap_err (\<lambda>e. Load_failed (''parsing '' @ path @ '': '' @ e)) (peek raw))"

definition decode_config :: "(string \<Rightarrow> string + bytes) \<Rightarrow> (bytes \<Rightarrow> string + 'cfg) \<Rightarrow> string \<Rightarrow> load_error + 'cfg" where
  "decode_config readFile yaml path =
     rbind (rmap_err Load_failed (readFile path)) (\<lambda>raw.
       rmap_err (\<lambda>e. Load_failed (''parsing '' @ path @ '': '' @ e)) (yaml raw))"

definition zisk_load ::
  "map_order \<Rightarrow> (string \<Rightarrow> string + bytes) \<Rightarrow> (bytes \<Rightarrow> string + zisk_config) \<Rightarrow> string \<Rightarrow> load_error + zisk_config" where
  "zisk_load ord readFile yaml path =
     rbind (decode_config readFile yaml path) (\<lambda>raw. let cfg = zisk_setDefaults raw in
       rbind (rmap_err (Invalid_config path) (zisk_validate ord cfg)) (\<lambda>_. Inr cfg))"

definition openvm_load ::
  "map_order \<Rightarrow> (string \<Rightarrow> string + bytes) \<Rightarrow> (bytes \<Rightarrow> string + openvm_config) \<Rightarrow> string \<Rightarrow> load_error + openvm_config" where
  "openvm_load ord readFile yaml path =
     rbind (decode_config readFile yaml path) (\<lambda>raw. let cfg = openvm_setDefaults raw in
       rbind (rmap_err (Invalid_config path) (openvm_validate ord cfg)) (\<lambda>_. Inr cfg))"

datatype loaded =
    Zisk_backend zisk_config
  | Openvm_backend openvm_config

definition unsupported_zkvm :: "string \<Rightarrow> string" where
  \<open>unsupported_zkvm z = ''zkvm "'' @ z @ ''" is not supported, only zisk and openvm''\<close>

definition loadBackend ::
  "map_order \<Rightarrow> (string \<Rightarrow> string + bytes) \<Rightarrow> (bytes \<Rightarrow> string + string) \<Rightarrow> (bytes \<Rightarrow> string + zisk_config)
    \<Rightarrow> (bytes \<Rightarrow> string + openvm_config) \<Rightarrow> string \<Rightarrow> load_error + loaded" where
  "loadBackend ord readFile peek zyaml oyaml path =
     rbind (zkvm_of readFile peek path) (\<lambda>z.
       if z = ''zisk'' then rbind (zisk_load ord readFile zyaml path) (\<lambda>cfg. Inr (Zisk_backend cfg))
       else if z = ''openvm'' then rbind (openvm_load ord readFile oyaml path) (\<lambda>cfg. Inr (Openvm_backend cfg))
       else Inl (Load_failed (unsupported_zkvm z)))"

fun backend_containers :: "loaded \<Rightarrow> deployed list" where
  "backend_containers (Zisk_backend cfg) = zisk_containers cfg"
| "backend_containers (Openvm_backend cfg) = openvm_containers cfg"

section \<open>Listing\<close>

definition selectContainers :: "(string \<Rightarrow> load_error + loaded) \<Rightarrow> string \<Rightarrow> load_error + deployed list option" where
  "selectContainers load path =
     (if path = [] then Inr None else rbind (load path) (\<lambda>b. Inr (Some (backend_containers b))))"

definition list_command ::
  "(string \<Rightarrow> load_error + loaded) \<Rightarrow> (string \<Rightarrow> string + 'cli) \<Rightarrow> ('cli \<Rightarrow> string option) \<Rightarrow> (string dial_error \<Rightarrow> string)
    \<Rightarrow> lister \<Rightarrow> string \<Rightarrow> bool \<Rightarrow> load_error + listed list" where
  "list_command load dial ping show ask path all =
     rbind (selectContainers load path) (\<lambda>selection.
       case dialHosts dial ping (dialSelection selection) of
         Inl (e, _) \<Rightarrow> Inl (Load_failed (show e))
       | Inr hosts \<Rightarrow> rmap_err Load_failed (listContainers ask hosts selection all))"

text \<open>\<open>psCommand\<close> and \<open>logsCommand\<close>: a table's rows, and the containers whose logs are
  streamed, with the text that leads each one's lines.\<close>

definition psCommand ::
  "(string \<Rightarrow> load_error + loaded) \<Rightarrow> (string \<Rightarrow> string + 'cli) \<Rightarrow> ('cli \<Rightarrow> string option) \<Rightarrow> (string dial_error \<Rightarrow> string)
    \<Rightarrow> lister \<Rightarrow> (summary \<Rightarrow> string) \<Rightarrow> (string \<Rightarrow> string) \<Rightarrow> string \<Rightarrow> bool \<Rightarrow> load_error + string list list" where
  "psCommand load dial ping show ask created quote path all =
     rbind (list_command load dial ping show ask path all) (\<lambda>ls. Inr (map (table_row created quote) ls))"

definition logsCommand ::
  "(string \<Rightarrow> load_error + loaded) \<Rightarrow> (string \<Rightarrow> string + 'cli) \<Rightarrow> ('cli \<Rightarrow> string option) \<Rightarrow> (string dial_error \<Rightarrow> string)
    \<Rightarrow> lister \<Rightarrow> bool \<Rightarrow> string \<Rightarrow> load_error + (listed \<times> string) list" where
  "logsCommand load dial ping show ask colored path =
     rbind (list_command load dial ping show ask path True) (\<lambda>ls. Inr (zip ls (log_leads colored ls)))"

section \<open>Estimating\<close>

definition bad_concurrency :: "int \<Rightarrow> string" where
  "bad_concurrency n = ''concurrency '' @ itoa n @ '' is not a positive count''"

definition estimate_command :: "int \<Rightarrow> (unit \<Rightarrow> string + 'a) \<Rightarrow> string + 'a" where
  "estimate_command concurrency run = (if concurrency < 1 then Inl (bad_concurrency concurrency) else run ())"

section \<open>Serving\<close>

record serve_flags =
  sf_zkvm :: string
  sf_elf :: string
  sf_vk :: string
  sf_timeout :: int
  sf_on_error :: string

datatype 'e serve_end =
    Bad_flags string
  | Unresolved deploy_error
  | Not_dialed 'e
  | Not_ready 'e
  | Not_warm "'e + bytes"
  | Port_open

definition unsupported_error_mode :: "string \<Rightarrow> string" where
  \<open>unsupported_error_mode m = ''on-cluster-error "'' @ m @ ''" is not fail-test or fail-run''\<close>

definition flags_error :: "serve_flags \<Rightarrow> string option" where
  "flags_error f =
     (if sf_zkvm f \<noteq> ''zisk'' \<and> sf_zkvm f \<noteq> ''openvm'' then Some (unsupported_zkvm (sf_zkvm f))
      else if sf_on_error f \<noteq> ''fail-test'' \<and> sf_on_error f \<noteq> ''fail-run'' then Some (unsupported_error_mode (sf_on_error f))
      else None)"

definition config_of_flags :: "(string \<Rightarrow> string option) \<Rightarrow> serve_flags \<Rightarrow> serve_config" where
  "config_of_flags url_path f = \<lparr>clientVersion = guestELFName url_path (sf_elf f), prove_timeout = sf_timeout f,
     failRunOnClusterError = (sf_on_error f = ''fail-run'')\<rparr>"

text \<open>The command up to the open port, on the client of either zkVM: the dial, the wait and the warmup
  come before it.\<close>

definition serve_until_open ::
  "(string \<Rightarrow> deploy_error + bytes) \<Rightarrow> (string \<Rightarrow> string option)
    \<Rightarrow> (bytes \<Rightarrow> bytes \<Rightarrow> ('q, 'w) machine \<Rightarrow> (('e + 'cl) \<times> ('q, 'w) machine) option)
    \<Rightarrow> ('cl \<Rightarrow> ('e, 'q, 'w) ready_fun) \<Rightarrow> ('cl \<Rightarrow> ('e, 'q, 'w) prove_fun)
    \<Rightarrow> bytes \<Rightarrow> ctx \<Rightarrow> serve_flags \<Rightarrow> ('q, 'w) server_state \<Rightarrow> ('e serve_end \<times> ('q, 'w) server_state) option" where
  "serve_until_open resolve url_path dial ready prove warmupInput c f st =
     (case flags_error f of
        Some e \<Rightarrow> Some (Bad_flags e, st)
      | None \<Rightarrow>
     (case resolve (sf_elf f) of
        Inl e \<Rightarrow> Some (Unresolved e, st)
      | Inr elf \<Rightarrow>
     (case resolve (sf_vk f) of
        Inl e \<Rightarrow> Some (Unresolved e, st)
      | Inr vk \<Rightarrow>
     (case dial elf vk (sv_machine st) of
        None \<Rightarrow> None
      | Some (Inl e, m) \<Rightarrow> Some (Not_dialed e, st\<lparr>sv_machine := m\<rparr>)
      | Some (Inr cl, m) \<Rightarrow>
     (case ready cl c m of
        None \<Rightarrow> None
      | Some (Inl e, m1) \<Rightarrow> Some (Not_ready e, st\<lparr>sv_machine := m1\<rparr>)
      | Some (Inr _, m1) \<Rightarrow>
     (case warmup (prove cl) (config_of_flags url_path f) warmupInput c (st\<lparr>sv_machine := m1\<rparr>) of
        None \<Rightarrow> None
      | Some (None, st1) \<Rightarrow> Some (Port_open, st1)
      | Some (Some e, st1) \<Rightarrow> Some (Not_warm e, st1)))))))"

text \<open>The two cases of the switch. A dial starts with no freed handle, and the handles are not kept.\<close>

definition zisk_serve where
  "zisk_serve resolve url_path fuel srv pn conn_ok ord lib endpoint warmupInput c f st =
     serve_until_open resolve url_path
       (\<lambda>elf vk m. map_option (\<lambda>(r, _, m1). (r, m1)) (zisk_dial fuel srv pn conn_ok lib c endpoint elf vk [] m))
       (\<lambda>_. zisk_ready_fun) (\<lambda>cl. zisk_prove fuel srv pn ord lib cl) warmupInput c f st"

definition openvm_serve where
  "openvm_serve resolve url_path fuel srv js parse lib sha256 draw warmupInput c f st =
     serve_until_open resolve url_path
       (\<lambda>elf vk m. case openvm_dial srv lib sha256 c elf vk [] m of (r, _, m1) \<Rightarrow> Some (r, m1))
       (\<lambda>_. openvm_waitReady fuel srv) (\<lambda>cl. openvm_prove fuel srv js parse lib draw cl) warmupInput c f st"

section \<open>What a loaded configuration gives\<close>

fun backend_ok :: "loaded \<Rightarrow> bool" where
  "backend_ok (Zisk_backend cfg) \<longleftrightarrow> zisk_ok cfg"
| "backend_ok (Openvm_backend cfg) \<longleftrightarrow> openvm_ok cfg"

lemma loadBackend_ok:
  assumes "\<And>xs. mset (ord xs) = mset xs" "loadBackend ord readFile peek zyaml oyaml path = Inr b"
  shows "backend_ok b"
  using assms(2) zisk_validate_accepts [of ord] openvm_validate_accepts [of ord] assms(1)
  by (auto simp: loadBackend_def zisk_load_def openvm_load_def rbind_Inr_iff rmap_err_Inr_iff Let_def split: if_splits)

lemma sidecar_named: "d \<in> set (sidecars_deployed t) \<Longrightarrow> \<forall>s \<in> set (sidecars t). sidecar_ok ds s \<Longrightarrow> d_name d \<noteq> []"
  by (auto simp: sidecars_deployed_def sidecarName_def sidecarPrefix_def sidecar_ok_def sidecarDCGM_def sidecarNode_def)

lemma backend_named:
  assumes "backend_ok b" "d \<in> set (backend_containers b)"
  shows "d_name d \<noteq> []"
proof (cases b)
  case (Zisk_backend cfg)
  with assms sidecar_named [of d "telemetry (zc_cluster cfg)" "set (zisk_destinations cfg)"] show ?thesis
    by (auto simp: zisk_containers_def zisk_ok_def zisk_coordinatorContainer_def zisk_workerContainer_def)
next
  case (Openvm_backend cfg)
  with assms sidecar_named [of d "telemetry (oc_cluster cfg)" "set (openvm_destinations cfg)"] show ?thesis
    by (auto simp: openvm_containers_def openvm_ok_def openvm_coordinatorContainer_def openvm_workerContainer_def)
qed

lemma backend_selected: "backend_ok b \<Longrightarrow> map d_ssh (backend_containers b) = dialSelection (Some (backend_containers b))"
  by (cases b) (simp_all add: dialSelection_def zisk_containers_def openvm_containers_def)

fun backend_destinations :: "loaded \<Rightarrow> string list" where
  "backend_destinations (Zisk_backend cfg) = zisk_destinations cfg"
| "backend_destinations (Openvm_backend cfg) = openvm_destinations cfg"

text \<open>The contract of a backend holds of either zkVM's configuration, so of the value the commands work on.\<close>

interpretation loaded_backend: backend backend_containers backend_destinations backend_ok
proof
  fix b d
  assume ok: "backend_ok b"
  show "\<exists>d ds. backend_containers b = d # ds \<and> d_label d = CoordinatorName \<and> \<not> d_sidecar d"
    using ok zisk_backend.coordinator_first openvm_backend.coordinator_first by (cases b) auto
  show "distinct (map (\<lambda>d. (d_ssh d, d_name d)) (backend_containers b))"
    using ok zisk_backend.one_per_name openvm_backend.one_per_name by (cases b) auto
  show "distinct (map d_label (filter (\<lambda>d. \<not> d_sidecar d) (backend_containers b)))"
    using ok zisk_backend.one_per_label openvm_backend.one_per_label by (cases b) auto
  show "d_ssh d \<in> set (backend_destinations b)" if "d \<in> set (backend_containers b)"
    using ok that zisk_backend.hosts_dialed openvm_backend.hosts_dialed by (cases b) auto
qed

text \<open>C26: a configuration the loader hands to a command is well formed, whatever file it was read from:
  it satisfies the rules of its zkVM, its first container is the coordinator, every container is
  named, by a name no other container on its host has, no two journals of a dump share a file, and a
  deployment that dialed its destinations has a client for every container it lists.\<close>

theorem loaded_configuration:
  assumes "\<And>xs. mset (ord xs) = mset xs" "loadBackend ord readFile peek zyaml oyaml path = Inr b"
  shows "backend_ok b \<and> d_label (hd (backend_containers b)) = CoordinatorName
    \<and> (\<forall>d \<in> set (backend_containers b). d_name d \<noteq> []
        \<and> (\<forall>e \<in> set (backend_containers b). d_ssh d = d_ssh e \<longrightarrow> d_name d = d_name e \<longrightarrow> d = e))
    \<and> distinct (List.map_filter journalFile (backend_containers b))
    \<and> (\<forall>h. dialHosts dial ping (backend_destinations b) = Inr h \<longrightarrow>
        (\<forall>d \<in> set (backend_containers b). hostClient h (d_ssh d) \<noteq> None))"
proof -
  have ok: "backend_ok b" by (rule loadBackend_ok [OF assms])
  show ?thesis
    using ok loaded_backend.coordinator_first [OF ok] loaded_backend.name_identifies [OF ok] backend_named [OF ok]
      loaded_backend.journal_files_distinct [OF ok] loaded_backend.listed_has_client [OF ok, of dial ping]
    by fastforce
qed

lemma sample_loads:
  "loadBackend rev (\<lambda>_. Inr []) (\<lambda>_. Inr ''zisk'') (\<lambda>_. Inr zisk_sample) (\<lambda>_. Inl []) ''c.yaml''
      = Inr (Zisk_backend (zisk_setDefaults zisk_sample))"
  by code_simp

theorem loaded_configuration_witness:
  "backend_ok (Zisk_backend (zisk_setDefaults zisk_sample))
    \<and> d_label (hd (zisk_containers (zisk_setDefaults zisk_sample))) = CoordinatorName"
  using loaded_configuration [OF mset_rev sample_loads, of "\<lambda>d. Inr d" "\<lambda>_. None :: string option"]
  by (simp only: backend_containers.simps)

text \<open>C29: \<open>provoor ps\<close> and \<open>provoor logs\<close> with a configuration list exactly the configuration's
  own containers, however much more the daemons' filters let through: each listed container is one the
  configuration deploys on the host that reported it, every container of the configuration that its
  host reported is listed, and the hosts come in the order the configuration names them in.\<close>

theorem ps_lists_configuration:
  assumes "\<And>xs. mset (ord xs) = mset xs" "path \<noteq> []"
    and "list_command (loadBackend ord readFile peek zyaml oyaml) dial ping show ask path all = Inr ls"
  shows "\<exists>b hosts. loadBackend ord readFile peek zyaml oyaml path = Inr b
    \<and> dialHosts dial ping (map d_ssh (backend_containers b)) = Inr hosts
    \<and> set (hostDestinations hosts) = d_ssh ` set (backend_containers b)
    \<and> (\<forall>l \<in> set ls. CHR ''/'' # l_name l \<in> set (sm_names (l_summary l))
        \<and> (\<exists>d \<in> set (backend_containers b). d_ssh d = l_ssh l \<and> d_name d = l_name l))
    \<and> (\<forall>h \<in> d_ssh ` set (backend_containers b).
        \<exists>ss. ask h (listOptions (selectedNames (Some (backend_containers b)) h) all) = Inr ss
          \<and> mset (map l_summary (filter (\<lambda>l. l_ssh l = h) ls)) = mset (filter (selected_on (backend_containers b) h) ss))
    \<and> ls = concat (map (\<lambda>h. filter (\<lambda>l. l_ssh l = h) ls) (hostDestinations hosts))"
proof -
  from assms(2,3) obtain b where b: "loadBackend ord readFile peek zyaml oyaml path = Inr b"
    and run: "(case dialHosts dial ping (dialSelection (Some (backend_containers b))) of
         Inl (e, _) \<Rightarrow> Inl (Load_failed (show e))
       | Inr hosts \<Rightarrow> rmap_err Load_failed (listContainers ask hosts (Some (backend_containers b)) all)) = Inr ls"
    by (auto simp: list_command_def selectContainers_def rbind_Inr_iff)
  obtain hosts where dial: "dialHosts dial ping (dialSelection (Some (backend_containers b))) = Inr hosts"
    using run by (cases "dialHosts dial ping (dialSelection (Some (backend_containers b)))") auto
  have ls: "listContainers ask hosts (Some (backend_containers b)) all = Inr ls"
    using run dial by (simp add: rmap_err_Inr_iff)
  have ok: "backend_ok b" by (rule loadBackend_ok [OF assms(1) b])
  note dial = dial [folded backend_selected [OF ok]]
  have hosts: "hosts_ok hosts" "set (hostDestinations hosts) = d_ssh ` set (backend_containers b)"
    using dial_loop_Inr [OF dial [unfolded dialHosts_def] hosts_ok_empty] by (simp_all add: no_hosts_def hostDestinations_def)
  have named: "\<forall>d \<in> set (backend_containers b). d_name d \<noteq> []" using backend_named [OF ok] by blast
  from listing_selected [OF ls hosts(1) named] hosts(2) b dial show ?thesis by auto
qed

text \<open>A daemon whose filter by name lets a longer name through too.\<close>

definition crowded_host :: lister where
  "crowded_host h opts =
     (if h = ''a'' then Inr (map (\<lambda>n. \<lparr>sm_names = [CHR ''/'' # n], sm_image = [], sm_command = [], sm_status = [], sm_ports = []\<rparr>)
        [''old-zisk-worker'', ''zisk-worker''])
      else Inr [])"

theorem ps_lists_configuration_witness:
  "\<exists>ls. list_command (loadBackend rev (\<lambda>_. Inr []) (\<lambda>_. Inr ''zisk'') (\<lambda>_. Inr zisk_sample) (\<lambda>_. Inl []))
      Inr (\<lambda>_. None) (\<lambda>_. []) crowded_host ''c.yaml'' True = Inr ls
    \<and> map l_name ls = [''zisk-worker'']
    \<and> (\<exists>b. loadBackend rev (\<lambda>_. Inr []) (\<lambda>_. Inr ''zisk'') (\<lambda>_. Inr zisk_sample) (\<lambda>_. Inl []) ''c.yaml'' = Inr b
        \<and> (\<forall>l \<in> set ls. \<exists>d \<in> set (backend_containers b). d_ssh d = l_ssh l \<and> d_name d = l_name l))"
proof -
  let ?ls = "[\<lparr>l_ssh = ''a'', l_name = ''zisk-worker'', l_summary = \<lparr>sm_names = [''/zisk-worker''], sm_image = [],
      sm_command = [], sm_status = [], sm_ports = []\<rparr>\<rparr>]"
  have selected: "dialSelection (Some (zisk_containers cfg)) = map d_ssh (zisk_containers cfg)" for cfg
    by (simp add: dialSelection_def zisk_containers_def)
  have dial: "dialHosts Inr (\<lambda>_. None :: string option) (map d_ssh (zisk_containers (zisk_setDefaults zisk_sample)))
      = Inr \<lparr>clients = [''a'' \<mapsto> ''a'', ''b'' \<mapsto> ''b''], order = [''a'', ''b'']\<rparr>"
    by (simp add: dialHosts_def no_hosts_def zisk_containers_def zisk_setDefaults_def zisk_sample_def
        cc_setDefaults_def sidecars_deployed_def indexed_def Let_def)
  have listing: "listContainers crowded_host \<lparr>clients = [''a'' \<mapsto> ''a'', ''b'' \<mapsto> ''b''], order = [''a'', ''b'']\<rparr>
      (Some (zisk_containers (zisk_setDefaults zisk_sample))) True = Inr ?ls"
    by code_simp
  have run: "list_command (loadBackend rev (\<lambda>_. Inr []) (\<lambda>_. Inr ''zisk'') (\<lambda>_. Inr zisk_sample) (\<lambda>_. Inl []))
      Inr (\<lambda>_. None) (\<lambda>_. []) crowded_host ''c.yaml'' True = Inr ?ls"
    using dial listing
    by (simp add: list_command_def selectContainers_def sample_loads selected)
  define ls load where "ls = ?ls" and "load = loadBackend rev (\<lambda>_. Inr []) (\<lambda>_. Inr ''zisk'') (\<lambda>_. Inr zisk_sample) (\<lambda>_. Inl [])"
  have path: "''c.yaml'' \<noteq> []" by simp
  from ps_lists_configuration [OF mset_rev path run, folded ls_def load_def] obtain b where
    b: "load ''c.yaml'' = Inr b" and listed: "\<forall>l \<in> set ls. CHR ''/'' # l_name l \<in> set (sm_names (l_summary l))
        \<and> (\<exists>d \<in> set (backend_containers b). d_ssh d = l_ssh l \<and> d_name d = l_name l)"
    by (elim exE conjE) (rule that)
  from listed have only: "\<forall>l \<in> set ls. \<exists>d \<in> set (backend_containers b). d_ssh d = l_ssh l \<and> d_name d = l_name l"
    by blast
  have named: "map l_name ls = [''zisk-worker'']" by (simp add: ls_def)
  show ?thesis unfolding load_def [symmetric]
    by (intro exI conjI) (rule run [folded ls_def load_def], rule named, rule b, rule only)
qed

section \<open>What the open port rests on\<close>

lemma serve_open_cases:
  assumes "serve_until_open resolve url_path dial ready prove warmupInput c f st = Some (Port_open, st')"
  obtains elf vk cl m m1 outcome m2 c1 where "resolve (sf_elf f) = Inr elf" "resolve (sf_vk f) = Inr vk"
    "dial elf vk (sv_machine st) = Some (Inr cl, m)" "ready cl c m = Some (Inr (), m1)"
    "prove cl c1 warmupInput m2 = Some (Inr outcome, sv_machine st')" "outputMatched (public_values outcome) (the warmupOutput)"
proof -
  have flags: "flags_error f = None"
    using assms by (cases "flags_error f") (simp_all add: serve_until_open_def)
  obtain elf where elf: "resolve (sf_elf f) = Inr elf"
    using assms flags by (cases "resolve (sf_elf f)") (simp_all add: serve_until_open_def)
  obtain vk where vk: "resolve (sf_vk f) = Inr vk"
    using assms flags elf by (cases "resolve (sf_vk f)") (simp_all add: serve_until_open_def)
  obtain cl m where dial: "dial elf vk (sv_machine st) = Some (Inr cl, m)"
    using assms flags elf vk by (auto simp: serve_until_open_def split: option.splits sum.splits prod.splits)
  obtain m1 where ready: "ready cl c m = Some (Inr (), m1)"
    using assms flags elf vk dial by (auto simp: serve_until_open_def split: option.splits sum.splits prod.splits)
  have warm: "warmup (prove cl) (config_of_flags url_path f) warmupInput c (st\<lparr>sv_machine := m1\<rparr>) = Some (None, st')"
    using assms flags elf vk dial ready by (auto simp: serve_until_open_def split: option.splits)
  obtain outcome where
    "run_prove (prove cl) (with_timeout c (proveTimeout (config_of_flags url_path f)) (clock m1)) warmupInput
       (st\<lparr>sv_machine := m1\<rparr>) = Some (Inr outcome, st')"
    "outputMatched (public_values outcome) (the warmupOutput)"
    using warm by (auto simp: warmup_def split: option.splits sum.splits prod.splits if_splits)
  with elf vk dial ready show thesis by (auto simp: run_prove_def intro: that)
qed


lemma openvm_dial_Inr:
  assumes "openvm_dial srv lib sha256 c elf vk freed m = (Inr cl, freed', m')"
  obtains h body where "lib_new lib OpenVM vk = (ERE_OK, h)" "oc_verifier cl = Some (Some h)"
    "call srv c (Get_vk (programName sha256 elf)) m = (Reply 200 body False, m')" "bytes_of body = vk"
proof (cases rule: ver_new_cases [of lib OpenVM vk])
  case (bound h)
  with assms show ?thesis
    by (auto simp: openvm_dial_def fetchProgramVerifyingKey_def openvm_close_def ver_close_def Let_def
        split: sum.splits prod.splits if_splits http_reply.splits intro: that)
next
  case (refused status h e)
  with assms show ?thesis by (cases status) (auto simp: openvm_dial_def Let_def)
qed

text \<open>C14: \<open>provoor serve\<close> opens its port on an OpenVM cluster only once it is warm: the manager
  served exactly the given verifying key for the program of the given ELF, and the verifier bound to
  that very key accepted a proof of the warmup block with its output.\<close>

theorem openvm_port_opens_warm:
  assumes "openvm_serve resolve url_path fuel srv js parse lib sha256 draw warmupInput c f st = Some (Port_open, st')"
  shows "\<exists>elf vk h body m pf k. resolve (sf_elf f) = Inr elf \<and> resolve (sf_vk f) = Inr vk
    \<and> call srv c (Get_vk (programName sha256 elf)) (sv_machine st) = (Reply 200 body False, m) \<and> bytes_of body = vk
    \<and> lib_new lib OpenVM vk = (ERE_OK, h) \<and> lib_verify lib h pf = (ERE_OK, the warmupOutput @ replicate k 0)"
proof -
  from assms [unfolded openvm_serve_def] obtain elf vk cl m outcome m2 c1 where
    r: "resolve (sf_elf f) = Inr elf" "resolve (sf_vk f) = Inr vk"
    and d: "(case openvm_dial srv lib sha256 c elf vk [] (sv_machine st) of (r, _, m1) \<Rightarrow> Some (r, m1)) = Some (Inr cl, m)"
    and p: "openvm_prove fuel srv js parse lib draw cl c1 warmupInput m2 = Some (Inr outcome, sv_machine st')"
    and o: "outputMatched (public_values outcome) (the warmupOutput)"
    by (rule serve_open_cases)
  from d obtain freed where "openvm_dial srv lib sha256 c elf vk [] (sv_machine st) = (Inr cl, freed, m)"
    by (auto split: prod.splits)
  then obtain h body where h: "lib_new lib OpenVM vk = (ERE_OK, h)" "oc_verifier cl = Some (Some h)"
    and b: "call srv c (Get_vk (programName sha256 elf)) (sv_machine st) = (Reply 200 body False, m)" "bytes_of body = vk"
    by (rule openvm_dial_Inr)
  from prove_sound [OF p] h(2) obtain pf where "lib_verify lib h pf = (ERE_OK, public_values outcome)" by auto
  moreover from o obtain k where "public_values outcome = the warmupOutput @ replicate k 0"
    unfolding outputMatched_iff by blast
  ultimately have "lib_verify lib h pf = (ERE_OK, the warmupOutput @ replicate k 0)" by simp
  with r h(1) b show ?thesis by blast
qed

text \<open>A coordinator that registers, sets up and proves, and a library whose verifier reads the warmup
  block's output.\<close>

definition warm_coordinator :: "bool coordinator" where
  "warm_coordinator q c t proved =
     (case q of
        Prove_job _ _ \<Rightarrow> (blank_reply, 1, True)
      | _ \<Rightarrow> (if ctx_done c t then blank_reply\<lparr>zr_error := Some (Not_a_status [])\<rparr>
              else if proved then prover_reply else blank_reply, 1, proved))"

definition warm_lib :: "nat ere_lib" where
  "warm_lib = accepting_lib\<lparr>lib_verify := (\<lambda>_ _. (ERE_OK, the warmupOutput))\<rparr>"

definition warm_flags :: "string \<Rightarrow> serve_flags" where
  "warm_flags z = \<lparr>sf_zkvm = z, sf_elf = ''g.elf'', sf_vk = ''g.vk'', sf_timeout = 0, sf_on_error = ''fail-test''\<rparr>"

definition flag_files :: "string \<Rightarrow> deploy_error + bytes" where
  "flag_files path = Inr (if path = ''g.vk'' then [9] else [1, 2])"

lemma output_matches_itself: "outputMatched v v"
  by (simp add: outputMatched_def)


text \<open>A manager that proves and serves an empty verifying key.\<close>

definition openvm_warm_lib :: "nat ere_lib" where
  "openvm_warm_lib = agreeing_lib\<lparr>lib_verify := (\<lambda>_ _. (ERE_OK, the warmupOutput))\<rparr>"

lemma finishing_submit_any:
  "\<exists>m'. submitProof 1 finishing (\<lambda>w. ([171], w)) p c input m = Some (Inr (''ab'', 0), m')"
  by (simp add: submitProof_def submit_attempt_def newProofUUID_def uploadInput_def startProof_def
      finishing_call ok_status_def sample_uuid del: hex_encode.simps)

lemma finishing_proves:
  assumes "oc_verifier cl = Some (Some 3)" "\<And>pf. lib_verify lib 3 pf = (ERE_OK, v)"
  shows "\<exists>o1 m'. openvm_prove 1 finishing plain_json (\<lambda>_. None) lib (\<lambda>w. ([171], w)) cl c input m
      = Some (Inr o1, m') \<and> public_values o1 = v"
proof -
  from finishing_submit_any obtain m1 where m1:
    "submitProof 1 finishing (\<lambda>w. ([171], w)) (program_name cl) c input m = Some (Inr (''ab'', 0), m1)" by blast
  from finishing_wait_with [OF assms(2)] obtain o1 m' where
    "waitProof 1 finishing plain_json (\<lambda>_. None) lib (Some (Some 3)) c ''ab'' m1 = Some (Inr o1, m')" "public_values o1 = v"
    by blast
  with m1 assms(1) show ?thesis by (simp add: openvm_prove_def del: One_nat_def)
qed

theorem openvm_port_opens_warm_witness:
  "\<exists>st'. openvm_serve (\<lambda>_. Inr []) (\<lambda>_. None) 1 finishing plain_json (\<lambda>_. None) openvm_warm_lib id (\<lambda>w. ([171], w)) [7] None
      (warm_flags ''openvm'') \<lparr>sv_machine = idle_machine, sv_lines = [], sv_exit = None\<rparr> = Some (Port_open, st')
    \<and> (\<exists>h pf k. lib_verify openvm_warm_lib h pf = (ERE_OK, the warmupOutput @ replicate k 0))"
proof -
  let ?st = "\<lparr>sv_machine = idle_machine, sv_lines = [], sv_exit = None\<rparr>"
  obtain cl m where d: "openvm_dial finishing openvm_warm_lib id None [] [] [] idle_machine = (Inr cl, [], m)"
    and cl: "oc_verifier cl = Some (Some 3)"
    by (simp add: openvm_dial_def fetchProgramVerifyingKey_def finishing_call ver_new_def openvm_warm_lib_def agreeing_lib_def
        Let_def bytes_of_def)
  obtain m1 where ready: "openvm_waitReady 1 finishing None m = Some (Inr (), m1)"
    by (simp add: openvm_waitReady_def openvm_ready_def finishing_call)
  have lib: "lib_verify openvm_warm_lib 3 pf = (ERE_OK, the warmupOutput)" for pf
    by (simp add: openvm_warm_lib_def)
  let ?cfg = "config_of_flags (\<lambda>_. None) (warm_flags ''openvm'')"
  from finishing_proves [OF cl lib] obtain o1 m' where
    "openvm_prove 1 finishing plain_json (\<lambda>_. None) openvm_warm_lib (\<lambda>w. ([171], w)) cl
       (with_timeout None (proveTimeout ?cfg) (clock m1)) [7] (m1\<lparr>phases := []\<rparr>) = Some (Inr o1, m')"
    "public_values o1 = the warmupOutput" by blast
  then have "warmup (openvm_prove 1 finishing plain_json (\<lambda>_. None) openvm_warm_lib (\<lambda>w. ([171], w)) cl) ?cfg [7] None
      (?st\<lparr>sv_machine := m1\<rparr>) = Some (None, ?st\<lparr>sv_machine := m'\<rparr>)"
    by (simp add: warmup_def run_prove_def output_matches_itself del: One_nat_def)
  moreover have "flags_error (warm_flags ''openvm'') = None" by (simp add: flags_error_def warm_flags_def)
  ultimately have r: "openvm_serve (\<lambda>_. Inr []) (\<lambda>_. None) 1 finishing plain_json (\<lambda>_. None) openvm_warm_lib id
      (\<lambda>w. ([171], w)) [7] None (warm_flags ''openvm'') ?st = Some (Port_open, ?st\<lparr>sv_machine := m'\<rparr>)"
    using d ready by (simp add: openvm_serve_def serve_until_open_def del: One_nat_def)
  from openvm_port_opens_warm [OF r] r show ?thesis by blast
qed

end
