(* ===== verification/Healthy.thy ===== *)
theory Healthy
  imports Daemon_Proofs
begin

text \<open>
  A daemon that answers every request at once and without an error, and the operations of \<open>Daemon\<close>
  on it, which all succeed: the concrete daemon of the witnesses.
\<close>

text \<open>Answers that depend on the request alone.\<close>

definition steady :: "(docker_request \<Rightarrow> docker_reply) \<Rightarrow> unit docker" where
  "steady r = (\<lambda>q c t w. (r q, 0, w))"

text \<open>Every container runs, every command inside one has exited with zero, and \<open>logs\<close> is what each of
  them wrote.\<close>

definition healthy :: "string \<Rightarrow> docker_request \<Rightarrow> docker_reply" where
  "healthy logs q =
     \<lparr>dk_error = None, dk_id = ''c0'', dk_running = (case q of Exec_inspect e \<Rightarrow> False | _ \<Rightarrow> True),
      dk_restarting = False, dk_restarts = 0, dk_started = [], dk_text = logs, dk_code = 0, dk_cpus = 8, dk_names = []\<rparr>"

lemma healthy_simps [simp]:
  "dk_error (healthy logs q) = None" "\<not> dk_restarting (healthy logs q)" "dk_code (healthy logs q) = 0"
  "dk_text (healthy logs q) = logs" "dk_running (healthy logs (Docker_inspect name))"
  "\<not> dk_running (healthy logs (Exec_inspect e))" "dk_cpus (healthy logs q) = 8"
  by (simp_all add: healthy_def)

lemma gives_ask: "gives (io_ask (steady r) c q) (r q)"
  by (simp add: gives_def io_ask_def call_def steady_def)

lemma gives_must: "dk_error (r q) = None \<Longrightarrow> gives (must (steady r) c q) (r q)"
  unfolding must_def by (rule gives_bind [OF gives_ask]) (simp add: gives_return)

lemma gives_must_healthy: "gives (must (steady (healthy logs)) c q) (healthy logs q)"
  by (rule gives_must) simp

lemma gives_unit: "gives f v \<Longrightarrow> gives (io_bind f (\<lambda>_. io_return ())) ()"
  by (rule gives_bind [OF _ gives_return])

lemma gives_must_unit: "gives (io_bind (must (steady (healthy logs)) c q) (\<lambda>_. io_return ())) ()"
  by (rule gives_unit [OF gives_must_healthy])

lemma gives_copyFile: "gives (copyFile (steady (healthy logs)) c cid f) ()"
  unfolding copyFile_def by (rule gives_must_unit)

lemma gives_pullImage: "gives (pullImage (steady (healthy logs)) c ref) ()"
  unfolding pullImage_def by (rule gives_wrap [OF gives_must_unit])

lemma gives_running: "gives (running (steady (healthy logs)) c name) True"
  unfolding running_def by (rule gives_bind [OF gives_ask]) (simp add: gives_return)

lemma gives_container_begin: "gives (container_begin (steady (healthy logs)) c ord spec) ()"
  unfolding container_begin_def
  by (rule gives_bind [OF gives_must_healthy gives_seq [OF gives_each gives_must_unit]]) (rule gives_copyFile)

lemma gives_run_body: "gives (run_body (steady (healthy logs)) c ord spec) logs"
  unfolding run_body_def
  by (rule gives_bind [OF gives_container_begin gives_bind [OF gives_must_healthy gives_bind [OF gives_must_healthy]]])
    (simp add: gives_return)

lemma gives_remove_finally: "gives (remove_finally (steady (healthy logs)) c name) (healthy logs (Docker_remove name))"
  by (simp add: gives_def remove_finally_def io_ask_def call_def steady_def)

lemma gives_container_run: "gives (container_run (steady (healthy logs)) c ord spec) logs"
  unfolding container_run_def
  by (rule gives_bind [OF gives_ask gives_finally [OF gives_run_body gives_remove_finally]])

lemma gives_execSucceeds: "gives (execSucceeds (Suc fuel) (steady (healthy logs)) c name cmd) True"
  unfolding execSucceeds_def exec_poll.simps
  by (rule gives_bind [OF gives_must_healthy gives_bind [OF gives_must_healthy gives_bind [OF gives_must_healthy]]])
    (simp add: gives_return)

lemma gives_waitListening: "gives (waitListening (Suc fuel) (steady (healthy logs)) c name node ports) ()"
proof -
  have "gives (listening_loop (Suc fuel) (steady (healthy logs)) c' name node probe) ()" for c' probe
    unfolding listening_loop.simps
    by (rule gives_bind [OF gives_ask]) (simp add: gives_bind [OF gives_try [OF gives_execSucceeds]] gives_return)
  then show ?thesis by (simp add: gives_def waitListening_def)
qed

lemma gives_waitLogLine:
  "contains_str line logs \<Longrightarrow> gives (waitLogLine (Suc fuel) (steady (healthy logs)) c name lbl line timeout) ()"
proof -
  assume line: "contains_str line logs"
  have "gives (log_loop (Suc fuel) (steady (healthy logs)) c name lbl line deadline) ()" for deadline
    unfolding log_loop.simps
    by (rule gives_bind [OF gives_wrap [OF gives_must_healthy]])
      (simp add: line gives_bind [OF gives_wrap [OF gives_must_healthy]] gives_return)
  then show ?thesis by (simp add: gives_def waitLogLine_def)
qed

lemma gives_startCoordinator:
  "gives (startCoordinator (Suc fuel) (steady (healthy logs)) c ord node spec ports) ()"
  unfolding startCoordinator_def
  by (rule gives_bind [OF gives_wrap [OF gives_running]])
    (simp add: gives_seq [OF gives_return gives_waitListening])

end
