(* ===== verification/Fleet.thy ===== *)
theory Fleet
  imports Healthy Hosts
begin

text \<open>
  The hosts of a deployment as one state: the machine of every destination. A group of goroutines is a
  list of tasks, each on its host: the hosts share nothing, so their order does not matter, and two
  tasks on one host would take turns. A group ends when its last task does, with the error that came
  first; the context of a group, which a failure ends early, is a choice of the environment, so what
  holds for every context holds for that one.
\<close>

type_synonym 'w fleet = "string \<Rightarrow> 'w host_machine"
type_synonym ('w, 'a) fleet_io = "('w fleet, deploy_error, 'a) prog"
type_synonym 'w host_task = "string \<times> ('w, unit) docker_io"

definition fleet_grows :: "'w fleet \<Rightarrow> 'w fleet \<Rightarrow> bool" where
  "fleet_grows fl fl' \<longleftrightarrow> (\<forall>h. grows (\<lambda>_. True) (fl h) (fl' h))"

lemma fleet_grows_refl [simp]: "fleet_grows fl fl"
  by (simp add: fleet_grows_def)

lemma fleet_grows_trans: "fleet_grows fl fl1 \<Longrightarrow> fleet_grows fl1 fl2 \<Longrightarrow> fleet_grows fl fl2"
  unfolding fleet_grows_def by (blast intro: grows_trans)

lemma fleet_growsD: "fleet_grows fl fl' \<Longrightarrow> grows (\<lambda>_. True) (fl h) (fl' h)"
  by (simp add: fleet_grows_def)

section \<open>Groups\<close>

text \<open>The ends of the tasks: the result of each, and when it came.\<close>

fun run_tasks :: "'w host_task list \<Rightarrow> 'w fleet \<Rightarrow> ((deploy_error + unit) \<times> int) list option \<times> 'w fleet" where
  "run_tasks [] fl = (Some [], fl)"
| "run_tasks ((h, t) # ts) fl =
     (case t (fl h) of
        None \<Rightarrow> (None, fl)
      | Some (r, m) \<Rightarrow>
          (case run_tasks ts (fl(h := m)) of
             (None, fl1) \<Rightarrow> (None, fl1)
           | (Some rs, fl1) \<Rightarrow> (Some ((r, clock m) # rs), fl1)))"

definition errors_of :: "((deploy_error + unit) \<times> int) list \<Rightarrow> (int \<times> deploy_error) list" where
  "errors_of rs = concat (map (\<lambda>(r, t). case r of Inl e \<Rightarrow> [(t, e)] | Inr _ \<Rightarrow> []) rs)"

text \<open>The group's \<open>Wait\<close>: the caller goes on at the last end.\<close>

definition wait_all :: "((deploy_error + unit) \<times> int) list \<Rightarrow> 'w fleet \<Rightarrow> 'w fleet" where
  "wait_all rs fl = (\<lambda>h. (fl h)\<lparr>clock := fold max (map snd rs) (clock (fl h))\<rparr>)"

text \<open>\<open>errgroup.Group\<close>\<close>

definition run_group :: "'w host_task list \<Rightarrow> ('w, unit) fleet_io" where
  "run_group ts fl =
     (case run_tasks ts fl of
        (None, _) \<Rightarrow> None
      | (Some rs, fl1) \<Rightarrow>
          Some (case errors_of rs of [] \<Rightarrow> Inr () | er # ers \<Rightarrow> Inl (snd (arg_min_list fst (er # ers))), wait_all rs fl1))"

text \<open>\<open>sync.WaitGroup\<close> with \<open>errors.Join\<close>: every task runs, every error is reported.\<close>

definition join_errors :: "deploy_error list \<Rightarrow> deploy_error" where
  "join_errors es = Message (join [CHR 0x0A] (map error_text es))"

definition run_all :: "'w host_task list \<Rightarrow> ('w, deploy_error list) fleet_io" where
  "run_all ts fl =
     (case run_tasks ts fl of
        (None, _) \<Rightarrow> None
      | (Some rs, fl1) \<Rightarrow> Some (Inr (map snd (errors_of rs)), wait_all rs fl1))"

text \<open>One task of the deploying goroutine itself.\<close>

definition on_host :: "string \<Rightarrow> ('w, unit) docker_io \<Rightarrow> ('w, unit) fleet_io" where
  "on_host h t = run_group [(h, t)]"

section \<open>What a group did\<close>

lemma wait_all_grows: "fleet_grows fl (wait_all rs fl)"
proof -
  have "x \<le> fold max ts x" for ts and x :: int
    by (induction ts arbitrary: x) (auto intro: order_trans [OF max.cobounded2])
  then show ?thesis by (simp add: fleet_grows_def wait_all_def grows_def)
qed

lemma fleet_grows_upd: "grows (\<lambda>_. True) (fl h) m \<Longrightarrow> fleet_grows fl (fl(h := m))"
  by (simp add: fleet_grows_def)

definition tasks_mono :: "'w host_task list \<Rightarrow> bool" where
  "tasks_mono ts \<longleftrightarrow> (\<forall>t \<in> snd ` set ts. io_mono t)"

lemma tasks_mono_simps [simp]:
  "tasks_mono []" "tasks_mono ((h, t) # ts) \<longleftrightarrow> io_mono t \<and> tasks_mono ts"
  by (simp_all add: tasks_mono_def)

lemma tasks_mono_map [simp]: "tasks_mono (map (\<lambda>x. (h x, t x)) xs) \<longleftrightarrow> (\<forall>x \<in> set xs. io_mono (t x))"
  by (auto simp: tasks_mono_def)

lemma run_tasks_grows:
  "tasks_mono ts \<Longrightarrow> run_tasks ts fl = (rs, fl') \<Longrightarrow> fleet_grows fl fl'"
proof (induction ts arbitrary: fl rs)
  case (Cons ht ts)
  obtain h t where ht: "ht = (h, t)" by force
  show ?case
  proof (cases "t (fl h)")
    case None
    with Cons.prems(2) ht show ?thesis by simp
  next
    case (Some rm)
    obtain r m where rm: "rm = (r, m)" by force
    have "io_mono t" using Cons.prems(1) ht by simp
    from io_monoD [OF this] Some rm have "fleet_grows fl (fl(h := m))" by (intro fleet_grows_upd) simp
    moreover obtain rs1 where "run_tasks ts (fl(h := m)) = (rs1, fl')"
      using Cons.prems(2) ht Some rm by (auto split: prod.splits option.splits)
    then have "fleet_grows (fl(h := m)) fl'" using Cons.IH Cons.prems(1) ht by (metis tasks_mono_simps(2))
    ultimately show ?thesis by (rule fleet_grows_trans)
  qed
qed simp

text \<open>Every task of a list ran on its host, between the states of the list.\<close>

lemma run_tasks_each:
  assumes "tasks_mono ts" "run_tasks ts fl = (Some rs, fl')" "(h, t) \<in> set ts"
  shows "\<exists>m1 r m2. grows (\<lambda>_. True) (fl h) m1 \<and> t m1 = Some (r, m2) \<and> grows (\<lambda>_. True) m2 (fl' h)
    \<and> (r, clock m2) \<in> set rs"
  using assms
proof (induction ts arbitrary: fl rs)
  case (Cons ht ts)
  obtain h0 t0 where ht: "ht = (h0, t0)" by force
  from Cons.prems(2) ht obtain r0 m0 rs0 where
    0: "t0 (fl h0) = Some (r0, m0)" and 1: "run_tasks ts (fl(h0 := m0)) = (Some rs0, fl')" and
    rs: "rs = (r0, clock m0) # rs0"
    by (auto split: prod.splits option.splits)
  have mono: "tasks_mono ts" using Cons.prems(1) ht by simp
  have g: "fleet_grows (fl(h0 := m0)) fl'" by (rule run_tasks_grows [OF mono 1])
  show ?case
  proof (cases "(h, t) = (h0, t0)")
    case True
    with fleet_growsD [OF g, of h0] 0 rs show ?thesis by (intro exI [of _ "fl h0"] exI [of _ r0] exI [of _ m0]) simp
  next
    case False
    with Cons.prems(3) ht have "(h, t) \<in> set ts" by auto
    from Cons.IH [OF mono 1 this] obtain m1 r m2 where
      m: "grows (\<lambda>_. True) ((fl(h0 := m0)) h) m1" "t m1 = Some (r, m2)" "grows (\<lambda>_. True) m2 (fl' h)"
        "(r, clock m2) \<in> set rs0" by blast
    have "io_mono t0" using Cons.prems(1) ht by simp
    from io_monoD [OF this 0] have "grows (\<lambda>_. True) (fl h) ((fl(h0 := m0)) h)" by simp
    from grows_trans [OF this m(1)] m(2-4) rs show ?thesis by auto
  qed
qed simp

lemma errors_of_Nil: "errors_of rs = [] \<longleftrightarrow> (\<forall>(r, t) \<in> set rs. \<not> isl r)"
  by (fastforce simp: errors_of_def split: sum.splits)

lemma run_group_grows:
  assumes "tasks_mono ts" "run_group ts fl = Some (r, fl')"
  shows "fleet_grows fl fl'"
proof -
  obtain rs fl1 where 1: "run_tasks ts fl = (Some rs, fl1)" "fl' = wait_all rs fl1"
    using assms(2) by (auto simp: run_group_def split: prod.splits option.splits)
  from run_tasks_grows [OF assms(1) 1(1)] wait_all_grows [of fl1 rs] 1(2) show ?thesis
    by (auto intro: fleet_grows_trans)
qed

lemma run_group_each:
  assumes "tasks_mono ts" "run_group ts fl = Some (Inr (), fl')" "(h, t) \<in> set ts"
  shows "\<exists>m1 m2. grows (\<lambda>_. True) (fl h) m1 \<and> t m1 = Some (Inr (), m2) \<and> grows (\<lambda>_. True) m2 (fl' h)"
proof -
  obtain rs fl1 where 1: "run_tasks ts fl = (Some rs, fl1)" "fl' = wait_all rs fl1" "errors_of rs = []"
    using assms(2) by (auto simp: run_group_def split: prod.splits option.splits list.splits)
  from run_tasks_each [OF assms(1) 1(1) assms(3)] obtain m1 r m2 where
    m: "grows (\<lambda>_. True) (fl h) m1" "t m1 = Some (r, m2)" "grows (\<lambda>_. True) m2 (fl1 h)" "(r, clock m2) \<in> set rs" by blast
  have "r = Inr ()" using 1(3) m(4) by (cases r) (auto simp: errors_of_Nil)
  with m fleet_growsD [OF wait_all_grows, of fl1 h rs] 1(2) show ?thesis by (blast intro: grows_trans)
qed

lemma run_all_grows:
  assumes "tasks_mono ts" "run_all ts fl = Some (r, fl')"
  shows "fleet_grows fl fl'"
proof -
  obtain rs fl1 where 1: "run_tasks ts fl = (Some rs, fl1)" "fl' = wait_all rs fl1"
    using assms(2) by (auto simp: run_all_def split: prod.splits option.splits)
  from run_tasks_grows [OF assms(1) 1(1)] wait_all_grows [of fl1 rs] 1(2) show ?thesis
    by (auto intro: fleet_grows_trans)
qed

text \<open>Where the group reports nothing, every task ended without an error; where one task did not, the
  group reports an error.\<close>

lemma run_all_each:
  assumes "tasks_mono ts" "run_all ts fl = Some (Inr es, fl')" "(h, t) \<in> set ts"
  shows "\<exists>m1 r m2. grows (\<lambda>_. True) (fl h) m1 \<and> t m1 = Some (r, m2) \<and> grows (\<lambda>_. True) m2 (fl' h)
    \<and> (\<forall>e. r = Inl e \<longrightarrow> e \<in> set es)"
proof -
  obtain rs fl1 where 1: "run_tasks ts fl = (Some rs, fl1)" "fl' = wait_all rs fl1" "es = map snd (errors_of rs)"
    using assms(2) by (auto simp: run_all_def split: prod.splits option.splits)
  from run_tasks_each [OF assms(1) 1(1) assms(3)] obtain m1 r m2 where
    m: "grows (\<lambda>_. True) (fl h) m1" "t m1 = Some (r, m2)" "grows (\<lambda>_. True) m2 (fl1 h)" "(r, clock m2) \<in> set rs" by blast
  have "e \<in> set es" if "r = Inl e" for e
    using that m(4) 1(3) by (force simp: errors_of_def)
  with m fleet_growsD [OF wait_all_grows, of fl1 h rs] 1(2) show ?thesis by (blast intro: grows_trans)
qed

text \<open>A program over the fleet that only adds to the hosts' logs.\<close>

definition fleet_mono :: "('w, 'a) fleet_io \<Rightarrow> bool" where
  "fleet_mono f \<longleftrightarrow> (\<forall>fl r fl'. f fl = Some (r, fl') \<longrightarrow> fleet_grows fl fl')"

lemma fleet_monoD: "fleet_mono f \<Longrightarrow> f fl = Some (r, fl') \<Longrightarrow> fleet_grows fl fl'"
  by (simp add: fleet_mono_def)

lemma fleet_mono_leaf [io_grows]: "fleet_mono (io_return v)" "fleet_mono (io_fail e)"
  by (simp_all add: fleet_mono_def)

lemma fleet_mono_bind [io_grows]:
  assumes "fleet_mono f" "\<And>v. fleet_mono (g v)"
  shows "fleet_mono (io_bind f g)"
  unfolding fleet_mono_def
proof (intro allI impI)
  fix fl r fl'
  assume "io_bind f g fl = Some (r, fl')"
  from io_bind_Some [OF this] show "fleet_grows fl fl'"
    using fleet_monoD [OF assms(1)] fleet_monoD [OF assms(2)] by (blast intro: fleet_grows_trans)
qed

lemma fleet_mono_try [io_grows]: "fleet_mono f \<Longrightarrow> fleet_mono (io_try f)"
  by (auto simp: fleet_mono_def io_try_iff)

lemma fleet_mono_group [io_grows]: "tasks_mono ts \<Longrightarrow> fleet_mono (run_group ts)"
  unfolding fleet_mono_def using run_group_grows by blast

lemma fleet_mono_all [io_grows]: "tasks_mono ts \<Longrightarrow> fleet_mono (run_all ts)"
  unfolding fleet_mono_def using run_all_grows by blast

lemma fleet_mono_on_host [io_grows]: "io_mono t \<Longrightarrow> fleet_mono (on_host h t)"
  unfolding on_host_def by (intro fleet_mono_group) simp

lemma fleet_mono_if [io_grows]: "fleet_mono f \<Longrightarrow> fleet_mono g \<Longrightarrow> fleet_mono (if b then f else g)"
  by simp

lemma fleet_mono_each [io_grows]: "(\<And>x. fleet_mono (f x)) \<Longrightarrow> fleet_mono (io_each f xs)"
  by (induction xs) (auto intro!: io_grows)

lemma on_host_Inr:
  "io_mono t \<Longrightarrow> on_host h t fl = Some (Inr (), fl') \<Longrightarrow>
    \<exists>m1 m2. grows (\<lambda>_. True) (fl h) m1 \<and> t m1 = Some (Inr (), m2) \<and> grows (\<lambda>_. True) m2 (fl' h)"
  unfolding on_host_def by (rule run_group_each [of "[(h, t)]"]) simp_all

text \<open>Tasks that succeed make a group that does.\<close>

lemma run_tasks_gives:
  "(\<forall>t \<in> snd ` set ts. gives t ()) \<Longrightarrow> \<exists>rs fl'. run_tasks ts fl = (Some rs, fl') \<and> errors_of rs = []"
proof (induction ts arbitrary: fl)
  case Nil
  then show ?case by (simp add: errors_of_def)
next
  case (Cons ht ts)
  obtain h t where ht: "ht = (h, t)" by force
  with Cons.prems obtain m where m: "t (fl h) = Some (Inr (), m)" unfolding gives_def by force
  from Cons.prems have "\<forall>t \<in> snd ` set ts. gives t ()" by simp
  from Cons.IH [OF this, of "fl(h := m)"] obtain rs fl' where
    "run_tasks ts (fl(h := m)) = (Some rs, fl')" "errors_of rs = []" by blast
  with ht m show ?case by (simp add: errors_of_def)
qed

lemma gives_group: "(\<forall>t \<in> snd ` set ts. gives t ()) \<Longrightarrow> gives (run_group ts) ()"
  unfolding gives_def [of "run_group ts"]
proof
  fix fl
  assume "\<forall>t \<in> snd ` set ts. gives t ()"
  from run_tasks_gives [OF this, of fl] show "\<exists>fl'. run_group ts fl = Some (Inr (), fl')"
    by (auto simp: run_group_def)
qed

lemma gives_on_host: "gives t () \<Longrightarrow> gives (on_host h t) ()"
  unfolding on_host_def by (rule gives_group) simp

section \<open>Sidecars of a deployment\<close>

definition startSidecars ::
  "nat \<Rightarrow> 'w docker \<Rightarrow> ctx \<Rightarrow> file_order \<Rightarrow> bytes \<Rightarrow> telemetry \<Rightarrow> ('w, unit) fleet_io" where
  "startSidecars fuel srv c ord dcgmFields t =
     (let start = (\<lambda>s. io_try (on_host (sc_ssh s) (startSidecar fuel srv c ord dcgmFields (telemetry_interval t) s)));
          collect = fold (\<lambda>s acc. io_bind acc (\<lambda>es. io_bind (start s) (\<lambda>r.
            io_return (case r of Inl e \<Rightarrow> es @ [e] | Inr _ \<Rightarrow> es)))) (sidecars t) (io_return [])
      in io_bind collect (\<lambda>es. if es = [] then io_return () else io_fail (join_errors es)))"

text \<open>\<open>korder\<close> is the order Go ranges over \<open>sidecarPrefix\<close> in on one host.\<close>

definition stopSidecars :: "'w docker \<Rightarrow> ctx \<Rightarrow> (string \<Rightarrow> string list) \<Rightarrow> string list \<Rightarrow> ('w, unit) fleet_io" where
  "stopSidecars srv c korder destinations =
     io_each (\<lambda>(d, kind). io_bind (io_try (on_host d (stopSidecar srv c kind (hostName d)))) (\<lambda>_. io_return ()))
       (concat (map (\<lambda>d. map (Pair d) (korder d)) destinations))"

lemma io_mono_lastLogLine [io_grows]: "io_mono (lastLogLine srv c name)"
  unfolding lastLogLine_def by (intro io_grows)

lemma io_mono_sidecar_loop [io_grows]: "io_mono (sidecar_loop fuel srv c name deadline)"
  by (induction fuel) (simp_all, (intro io_grows | assumption)+)

lemma io_mono_startSidecar [io_grows]: "io_mono (startSidecar fuel srv c ord f interval s)"
proof -
  have "io_mono (waitSidecarRunning fuel srv c name)" for name
    using io_mono_sidecar_loop by (fastforce simp: io_mono_def waitSidecarRunning_def)
  then show ?thesis unfolding startSidecar_def Let_def by (intro io_grows)
qed

lemma io_mono_stopSidecar [io_grows]: "io_mono (stopSidecar srv c kind node)"
  unfolding stopSidecar_def by (intro io_mono_bind io_grows) (auto split: option.split docker_error.split intro!: io_grows)

lemma fleet_mono_startSidecars [io_grows]: "fleet_mono (startSidecars fuel srv c ord f t)"
proof -
  let ?start = "\<lambda>s. io_try (on_host (sc_ssh s) (startSidecar fuel srv c ord f (telemetry_interval t) s))"
  have "fleet_mono (fold (\<lambda>s acc. io_bind acc (\<lambda>es. io_bind (?start s) (\<lambda>r.
      io_return (case r of Inl e \<Rightarrow> es @ [e] | Inr _ \<Rightarrow> es)))) ss acc)" if "fleet_mono acc" for ss acc
    using that
  proof (induction ss arbitrary: acc)
    case (Cons s ss)
    show ?case unfolding fold.simps o_apply
      by (intro Cons.IH fleet_mono_bind Cons.prems fleet_mono_try fleet_mono_on_host io_mono_startSidecar fleet_mono_leaf)
  qed simp
  from this [OF fleet_mono_leaf(1)] show ?thesis
    unfolding startSidecars_def Let_def by (intro fleet_mono_bind fleet_mono_if fleet_mono_leaf) simp_all
qed

lemma fleet_mono_stopSidecars [io_grows]: "fleet_mono (stopSidecars srv c korder ds)"
  unfolding stopSidecars_def by (intro fleet_mono_each) (auto intro!: io_grows split: prod.split)

section \<open>Images\<close>

definition pullAll :: "'w docker \<Rightarrow> ctx \<Rightarrow> string list \<Rightarrow> string \<Rightarrow> ('w, unit) fleet_io" where
  "pullAll srv c destinations ref = run_group (map (\<lambda>d. (d, pullImage srv c ref)) destinations)"

lemma fleet_mono_pullAll [io_grows]: "fleet_mono (pullAll srv c ds ref)"
  unfolding pullAll_def by (intro io_grows) (simp add: io_mono_pullImage)

lemma gives_pullAll: "gives (pullAll (steady (healthy logs)) c ds ref) ()"
  unfolding pullAll_def by (rule gives_group) (auto simp: gives_pullImage)

lemma no_sidecars_return: "sidecars t = [] \<Longrightarrow> startSidecars fuel srv c ord f t fl \<noteq> None"
  by (simp add: startSidecars_def io_bind_def io_return_def)

end
