(* ===== verification/Zisk_Spec.thy ===== *)
theory Zisk_Spec
  imports Zisk_Client Zisk_Config Container
begin

text \<open>
  \<open>internal/zisk/spec.go\<close>: the containers of a ZisK deployment, with their commands, mounts and
  configuration files. The embedded scripts are the parameters \<open>script\<close>. A command line is a list
  of arguments; the health probe is the shell text itself.
\<close>

section \<open>Constants\<close>

definition zisk_apiPort :: int where "zisk_apiPort = 7000"
definition clusterPort :: int where "clusterPort = 50051"
definition setupContainer :: string where "setupContainer = ''zisk-proving-key-setup''"
definition programSetupContainer :: string where "programSetupContainer = ''zisk-program-setup''"
definition provingKeyDir :: string where "provingKeyDir = ''/root/.zisk/provingKey''"
definition cacheDir :: string where "cacheDir = ''/root/.zisk/cache''"
definition setupKeyBaseURL :: string where "setupKeyBaseURL = ''https://storage.googleapis.com/zisk-setup''"
definition coordinatorConfig :: string where "coordinatorConfig = ''/tmp/zisk-coordinator.toml''"
definition coordinatorEngineConfig :: string where "coordinatorEngineConfig = ''/tmp/zisk-coordinator-engine.toml''"
definition zisk_guestELFPath :: string where "zisk_guestELFPath = ''/tmp/zisk-guest.elf''"
definition guestVKPath :: string where "guestVKPath = ''/tmp/zisk-guest.vk''"
definition registrationLine :: string where "registrationLine = ''Registration accepted: Registration successful''"
definition computeUnitsPerGPU :: int where "computeUnitsPerGPU = 10"
definition aggregationTimeoutSeconds :: int where "aggregationTimeoutSeconds = 600"
definition workerHealthPort :: int where "workerHealthPort = 7001"
definition workerHealthInterval :: int where "workerHealthInterval = 30 * second"
definition workerHealthMaxMisses :: int where
  "workerHealthMaxMisses = (4 * (2 * 10 + 2 * 60) * second + workerHealthInterval - 1) div workerHealthInterval"

section \<open>Volumes\<close>

definition provingKeyVolume :: "string \<Rightarrow> string" where
  "provingKeyVolume version = ''zisk-proving-key-'' @ version"

definition provingKeyMount :: "string \<Rightarrow> mount" where
  "provingKeyMount version = volume_mount (provingKeyVolume version) provingKeyDir False"

definition cacheMount :: "string \<Rightarrow> mount" where
  "cacheMount version = volume_mount (''zisk-cache-'' @ version) cacheDir False"

section \<open>The coordinator\<close>

definition coordinatorTOML :: string where
  \<open>coordinatorTOML = send_lines [''# Generated by provoor.'', ''[backend]'', ''mode = "coordinator"'', [],
     ''[coordinator]'', ''config_file = "'' @ coordinatorEngineConfig @ ''"'']\<close>

definition deployed_gpus :: "zisk_worker list \<Rightarrow> int" where
  "deployed_gpus ws = sum_list (map (\<lambda>w. gpu_len (zw_gpu w)) ws)"

definition coordinatorEngineTOML :: "zisk_worker list \<Rightarrow> string" where
  "coordinatorEngineTOML ws =
     (let gpus = deployed_gpus ws in
      send_lines [''# Generated by provoor. Holds a job until the full cluster is Ready.'', ''[coordinator]'',
        ''# '' @ itoa computeUnitsPerGPU @ '' compute units per gpu over '' @ itoa gpus @ '' gpus.'',
        ''min_compute_units = '' @ itoa (i64 (computeUnitsPerGPU * gpus)),
        ''# Aggregation budget, covering the straggler tail of proof generation because'',
        ''# its clock starts at the first worker to finish.'',
        ''phase3_timeout_seconds = '' @ itoa aggregationTimeoutSeconds])"

definition published :: "int \<Rightarrow> string \<times> string" where
  "published port = (itoa port @ ''/tcp'', itoa port)"

definition zisk_coordinatorSpec :: "zisk_config \<Rightarrow> container" where
  "zisk_coordinatorSpec cfg =
     (let c = zc_cluster cfg in
      plain_container\<lparr>cn_name := zisk_coordinatorContainer, cn_image := imageRef c,
        cn_env := [''RUST_LOG='' @ rustLog (verbose c), ''RESTART_PORT='' @ itoa (coordinatorRestartPort)],
        cn_cmd := [''zisk-supervisor'', ''zisk-coordinator'', ''--api-port'', itoa zisk_apiPort,
          ''--cluster-port'', itoa clusterPort, ''--config'', coordinatorConfig],
        cn_restart := Restart_on_failure,
        cn_ports := [published zisk_apiPort, published clusterPort, published (coordinatorRestartPort)],
        cn_journald := Some zisk_coordinatorContainer, cn_mounts := [cacheMount (zkvm_version c)],
        cn_files := [(coordinatorConfig, bytes_of coordinatorTOML),
          (coordinatorEngineConfig, bytes_of (coordinatorEngineTOML (zc_workers cfg)))]\<rparr>)"

section \<open>The workers\<close>

definition workerCoordinatorURL :: "zisk_config \<Rightarrow> zisk_worker \<Rightarrow> string" where
  "workerCoordinatorURL cfg w =
     (let coord = coordinator (zc_cluster cfg);
          host = (if node_ssh (zw_node w) = node_ssh coord then ''127.0.0.1'' else node_ip coord)
      in ''http://'' @ host @ '':'' @ itoa clusterPort)"

definition ranks_per_node :: "zisk_prover \<Rightarrow> int \<Rightarrow> int" where
  "ranks_per_node p numaNodes =
     (if mpi_numa_ppr p = 0 then max (go_div (mpi_np p) (max numaNodes 1)) 1 else mpi_numa_ppr p)"

text \<open>A flag with a value, where the setting is positive.\<close>

definition positive_flag :: "string \<Rightarrow> int \<Rightarrow> string list" where
  "positive_flag flag v = (if 0 < v then [flag, itoa v] else [])"

definition worker_capacity :: "zisk_worker \<Rightarrow> int" where
  "worker_capacity w = i64 (computeUnitsPerGPU * gpu_len (zw_gpu w))"

definition workerArgs :: "zisk_config \<Rightarrow> zisk_worker \<Rightarrow> string \<Rightarrow> int \<Rightarrow> string list" where
  "workerArgs cfg w name numaNodes =
     (let p = zc_prover cfg; v = verbose (zc_cluster cfg) in
      [''--report-bindings'', ''--allow-run-as-root'', ''-np'', itoa (mpi_np p),
       ''-map-by'', ''ppr:'' @ itoa (ranks_per_node p numaNodes) @ '':numa'', ''--bind-to'', ''numa'', ''--rank-by'', ''slot'']
      @ (if 0 < mpi_threads p then [''-x'', ''RAYON_NUM_THREADS='' @ itoa (mpi_threads p)] else [])
      @ [''-x'', ''RUST_LOG='' @ rustLog v, ''-x'', ''NO_COLOR=1'', ''-x'', ''ZISK_HOME=/root/.zisk'',
         ''-x'', ''ZISK_WORKER_HEALTH_PORT='' @ itoa workerHealthPort, ''-x'', ''RUST_MIN_STACK=67108864'',
         ''zisk-worker-gpu'', ''--coordinator-url'', workerCoordinatorURL cfg w, ''--worker-id'', name,
         ''--compute-capacity'', itoa (worker_capacity w), ''--gpu'']
      @ (if cpu_mops p then [''--cpu-mops''] else [])
      @ [''--proving-key'', provingKeyDir]
      @ positive_flag ''--max-streams'' (max_streams p)
      @ positive_flag ''--number-threads-witness'' (number_threads_witness p)
      @ positive_flag ''--max-witness-stored'' (max_witness_stored p)
      @ (if minimal_memory p then [''--minimal-memory''] else [])
      @ (if 1 \<le> v then [''-'' @ replicate (nat v) CHR ''v''] else []))"

definition workerHealthProbe :: "int \<Rightarrow> string" where
  \<open>workerHealthProbe port =
     ''state=/tmp/zisk-health-$(cut -d' ' -f22 /proc/1/stat); ''
     @ ''if code=$(curl -sS -m 4 -o /tmp/zisk-health -w %{http_code} 127.0.0.1:'' @ itoa port @ ''/health); then ''
     @ ''grep -q '^zisk-worker ' /tmp/zisk-health || exit 1; ''
     @ ''echo 0 > $state; ''
     @ ''[ "$code" = 200 ] && exit 0; ''
     @ ''pkill -KILL -x zisk-worker-gpu; exit 1; ''
     @ ''fi; ''
     @ ''[ -f $state ] || exit 1; ''
     @ ''misses=$(($(cat $state) + 1)); echo $misses > $state; ''
     @ ''[ $misses -ge '' @ itoa workerHealthMaxMisses @ '' ] && pkill -KILL -x zisk-worker-gpu; exit 1''\<close>

definition workerHealthCheck :: health_check where
  "workerHealthCheck = \<lparr>hc_test = [''CMD-SHELL'', workerHealthProbe workerHealthPort],
     hc_interval = workerHealthInterval, hc_timeout = 10 * second, hc_start_period = 600 * second, hc_retries = 1\<rparr>"

definition zisk_workerSpec :: "zisk_config \<Rightarrow> zisk_worker \<Rightarrow> string \<Rightarrow> int \<Rightarrow> container" where
  "zisk_workerSpec cfg w name numaNodes =
     (let c = zc_cluster cfg in
      plain_container\<lparr>cn_name := zisk_workerContainer, cn_image := imageRef c, cn_entrypoint := [''mpirun''],
        cn_cmd := workerArgs cfg w name numaNodes, cn_health := Some workerHealthCheck, cn_host_network := True,
        cn_restart := Restart_on_failure, cn_shm_size := gigabytes (shm_size_gb (zc_prover cfg)),
        cn_journald := Some zisk_workerContainer,
        cn_mounts := [provingKeyMount (zkvm_version c), cacheMount (zkvm_version c)],
        cn_memlock := True, cn_devices := [deviceRequest (zw_gpu w)]\<rparr>)"

section \<open>Setup jobs\<close>

text \<open>\<open>Sscanf\<close> with \<open>%d\<close>: spaces, a sign, digits of a 64-bit number.\<close>

definition sscanf_int :: "string \<Rightarrow> (int \<times> string) option" where
  "sscanf_int s =
     (let s1 = dropWhile (\<lambda>c. is_space c \<and> c \<noteq> CHR 0x0A) s;
          signed = (s1 \<noteq> [] \<and> hd s1 \<in> {CHR ''-'', CHR ''+''});
          s2 = (if signed then tl s1 else s1);
          ds = takeWhile is_digit s2;
          v = (if signed \<and> hd s1 = CHR ''-'' then - int (digits_val ds) else int (digits_val ds))
      in if ds = [] \<or> \<not> in_i64 v then None else Some (v, drop (length ds) s2))"

definition major_minor :: "string \<Rightarrow> (int \<times> int) option" where
  "major_minor s =
     (case sscanf_int s of
        Some (major, CHR ''.'' # rest) \<Rightarrow> (case sscanf_int rest of Some (minor, _) \<Rightarrow> Some (major, minor) | None \<Rightarrow> None)
      | _ \<Rightarrow> None)"

definition provingKeyArchive :: "string \<Rightarrow> string" where
  "provingKeyArchive version =
     (case major_minor version of
        Some (major, minor) \<Rightarrow>
          if major < 1 \<or> major = 1 \<and> minor < 3 then ''zisk-provingkey-'' @ version @ ''.tar.gz''
          else ''zisk-provingkey-'' @ version @ ''-blake3.tar.gz''
      | None \<Rightarrow> ''zisk-provingkey-'' @ version @ ''-blake3.tar.gz'')"

definition setupSpec :: "string \<Rightarrow> zisk_config \<Rightarrow> gpu \<Rightarrow> container" where
  "setupSpec script cfg g =
     (let c = zc_cluster cfg in
      plain_container\<lparr>cn_name := setupContainer, cn_image := imageRef c,
        cn_env := [''KEY_URL='' @ setupKeyBaseURL @ ''/'' @ provingKeyArchive (zkvm_version c),
          ''PROVING_KEY_DIR='' @ provingKeyDir],
        cn_cmd := [''bash'', ''-c'', script], cn_shm_size := 16 * 2 ^ 30,
        cn_mounts := [provingKeyMount (zkvm_version c)], cn_memlock := True, cn_devices := [deviceRequest g]\<rparr>)"

definition programSetupSpec :: "string \<Rightarrow> zisk_config \<Rightarrow> gpu \<Rightarrow> bytes \<Rightarrow> bytes \<Rightarrow> container" where
  "programSetupSpec script cfg g elf vk =
     (let c = zc_cluster cfg in
      plain_container\<lparr>cn_name := programSetupContainer, cn_image := imageRef c,
        cn_env := [''ELF_PATH='' @ zisk_guestELFPath, ''VK_PATH='' @ guestVKPath, ''PROVING_KEY_DIR='' @ provingKeyDir,
          ''CACHE_DIR='' @ cacheDir, ''RUST_LOG='' @ rustLog (verbose c)],
        cn_cmd := [''bash'', ''-c'', script], cn_shm_size := gigabytes (shm_size_gb (zc_prover cfg)),
        cn_mounts := [provingKeyMount (zkvm_version c), cacheMount (zkvm_version c)],
        cn_memlock := True, cn_devices := [deviceRequest g],
        cn_files := [(zisk_guestELFPath, elf), (guestVKPath, vk)]\<rparr>)"

definition topologyProbeSpec :: "zisk_config \<Rightarrow> container" where
  "topologyProbeSpec cfg =
     plain_container\<lparr>cn_name := zisk_workerContainer @ ''-probe'', cn_image := imageRef (zc_cluster cfg),
       cn_cmd := [''bash'', ''-c'', ''ls -d /sys/devices/system/node/node[0-9]* 2>/dev/null | wc -l'']\<rparr>"

lemma key_archives:
  "provingKeyArchive ''1.2.0'' = ''zisk-provingkey-1.2.0.tar.gz''"
  "provingKeyArchive ''1.3.1-alpha'' = ''zisk-provingkey-1.3.1-alpha-blake3.tar.gz''"
  "provingKeyArchive ''v1.2.0'' = ''zisk-provingkey-v1.2.0-blake3.tar.gz''"
  by (simp_all add: provingKeyArchive_def major_minor_def sscanf_int_def is_digit_def is_space_def digits_val_def
      digit_val_def in_i64_def)

section \<open>Capacities\<close>

lemma deployed_gpus_capacity:
  assumes "computeUnitsPerGPU * deployed_gpus ws < 2 ^ 63"
  shows "i64 (computeUnitsPerGPU * deployed_gpus ws) = sum_list (map worker_capacity ws)
    \<and> (\<forall>w \<in> set ws. worker_capacity w = computeUnitsPerGPU * gpu_len (zw_gpu w))"
proof -
  have nonneg: "0 \<le> gpu_len g" for g by (simp add: gpu_len_def)
  have total: "0 \<le> deployed_gpus ws'" for ws' by (auto simp: deployed_gpus_def nonneg intro!: sum_list_nonneg)
  have part: "gpu_len (zw_gpu w) \<le> deployed_gpus ws" if "w \<in> set ws" for w
    unfolding deployed_gpus_def by (rule member_le_sum_list) (use that nonneg in auto)
  have cap: "worker_capacity w = computeUnitsPerGPU * gpu_len (zw_gpu w)" if "w \<in> set ws" for w
    unfolding worker_capacity_def
    by (rule i64_id) (use part [OF that] nonneg [of "zw_gpu w"] assms in \<open>auto simp: in_i64_def computeUnitsPerGPU_def\<close>)
  have "i64 (computeUnitsPerGPU * deployed_gpus ws) = computeUnitsPerGPU * deployed_gpus ws"
    by (rule i64_id) (use total [of ws] assms in \<open>auto simp: in_i64_def computeUnitsPerGPU_def\<close>)
  also have "\<dots> = sum_list (map (\<lambda>w. computeUnitsPerGPU * gpu_len (zw_gpu w)) ws)"
    by (simp add: deployed_gpus_def sum_list_const_mult)
  also have "\<dots> = sum_list (map worker_capacity ws)"
    using cap by (intro arg_cong [of _ _ sum_list] map_cong) auto
  finally show ?thesis using cap by blast
qed

lemma advertised: "\<exists>before after. workerArgs cfg w name nodes
    = before @ [''--compute-capacity'', itoa (worker_capacity w)] @ after"
proof -
  let ?p = "zc_prover cfg" and ?v = "verbose (zc_cluster cfg)"
  let ?before = "[''--report-bindings'', ''--allow-run-as-root'', ''-np'', itoa (mpi_np ?p),
       ''-map-by'', ''ppr:'' @ itoa (ranks_per_node ?p nodes) @ '':numa'', ''--bind-to'', ''numa'', ''--rank-by'', ''slot'']
      @ (if 0 < mpi_threads ?p then [''-x'', ''RAYON_NUM_THREADS='' @ itoa (mpi_threads ?p)] else [])
      @ [''-x'', ''RUST_LOG='' @ rustLog ?v, ''-x'', ''NO_COLOR=1'', ''-x'', ''ZISK_HOME=/root/.zisk'',
         ''-x'', ''ZISK_WORKER_HEALTH_PORT='' @ itoa workerHealthPort, ''-x'', ''RUST_MIN_STACK=67108864'',
         ''zisk-worker-gpu'', ''--coordinator-url'', workerCoordinatorURL cfg w, ''--worker-id'', name]"
  let ?after = "[''--gpu''] @ (if cpu_mops ?p then [''--cpu-mops''] else []) @ [''--proving-key'', provingKeyDir]
      @ positive_flag ''--max-streams'' (max_streams ?p)
      @ positive_flag ''--number-threads-witness'' (number_threads_witness ?p)
      @ positive_flag ''--max-witness-stored'' (max_witness_stored ?p)
      @ (if minimal_memory ?p then [''--minimal-memory''] else [])
      @ (if 1 \<le> ?v then [''-'' @ replicate (nat ?v) CHR ''v''] else [])"
  have "workerArgs cfg w name nodes = ?before @ [''--compute-capacity'', itoa (worker_capacity w)] @ ?after"
    unfolding workerArgs_def Let_def by (simp only: append_Cons append_Nil append_assoc)
  then show ?thesis by blast
qed

text \<open>The coordinator holds a job until exactly the compute units its workers advertise are there: the
  floor its engine reads is the sum of the capacities on the workers' command lines, each in
  proportion to the devices the worker is given.\<close>

theorem capacity_floor:
  assumes "computeUnitsPerGPU * deployed_gpus (zc_workers cfg) < 2 ^ 63"
  shows "(\<exists>before after. coordinatorEngineTOML (zc_workers cfg)
        = before @ ''min_compute_units = '' @ itoa (sum_list (map worker_capacity (zc_workers cfg))) @ CHR 0x0A # after)
    \<and> (\<forall>w \<in> set (zc_workers cfg). \<forall>name nodes.
        (\<exists>before after. cn_cmd (zisk_workerSpec cfg w name nodes)
          = before @ [''--compute-capacity'', itoa (worker_capacity w)] @ after)
        \<and> worker_capacity w = computeUnitsPerGPU * int (length (concat (map dr_device_ids (cn_devices (zisk_workerSpec cfg w name nodes))))))"
proof (intro conjI ballI allI)
  note sums = deployed_gpus_capacity [OF assms]
  show "\<exists>before after. coordinatorEngineTOML (zc_workers cfg)
      = before @ ''min_compute_units = '' @ itoa (sum_list (map worker_capacity (zc_workers cfg))) @ CHR 0x0A # after"
    unfolding coordinatorEngineTOML_def Let_def sums [THEN conjunct1]
    by (intro exI [of _ "send_lines [''# Generated by provoor. Holds a job until the full cluster is Ready.'',
          ''[coordinator]'', ''# '' @ itoa computeUnitsPerGPU @ '' compute units per gpu over ''
            @ itoa (deployed_gpus (zc_workers cfg)) @ '' gpus.'']"]
        exI [of _ "send_lines [''# Aggregation budget, covering the straggler tail of proof generation because'',
          ''# its clock starts at the first worker to finish.'',
          ''phase3_timeout_seconds = '' @ itoa aggregationTimeoutSeconds]"])
      (simp add: send_lines_def)
  fix w name nodes
  assume w: "w \<in> set (zc_workers cfg)"
  have "cn_cmd (zisk_workerSpec cfg w name nodes) = workerArgs cfg w name nodes" by (simp add: zisk_workerSpec_def Let_def)
  then show "\<exists>before after. cn_cmd (zisk_workerSpec cfg w name nodes)
      = before @ [''--compute-capacity'', itoa (worker_capacity w)] @ after"
    by (simp only: advertised)
  show "worker_capacity w = computeUnitsPerGPU * int (length (concat (map dr_device_ids (cn_devices (zisk_workerSpec cfg w name nodes)))))"
    using sums w by (simp add: zisk_workerSpec_def Let_def plain_container_def deviceRequest_def gpu_len_def)
qed

definition capacity_sample :: zisk_config where
  "capacity_sample = zisk_sample\<lparr>zc_workers := [\<lparr>zw_node = \<lparr>node_ssh = ''a'', node_ip = []\<rparr>, zw_gpu = \<lparr>device_ids = [0, 1]\<rparr>\<rparr>,
     \<lparr>zw_node = \<lparr>node_ssh = ''b'', node_ip = []\<rparr>, zw_gpu = \<lparr>device_ids = [3]\<rparr>\<rparr>]\<rparr>"

theorem capacity_floor_witness:
  "\<exists>before after. coordinatorEngineTOML (zc_workers capacity_sample) = before @ ''min_compute_units = '' @ itoa 30 @ CHR 0x0A # after"
proof -
  have "computeUnitsPerGPU * deployed_gpus (zc_workers capacity_sample) < 2 ^ 63"
    by (simp add: computeUnitsPerGPU_def deployed_gpus_def capacity_sample_def gpu_len_def)
  note capacity_floor [OF this, THEN conjunct1]
  moreover have "sum_list (map worker_capacity (zc_workers capacity_sample)) = 30"
    by (simp add: capacity_sample_def worker_capacity_def computeUnitsPerGPU_def gpu_len_def i64_id in_i64_def)
  ultimately show ?thesis by (simp only:)
qed

end
