(* ===== verification/Zisk_Deploy.thy ===== *)
theory Zisk_Deploy
  imports Fleet Guests Zisk_Spec Journal
begin

text \<open>
  \<open>internal/zisk/deploy.go\<close>: \<open>Up\<close> and \<open>Down\<close> of a ZisK cluster over the hosts of
  \<open>Fleet\<close>. \<open>gctx\<close> gives the context of each group of goroutines; \<open>c\<close> is the one of the
  command. The scripts and the DCGM fields are embedded files, and parameters. Progress lines are left
  out.
\<close>

record resolved_guest =
  rg_name :: string
  rg_elf :: bytes
  rg_vk :: bytes

record zisk_files =
  setup_script :: string
  program_setup_script :: string
  zisk_dcgm_fields :: bytes

section \<open>Guests\<close>

fun zisk_resolveGuests ::
  "(string \<Rightarrow> deploy_error + bytes) \<Rightarrow> (string \<Rightarrow> string) \<Rightarrow> guest list \<Rightarrow> deploy_error + resolved_guest list" where
  "zisk_resolveGuests resolve name [] = Inr []"
| "zisk_resolveGuests resolve name (g # gs) =
     (case ResolveGuest resolve g of
        Inl e \<Rightarrow> Inl (Wrapped (''resolving guest '' @ name (guest_elf g)) e)
      | Inr (elf, vk) \<Rightarrow> rbind (zisk_resolveGuests resolve name gs) (\<lambda>rest.
          Inr (\<lparr>rg_name = name (guest_elf g), rg_elf = elf, rg_vk = vk\<rparr> # rest)))"

section \<open>One worker host\<close>

definition partial_volume :: "string \<Rightarrow> string \<Rightarrow> string" where
  "partial_volume node volume = ''proving-key setup on '' @ node @ '', and removing the partial volume '' @ volume
     @ '' failed, remove it before retrying''"

text \<open>The setup of a created volume; an error removes the volume under a context that nothing cancels.\<close>

definition fill_volume ::
  "'w docker \<Rightarrow> ctx \<Rightarrow> file_order \<Rightarrow> string \<Rightarrow> zisk_config \<Rightarrow> zisk_worker \<Rightarrow> string \<Rightarrow> ('w, unit) docker_io" where
  "fill_volume srv c ord script cfg w node =
     (let volume = provingKeyVolume (zkvm_version (zc_cluster cfg)) in
      io_bind (io_try (container_run srv c ord (setupSpec script cfg (zw_gpu w)))) (\<lambda>r.
        case r of
          Inr _ \<Rightarrow> io_return ()
        | Inl e \<Rightarrow> io_bind (io_ask srv (without_cancel c) (Volume_remove volume)) (\<lambda>removed.
            if dk_error removed \<noteq> None then io_fail (Wrapped (partial_volume node volume) e)
            else io_fail (Wrapped (''proving-key setup on '' @ node) e))))"

definition ensureProvingKey ::
  "'w docker \<Rightarrow> ctx \<Rightarrow> file_order \<Rightarrow> string \<Rightarrow> zisk_config \<Rightarrow> zisk_worker \<Rightarrow> string \<Rightarrow> ('w, unit) docker_io" where
  "ensureProvingKey srv c ord script cfg w node =
     (let volume = provingKeyVolume (zkvm_version (zc_cluster cfg)) in
      io_bind (io_ask srv c (Volume_inspect volume)) (\<lambda>r.
        case dk_error r of
          None \<Rightarrow> io_return ()
        | Some Not_found \<Rightarrow>
            io_bind (io_wrap (Wrapped (at_node ''creating volume'' volume node)) (must srv c (Volume_create volume))) (\<lambda>_.
              fill_volume srv c ord script cfg w node)
        | Some e \<Rightarrow> io_fail (Wrapped (at_node ''inspecting volume'' volume node) (Raw e))))"

definition setupGuests ::
  "'w docker \<Rightarrow> ctx \<Rightarrow> file_order \<Rightarrow> string \<Rightarrow> zisk_config \<Rightarrow> zisk_worker \<Rightarrow> string \<Rightarrow> resolved_guest list \<Rightarrow> ('w, unit) docker_io" where
  "setupGuests srv c ord script cfg w node gs = io_each (\<lambda>g.
     io_wrap (Wrapped (at_node ''compiling guest'' (rg_name g) node))
       (io_bind (container_run srv c ord (programSetupSpec script cfg (zw_gpu w) (rg_elf g) (rg_vk g))) (\<lambda>_. io_return ()))) gs"

definition topology_count :: "string \<Rightarrow> int" where
  "topology_count output =
     (let trimmed = trim_space output; line = drop (nat (last_index CHR 0x0A trimmed + 1)) trimmed
      in case parse_int64 line of Some n \<Rightarrow> if 1 < n then n else 1 | None \<Rightarrow> 1)"

definition hostTopology ::
  "'w docker \<Rightarrow> ctx \<Rightarrow> file_order \<Rightarrow> zisk_config \<Rightarrow> string \<Rightarrow> ('w, int) docker_io" where
  "hostTopology srv c ord cfg node =
     (if mpi_numa_ppr (zc_prover cfg) \<noteq> 0 \<or> mpi_np (zc_prover cfg) \<le> 1 then io_return 1
      else io_bind (io_wrap (Wrapped (''detecting NUMA nodes on '' @ node)) (container_run srv c ord (topologyProbeSpec cfg)))
        (\<lambda>output. io_return (topology_count output)))"

definition registrationTimeout :: int where "registrationTimeout = 300 * second"

definition zisk_startWorker ::
  "nat \<Rightarrow> 'w docker \<Rightarrow> ctx \<Rightarrow> file_order \<Rightarrow> zisk_config \<Rightarrow> zisk_worker \<Rightarrow> string \<Rightarrow> ('w, unit) docker_io" where
  "zisk_startWorker fuel srv c ord cfg w name =
     io_bind (io_wrap (Wrapped name) (running srv c zisk_workerContainer)) (\<lambda>up.
     io_bind (if up then io_return ()
              else io_bind (hostTopology srv c ord cfg name) (\<lambda>numaNodes.
                io_wrap (Wrapped (''starting '' @ name))
                  (container_begin srv c ord (zisk_workerSpec cfg w name numaNodes)))) (\<lambda>_.
     waitLogLine fuel srv c zisk_workerContainer name registrationLine registrationTimeout))"

section \<open>The cluster\<close>

text \<open>A task of every worker, under its name.\<close>

definition zisk_each :: "zisk_config \<Rightarrow> (zisk_worker \<Rightarrow> string \<Rightarrow> ('w, unit) docker_io) \<Rightarrow> 'w host_task list" where
  "zisk_each cfg t = map (\<lambda>iw. (node_ssh (zw_node (snd iw)), t (snd iw) (workerName (fst iw) (zw_gpu (snd iw)))))
     (indexed (zc_workers cfg))"

definition zisk_ports :: "int list" where
  "zisk_ports = [zisk_apiPort, clusterPort, coordinatorRestartPort]"

definition zisk_deploy ::
  "nat \<Rightarrow> 'w docker \<Rightarrow> file_order \<Rightarrow> zisk_files \<Rightarrow> (nat \<Rightarrow> ctx) \<Rightarrow> ctx \<Rightarrow> zisk_config \<Rightarrow> string list \<Rightarrow> resolved_guest list
    \<Rightarrow> ('w, unit) fleet_io" where
  "zisk_deploy fuel srv ord fs gctx c cfg destinations gs =
     (let cc = zc_cluster cfg; coord = node_ssh (coordinator cc) in
      io_bind (pullAll srv (gctx 0) destinations (imageRef cc)) (\<lambda>_.
      io_bind (run_group (zisk_each cfg (ensureProvingKey srv (gctx 1) ord (setup_script fs) cfg))) (\<lambda>_.
      io_bind (run_group (zisk_each cfg (\<lambda>w node. setupGuests srv (gctx 2) ord (program_setup_script fs) cfg w node gs))) (\<lambda>_.
      io_bind (on_host coord (startCoordinator fuel srv c ord (coordinatorHost cc) (zisk_coordinatorSpec cfg) zisk_ports)) (\<lambda>_.
      io_bind (run_group (zisk_each cfg (zisk_startWorker fuel srv (gctx 3) ord cfg))) (\<lambda>_.
      io_bind (io_try (startSidecars fuel srv c ord (zisk_dcgm_fields fs) (telemetry cc))) (\<lambda>_. io_return ())))))))"

definition zisk_up ::
  "nat \<Rightarrow> 'w docker \<Rightarrow> file_order \<Rightarrow> zisk_files \<Rightarrow> (string \<Rightarrow> string + 'cli) \<Rightarrow> ('cli \<Rightarrow> string option)
    \<Rightarrow> (string dial_error \<Rightarrow> string) \<Rightarrow> (string \<Rightarrow> deploy_error + bytes) \<Rightarrow> (string \<Rightarrow> string) \<Rightarrow> (nat \<Rightarrow> ctx) \<Rightarrow> ctx
    \<Rightarrow> zisk_config \<Rightarrow> ('w, unit) fleet_io" where
  "zisk_up fuel srv ord fs dial ping show resolve name gctx c cfg fl =
     (case dialHosts dial ping (zisk_destinations cfg) of
        Inl (e, _) \<Rightarrow> io_fail (Message (show e)) fl
      | Inr hosts \<Rightarrow>
          (case zisk_resolveGuests resolve name (guests (zc_cluster cfg)) of
             Inl e \<Rightarrow> io_fail e fl
           | Inr gs \<Rightarrow> zisk_deploy fuel srv ord fs gctx c cfg (hostDestinations hosts) gs fl))"

text \<open>\<open>Down\<close>: the workers in parallel, each to its end, and then the coordinator.\<close>

definition zisk_teardown ::
  "'w docker \<Rightarrow> ctx \<Rightarrow> (string \<Rightarrow> string list) \<Rightarrow> zisk_config \<Rightarrow> string list \<Rightarrow> ('w, unit) fleet_io" where
  "zisk_teardown srv c korder cfg destinations =
     io_bind (stopSidecars srv c korder destinations) (\<lambda>_.
     io_bind (run_all (zisk_each cfg (\<lambda>w node. stopAndRemove srv c zisk_workerContainer node))) (\<lambda>errs.
     io_bind (run_all [(node_ssh (coordinator (zc_cluster cfg)),
         stopAndRemove srv c zisk_coordinatorContainer CoordinatorName)]) (\<lambda>errs'.
     if errs @ errs' = [] then io_return () else io_fail (join_errors (errs @ errs')))))"

definition zisk_down ::
  "'w docker \<Rightarrow> (string \<Rightarrow> string + 'cli) \<Rightarrow> ('cli \<Rightarrow> string option) \<Rightarrow> (string dial_error \<Rightarrow> string)
    \<Rightarrow> (string \<Rightarrow> string list) \<Rightarrow> ctx \<Rightarrow> zisk_config \<Rightarrow> ('w, unit) fleet_io" where
  "zisk_down srv dial ping show korder c cfg fl =
     (case dialHosts dial ping (zisk_destinations cfg) of
        Inl (e, _) \<Rightarrow> io_fail (Message (show e)) fl
      | Inr hosts \<Rightarrow> zisk_teardown srv c korder cfg (hostDestinations hosts) fl)"

end
