(* ===== verification/Zisk_Up.thy ===== *)
theory Zisk_Up
  imports Zisk_Deploy
begin

text \<open>
  What a deployed ZisK cluster is known to have been through: on every worker host the proving key was
  there or was set up, then every guest was compiled, and then the worker registered; the coordinator's
  ports answered.
\<close>

section \<open>Growth of the tasks\<close>

lemma io_mono_fill_volume [io_grows]: "io_mono (fill_volume srv c ord script cfg w node)"
  unfolding fill_volume_def Let_def by (intro io_grows)

lemma io_mono_ensureProvingKey [io_grows]: "io_mono (ensureProvingKey srv c ord script cfg w node)"
  unfolding ensureProvingKey_def Let_def
  by (intro io_mono_bind io_grows) (auto split: option.split docker_error.split intro!: io_grows)

lemma io_mono_setupGuests [io_grows]: "io_mono (setupGuests srv c ord script cfg w node gs)"
  unfolding setupGuests_def by (intro io_grows)

lemma io_mono_hostTopology [io_grows]: "io_mono (hostTopology srv c ord cfg node)"
  unfolding hostTopology_def by (intro io_grows)

lemma io_mono_zisk_startWorker [io_grows]: "io_mono (zisk_startWorker fuel srv c ord cfg w name)"
  unfolding zisk_startWorker_def by (intro io_grows)

lemma zisk_each_mono [simp]: "(\<And>w node. io_mono (t w node)) \<Longrightarrow> tasks_mono (zisk_each cfg t)"
  by (auto simp: zisk_each_def tasks_mono_def)

lemma zisk_each_member:
  assumes "w \<in> set (zc_workers cfg)"
  shows "\<exists>node. (node_ssh (zw_node w), t w node) \<in> set (zisk_each cfg t)"
proof -
  from assms obtain i where i: "i < length (zc_workers cfg)" "zc_workers cfg ! i = w" by (metis in_set_conv_nth)
  then have "(i, w) \<in> set (indexed (zc_workers cfg))" unfolding indexed_def set_zip by (auto intro: exI [of _ i])
  then show ?thesis unfolding zisk_each_def by force
qed

section \<open>The proving key\<close>

definition key_volume :: "zisk_config \<Rightarrow> string" where
  "key_volume cfg = provingKeyVolume (zkvm_version (zc_cluster cfg))"

text \<open>The volume was there, or it was created and the setup job ran in it to the exit code zero.\<close>

definition key_ready ::
  "'w docker \<Rightarrow> file_order \<Rightarrow> string \<Rightarrow> zisk_config \<Rightarrow> zisk_worker \<Rightarrow> 'w host_machine \<Rightarrow> 'w host_machine \<Rightarrow> bool" where
  "key_ready srv ord script cfg w m m' \<longleftrightarrow>
     (\<exists>r. dk_error r = None \<and> saw srv [(Volume_inspect (key_volume cfg), r)] m m')
     \<or> (\<exists>r m1 out. dk_error r = None \<and> saw srv [(Volume_create (key_volume cfg), r)] m m1
          \<and> job_ran srv ord (setupSpec script cfg (zw_gpu w)) out m1 m')"

lemma key_ready_within:
  "grows (\<lambda>_. True) m m1 \<Longrightarrow> key_ready srv ord script cfg w m1 m2 \<Longrightarrow> grows (\<lambda>_. True) m2 m' \<Longrightarrow>
    key_ready srv ord script cfg w m m'"
  unfolding key_ready_def by (blast intro: saw_before saw_after job_ran_within grows_refl)

lemma fill_volume_Inr:
  assumes "fill_volume srv c ord script cfg w node m = Some (Inr (), m')"
  shows "\<exists>out. job_ran srv ord (setupSpec script cfg (zw_gpu w)) out m m'"
proof -
  let ?after = "\<lambda>r. case r of
          Inr _ \<Rightarrow> io_return ()
        | Inl e \<Rightarrow> io_bind (io_ask srv (without_cancel c) (Volume_remove (key_volume cfg))) (\<lambda>removed.
            if dk_error removed \<noteq> None then io_fail (Wrapped (partial_volume node (key_volume cfg)) e)
            else io_fail (Wrapped (''proving-key setup on '' @ node) e))"
  from assms obtain r m1 where r: "container_run srv c ord (setupSpec script cfg (zw_gpu w)) m = Some (r, m1)" and
    rest: "?after r m1 = Some (Inr (), m')"
    unfolding fill_volume_def Let_def key_volume_def [symmetric] io_bind_Inr io_try_iff sum.inject by blast
  show ?thesis
  proof (cases r)
    case (Inl e)
    with rest show ?thesis by (auto simp: io_bind_Inr split: if_splits)
  next
    case (Inr out)
    with rest r container_run_ends [OF r] show ?thesis by auto
  qed
qed

lemma fill_volume_Inl:
  assumes "fill_volume srv c ord script cfg w node m = Some (Inl e, m')"
  shows "\<exists>m1 reply. grows (\<lambda>_. True) m m1 \<and> call srv (without_cancel c) (Volume_remove (key_volume cfg)) m1 = (reply, m')
    \<and> (dk_error reply \<noteq> None \<longrightarrow> (\<exists>e0. e = Wrapped (partial_volume node (key_volume cfg)) e0))"
proof -
  let ?after = "\<lambda>r. case r of
          Inr _ \<Rightarrow> io_return ()
        | Inl e \<Rightarrow> io_bind (io_ask srv (without_cancel c) (Volume_remove (key_volume cfg))) (\<lambda>removed.
            if dk_error removed \<noteq> None then io_fail (Wrapped (partial_volume node (key_volume cfg)) e)
            else io_fail (Wrapped (''proving-key setup on '' @ node) e))"
  have "io_bind (io_try (container_run srv c ord (setupSpec script cfg (zw_gpu w)))) ?after m = Some (Inl e, m')"
    using assms unfolding fill_volume_def Let_def key_volume_def [symmetric] .
  then obtain x m1 where x: "container_run srv c ord (setupSpec script cfg (zw_gpu w)) m = Some (x, m1)" and
    after: "?after x m1 = Some (Inl e, m')"
    unfolding io_bind_Inl io_try_iff by blast
  from after obtain r where r: "x = Inl r" by (cases x) auto
  obtain reply m2 where reply: "call srv (without_cancel c) (Volume_remove (key_volume cfg)) m1 = (reply, m2)" by force
  have "m2 = m' \<and> (dk_error reply \<noteq> None \<longrightarrow> e = Wrapped (partial_volume node (key_volume cfg)) r)"
    using after unfolding r sum.case io_ask_bind [OF reply] by (auto split: if_splits)
  with reply have "call srv (without_cancel c) (Volume_remove (key_volume cfg)) m1 = (reply, m')"
    "dk_error reply \<noteq> None \<longrightarrow> e = Wrapped (partial_volume node (key_volume cfg)) r" by blast+
  with io_monoD [OF io_mono_container_run x] show ?thesis by blast
qed

lemma ensureProvingKey_Inr:
  assumes "ensureProvingKey srv c ord script cfg w node m = Some (Inr (), m')"
  shows "key_ready srv ord script cfg w m m'"
proof -
  from assms obtain r m1 where r: "call srv c (Volume_inspect (key_volume cfg)) m = (r, m1)" and
    rest: "(case dk_error r of
          None \<Rightarrow> io_return ()
        | Some Not_found \<Rightarrow>
            io_bind (io_wrap (Wrapped (at_node ''creating volume'' (key_volume cfg) node)) (must srv c (Volume_create (key_volume cfg)))) (\<lambda>_.
              fill_volume srv c ord script cfg w node)
        | Some e \<Rightarrow> io_fail (Wrapped (at_node ''inspecting volume'' (key_volume cfg) node) (Raw e))) m1 = Some (Inr (), m')"
    unfolding ensureProvingKey_def Let_def key_volume_def [symmetric] io_bind_Inr io_ask_Inr by blast
  show ?thesis
  proof (cases "dk_error r")
    case None
    with rest saw_call [OF r] show ?thesis unfolding key_ready_def by auto
  next
    case (Some e)
    with rest have "e = Not_found" by (cases e) auto
    with Some rest obtain created m2 where 2: "call srv c (Volume_create (key_volume cfg)) m1 = (created, m2)"
      "dk_error created = None" and 3: "fill_volume srv c ord script cfg w node m2 = Some (Inr (), m')"
      by (auto simp: io_bind_Inr)
    have "saw srv [(Volume_create (key_volume cfg), created)] m m2"
      by (rule saw_before [OF grows_call_eq [OF r] saw_call [OF 2(1)]]) simp
    moreover obtain out where "job_ran srv ord (setupSpec script cfg (zw_gpu w)) out m2 m'"
      using fill_volume_Inr [OF 3] by blast
    ultimately show ?thesis unfolding key_ready_def
      by (intro disjI2 exI [of _ created] exI [of _ m2] exI [of _ out] conjI 2(2))
  qed
qed

lemma ensureProvingKey_Inl:
  assumes "ensureProvingKey srv c ord script cfg w node m = Some (Inl e, m')"
  shows "(\<exists>m1 reply. grows (\<lambda>_. True) m m1 \<and> call srv (without_cancel c) (Volume_remove (key_volume cfg)) m1 = (reply, m')
      \<and> (dk_error reply \<noteq> None \<longrightarrow> (\<exists>e0. e = Wrapped (partial_volume node (key_volume cfg)) e0)))
    \<or> (\<exists>m1 reply q. q \<in> {Volume_inspect (key_volume cfg), Volume_create (key_volume cfg)} \<and> grows (\<lambda>_. True) m m1
      \<and> call srv c q m1 = (reply, m') \<and> dk_error reply \<noteq> None)"
proof -
  obtain r m1 where r: "call srv c (Volume_inspect (key_volume cfg)) m = (r, m1)" by force
  have g: "grows (\<lambda>_. True) m m1" using r by (rule grows_call_eq) simp
  have rest: "(case dk_error r of
          None \<Rightarrow> io_return ()
        | Some Not_found \<Rightarrow>
            io_bind (io_wrap (Wrapped (at_node ''creating volume'' (key_volume cfg) node)) (must srv c (Volume_create (key_volume cfg)))) (\<lambda>_.
              fill_volume srv c ord script cfg w node)
        | Some e \<Rightarrow> io_fail (Wrapped (at_node ''inspecting volume'' (key_volume cfg) node) (Raw e))) m1 = Some (Inl e, m')"
    using assms unfolding ensureProvingKey_def Let_def key_volume_def [symmetric] io_ask_bind [OF r] .
  then obtain d where d: "dk_error r = Some d" by (cases "dk_error r") auto
  show ?thesis
  proof (cases d)
    case Not_found
    with d rest consider e' where "must srv c (Volume_create (key_volume cfg)) m1 = Some (Inl e', m')"
      | created m2 where "call srv c (Volume_create (key_volume cfg)) m1 = (created, m2)"
          "fill_volume srv c ord script cfg w node m2 = Some (Inl e, m')"
      by (auto simp: io_bind_Inl io_wrap_Inl)
    then show ?thesis
    proof cases
      case 1
      from must_Inl [OF 1] obtain reply where "call srv c (Volume_create (key_volume cfg)) m1 = (reply, m')"
        "dk_error reply \<noteq> None" by blast
      with g show ?thesis
        by (intro disjI2 exI [of _ m1] exI [of _ reply] exI [of _ "Volume_create (key_volume cfg)"]) simp
    next
      case 2
      have "grows (\<lambda>_. True) m m2" using grows_trans [OF g grows_call_eq [OF 2(1)]] by simp
      moreover obtain m3 reply where "grows (\<lambda>_. True) m2 m3"
        "call srv (without_cancel c) (Volume_remove (key_volume cfg)) m3 = (reply, m')"
        "dk_error reply \<noteq> None \<longrightarrow> (\<exists>e0. e = Wrapped (partial_volume node (key_volume cfg)) e0)"
        using fill_volume_Inl [OF 2(2)] by blast
      ultimately show ?thesis
        by (intro disjI1 exI [of _ m3] exI [of _ reply] conjI) (auto intro: grows_trans)
    qed
  next
    case (Docker_error t)
    with d rest r show ?thesis by (intro disjI2 exI [of _ m] exI [of _ r] exI [of _ "Volume_inspect (key_volume cfg)"]) auto
  qed
qed

text \<open>C16: the volume of a proving key never passes for a finished setup. \<open>ensureProvingKey\<close> ends without
  an error only where the volume was there, or was created and filled by a job that exited with zero;
  it ends with one only at a failed inspection or creation, or at a removal of the volume that
  nothing cancels, and a removal that fails is what the error reports.\<close>

theorem proving_key_volume:
  assumes "ensureProvingKey srv c ord script cfg w node m = Some (r, m')"
  shows "(r = Inr () \<longrightarrow> key_ready srv ord script cfg w m m')
    \<and> (\<forall>e. r = Inl e \<longrightarrow>
      (\<exists>m1 reply. grows (\<lambda>_. True) m m1 \<and> call srv None (Volume_remove (key_volume cfg)) m1 = (reply, m')
        \<and> (dk_error reply \<noteq> None \<longrightarrow> (\<exists>e0. e = Wrapped (partial_volume node (key_volume cfg)) e0)))
      \<or> (\<exists>m1 reply q. q \<in> {Volume_inspect (key_volume cfg), Volume_create (key_volume cfg)} \<and> grows (\<lambda>_. True) m m1
        \<and> call srv c q m1 = (reply, m') \<and> dk_error reply \<noteq> None))"
  using assms ensureProvingKey_Inr [of srv c ord script cfg w node m m']
    ensureProvingKey_Inl [of srv c ord script cfg w node m _ m']
  by (auto simp: without_cancel_def)

text \<open>A daemon without the volume that creates no container.\<close>

definition full_disk :: "docker_request \<Rightarrow> docker_reply" where
  "full_disk q = (healthy [] q)\<lparr>dk_error := (case q of
     Volume_inspect v \<Rightarrow> Some Not_found | Docker_create k \<Rightarrow> Some (Docker_error ''no space left'') | _ \<Rightarrow> None)\<rparr>"

theorem proving_key_volume_witness:
  "\<exists>e m'. ensureProvingKey (steady full_disk) None id ''s'' zisk_sample (hd (zc_workers zisk_sample)) ''b''
        \<lparr>clock = 0, sent = [], phases = [], env = ()\<rparr> = Some (Inl e, m')
     \<and> last (sent m') \<in> {Volume_remove (key_volume zisk_sample), Volume_inspect (key_volume zisk_sample),
          Volume_create (key_volume zisk_sample)}"
proof -
  let ?m = "\<lparr>clock = 0, sent = [], phases = [], env = ()\<rparr>"
  obtain e m' where run: "ensureProvingKey (steady full_disk) None id ''s'' zisk_sample (hd (zc_workers zisk_sample)) ''b'' ?m
      = Some (Inl e, m')"
    by (simp add: ensureProvingKey_def fill_volume_def Let_def io_bind_def io_ask_def call_def steady_def full_disk_def
        io_wrap_def must_def io_return_def io_fail_def io_try_def container_run_def io_finally_def run_body_def
        container_begin_def remove_finally_def)
  have "last (sent m') = q" if "call (steady full_disk) None q m1 = (reply, m')" for q m1 reply
    using call_logs(1) [of "steady full_disk" None q m1] that by simp
  with proving_key_volume [OF run] have "last (sent m') \<in> {Volume_remove (key_volume zisk_sample), Volume_inspect (key_volume zisk_sample),
          Volume_create (key_volume zisk_sample)}" by auto
  with run show ?thesis by blast
qed

section \<open>Guests and workers\<close>

lemma setupGuests_Inr:
  assumes "setupGuests srv c ord script cfg w node gs m = Some (Inr (), m')" "g \<in> set gs"
  shows "\<exists>out. job_ran srv ord (programSetupSpec script cfg (zw_gpu w) (rg_elf g) (rg_vk g)) out m m'"
proof -
  let ?f = "\<lambda>g. io_wrap (Wrapped (at_node ''compiling guest'' (rg_name g) node))
       (io_bind (container_run srv c ord (programSetupSpec script cfg (zw_gpu w) (rg_elf g) (rg_vk g))) (\<lambda>_. io_return ()))"
  have mono: "io_mono (?f x)" for x by (intro io_grows)
  from io_each_all [OF assms(1) [unfolded setupGuests_def] mono assms(2)] obtain m1 m2 where
    g: "grows (\<lambda>_. True) m m1" "grows (\<lambda>_. True) m2 m'" and f: "?f g m1 = Some (Inr (), m2)" by blast
  from f obtain out where "container_run srv c ord (programSetupSpec script cfg (zw_gpu w) (rg_elf g) (rg_vk g)) m1
      = Some (Inr out, m2)" by (auto simp: io_bind_Inr)
  from container_run_ends [OF this] have "job_ran srv ord (programSetupSpec script cfg (zw_gpu w) (rg_elf g) (rg_vk g)) out m1 m2"
    by blast
  with job_ran_within [OF g(1) _ g(2)] show ?thesis by blast
qed

lemma zisk_startWorker_Inr:
  assumes "zisk_startWorker fuel srv c ord cfg w name m = Some (Inr (), m')"
  shows "logged srv zisk_workerContainer registrationLine m m'"
proof -
  let ?start = "\<lambda>up. if up then io_return () else io_bind (hostTopology srv c ord cfg name) (\<lambda>numaNodes.
                io_wrap (Wrapped (''starting '' @ name))
                  (container_begin srv c ord (zisk_workerSpec cfg w name numaNodes)))"
  from assms obtain up m1 m2 where 1: "io_wrap (Wrapped name) (running srv c zisk_workerContainer) m = Some (Inr up, m1)" and
    2: "?start up m1 = Some (Inr (), m2)" and
    3: "waitLogLine fuel srv c zisk_workerContainer name registrationLine registrationTimeout m2 = Some (Inr (), m')"
    unfolding zisk_startWorker_def io_bind_Inr ex_unit by blast
  have "io_mono (?start up)" by (intro io_grows)
  from grows_trans [OF io_monoD [OF io_mono_wrap [OF io_mono_running] 1] io_monoD [OF this 2]]
  have "grows (\<lambda>_. True) m m2" .
  with waitLogLine_ok [OF 3] show ?thesis unfolding logged_def by (blast intro: saw_before)
qed

section \<open>The cluster\<close>

lemma zisk_group_Inr:
  assumes "run_group (zisk_each cfg t) fl = Some (Inr (), fl')" "\<And>w node. io_mono (t w node)"
    "w \<in> set (zc_workers cfg)" "h = node_ssh (zw_node w)"
  shows "\<exists>node m1 m2. grows (\<lambda>_. True) (fl h) m1 \<and> t w node m1 = Some (Inr (), m2) \<and> grows (\<lambda>_. True) m2 (fl' h)"
proof -
  obtain node where "(h, t w node) \<in> set (zisk_each cfg t)" using zisk_each_member [OF assms(3), of t] assms(4) by blast
  from run_group_each [OF zisk_each_mono [OF assms(2)] assms(1) this] show ?thesis by blast
qed

lemma zisk_deploy_ready:
  assumes "zisk_deploy fuel srv ord fs gctx c cfg ds gs fl = Some (Inr (), fl')"
  shows "\<exists>fl1 fl2 fl3. fleet_grows fl fl1 \<and> fleet_grows fl1 fl2 \<and> fleet_grows fl2 fl3 \<and> fleet_grows fl3 fl'
    \<and> (let hc = node_ssh (coordinator (zc_cluster cfg)) in
         probed srv zisk_coordinatorContainer (listening_probe zisk_ports) (fl2 hc) (fl3 hc))
    \<and> (\<forall>w \<in> set (zc_workers cfg). let h = node_ssh (zw_node w) in
         key_ready srv ord (setup_script fs) cfg w (fl h) (fl1 h)
         \<and> (\<forall>g \<in> set gs. \<exists>out. job_ran srv ord
              (programSetupSpec (program_setup_script fs) cfg (zw_gpu w) (rg_elf g) (rg_vk g)) out (fl1 h) (fl2 h))
         \<and> logged srv zisk_workerContainer registrationLine (fl3 h) (fl' h))"
proof -
  let ?keys = "ensureProvingKey srv (gctx 1) ord (setup_script fs) cfg"
  let ?compile = "\<lambda>w node. setupGuests srv (gctx 2) ord (program_setup_script fs) cfg w node gs"
  let ?coord = "startCoordinator fuel srv c ord (coordinatorHost (zc_cluster cfg)) (zisk_coordinatorSpec cfg) zisk_ports"
  let ?start = "zisk_startWorker fuel srv (gctx 3) ord cfg"
  let ?hc = "node_ssh (coordinator (zc_cluster cfg))"
  from assms obtain fl0 fl1 fl2 fl3 fl4 x where
    pull: "pullAll srv (gctx 0) ds (imageRef (zc_cluster cfg)) fl = Some (Inr (), fl0)" and
    keys: "run_group (zisk_each cfg ?keys) fl0 = Some (Inr (), fl1)" and
    compile: "run_group (zisk_each cfg ?compile) fl1 = Some (Inr (), fl2)" and
    coord: "on_host ?hc ?coord fl2 = Some (Inr (), fl3)" and
    start: "run_group (zisk_each cfg ?start) fl3 = Some (Inr (), fl4)" and
    side: "io_try (startSidecars fuel srv c ord (zisk_dcgm_fields fs) (telemetry (zc_cluster cfg))) fl4 = Some (Inr x, fl')"
    unfolding zisk_deploy_def Let_def io_bind_Inr ex_unit by (auto simp: io_return_def)
  have g0: "fleet_grows fl fl0" by (rule fleet_monoD [OF fleet_mono_pullAll pull])
  have g1: "fleet_grows fl0 fl1" by (rule fleet_monoD [OF fleet_mono_group keys]) (simp add: io_mono_ensureProvingKey)
  have g2: "fleet_grows fl1 fl2" by (rule fleet_monoD [OF fleet_mono_group compile]) (simp add: io_mono_setupGuests)
  have g3: "fleet_grows fl2 fl3" by (rule fleet_monoD [OF fleet_mono_on_host coord]) (rule io_mono_startCoordinator)
  have g4: "fleet_grows fl3 fl4" by (rule fleet_monoD [OF fleet_mono_group start]) (simp add: io_mono_zisk_startWorker)
  have g5: "fleet_grows fl4 fl'" by (rule fleet_monoD [OF fleet_mono_try [OF fleet_mono_startSidecars] side])
  have probe: "probed srv zisk_coordinatorContainer (listening_probe zisk_ports) (fl2 ?hc) (fl3 ?hc)"
  proof -
    from on_host_Inr [OF io_mono_startCoordinator coord] obtain m1 m2 where
      m: "grows (\<lambda>_. True) (fl2 ?hc) m1" "?coord m1 = Some (Inr (), m2)" "grows (\<lambda>_. True) m2 (fl3 ?hc)" by blast
    have "cn_name (zisk_coordinatorSpec cfg) = zisk_coordinatorContainer" by (simp add: zisk_coordinatorSpec_def Let_def)
    with probed_within [OF m(1) startCoordinator_ok [OF m(2)] m(3)] show ?thesis by simp
  qed
  have worker: "key_ready srv ord (setup_script fs) cfg w (fl h) (fl1 h)
      \<and> (\<forall>g \<in> set gs. \<exists>out. job_ran srv ord
           (programSetupSpec (program_setup_script fs) cfg (zw_gpu w) (rg_elf g) (rg_vk g)) out (fl1 h) (fl2 h))
      \<and> logged srv zisk_workerContainer registrationLine (fl3 h) (fl' h)"
    if w: "w \<in> set (zc_workers cfg)" and h: "h = node_ssh (zw_node w)" for w h
  proof (intro conjI ballI)
    from zisk_group_Inr [OF keys io_mono_ensureProvingKey w h] obtain node m1 m2 where
      1: "grows (\<lambda>_. True) (fl0 h) m1" "?keys w node m1 = Some (Inr (), m2)" "grows (\<lambda>_. True) m2 (fl1 h)" by blast
    show "key_ready srv ord (setup_script fs) cfg w (fl h) (fl1 h)"
      by (rule key_ready_within [OF grows_trans [OF fleet_growsD [OF g0] 1(1)] ensureProvingKey_Inr [OF 1(2)] 1(3)])
  next
    fix g assume g: "g \<in> set gs"
    from zisk_group_Inr [OF compile io_mono_setupGuests w h] obtain node m1 m2 where
      2: "grows (\<lambda>_. True) (fl1 h) m1" "?compile w node m1 = Some (Inr (), m2)" "grows (\<lambda>_. True) m2 (fl2 h)" by blast
    from setupGuests_Inr [OF 2(2) g] job_ran_within [OF 2(1) _ 2(3)]
    show "\<exists>out. job_ran srv ord (programSetupSpec (program_setup_script fs) cfg (zw_gpu w) (rg_elf g) (rg_vk g)) out (fl1 h) (fl2 h)"
      by blast
  next
    from zisk_group_Inr [OF start io_mono_zisk_startWorker w h] obtain node m1 m2 where
      3: "grows (\<lambda>_. True) (fl3 h) m1" "?start w node m1 = Some (Inr (), m2)" "grows (\<lambda>_. True) m2 (fl4 h)" by blast
    show "logged srv zisk_workerContainer registrationLine (fl3 h) (fl' h)"
      by (rule logged_within [OF 3(1) zisk_startWorker_Inr [OF 3(2)] grows_trans [OF 3(3) fleet_growsD [OF g5]]])
  qed
  from fleet_grows_trans [OF g0 g1] g2 g3 fleet_grows_trans [OF g4 g5] probe worker show ?thesis
    unfolding Let_def by blast
qed

lemma zisk_up_Inr:
  assumes "zisk_up fuel srv ord fs dial ping show resolve name gctx c cfg fl = Some (Inr (), fl')"
  shows "\<exists>gs fl1 fl2 fl3. zisk_resolveGuests resolve name (guests (zc_cluster cfg)) = Inr gs
    \<and> fleet_grows fl fl1 \<and> fleet_grows fl1 fl2 \<and> fleet_grows fl2 fl3 \<and> fleet_grows fl3 fl'
    \<and> (let hc = node_ssh (coordinator (zc_cluster cfg)) in
         probed srv zisk_coordinatorContainer (listening_probe zisk_ports) (fl2 hc) (fl3 hc))
    \<and> (\<forall>w \<in> set (zc_workers cfg). let h = node_ssh (zw_node w) in
         key_ready srv ord (setup_script fs) cfg w (fl h) (fl1 h)
         \<and> (\<forall>g \<in> set gs. \<exists>out. job_ran srv ord
              (programSetupSpec (program_setup_script fs) cfg (zw_gpu w) (rg_elf g) (rg_vk g)) out (fl1 h) (fl2 h))
         \<and> logged srv zisk_workerContainer registrationLine (fl3 h) (fl' h))"
proof -
  from assms obtain ds gs where "zisk_resolveGuests resolve name (guests (zc_cluster cfg)) = Inr gs"
    and "zisk_deploy fuel srv ord fs gctx c cfg ds gs fl = Some (Inr (), fl')"
    by (auto simp: zisk_up_def split: sum.splits prod.splits)
  with zisk_deploy_ready [OF this(2)] show ?thesis by blast
qed

text \<open>C4: where \<open>Up\<close> of a ZisK cluster ends without an error, every worker host had its proving key
  before any guest was compiled, every guest was compiled on every worker host by a job that exited
  with zero before the coordinator was started, the coordinator's ports answered before any worker was
  started, and each worker's log since its own start holds the line of an accepted registration.\<close>

theorem zisk_up_ready:
  assumes "zisk_up fuel srv ord fs dial ping show resolve name gctx c cfg fl = Some (Inr (), fl')"
  shows "\<exists>gs fl1 fl2 fl3. zisk_resolveGuests resolve name (guests (zc_cluster cfg)) = Inr gs
    \<and> fleet_grows fl fl1 \<and> fleet_grows fl1 fl2 \<and> fleet_grows fl2 fl3 \<and> fleet_grows fl3 fl'
    \<and> (let hc = node_ssh (coordinator (zc_cluster cfg)) in
         probed srv zisk_coordinatorContainer (listening_probe zisk_ports) (fl2 hc) (fl3 hc))
    \<and> (\<forall>w \<in> set (zc_workers cfg). let h = node_ssh (zw_node w) in
         key_ready srv ord (setup_script fs) cfg w (fl h) (fl1 h)
         \<and> (\<forall>g \<in> set gs. \<exists>out. job_ran srv ord
              (programSetupSpec (program_setup_script fs) cfg (zw_gpu w) (rg_elf g) (rg_vk g)) out (fl1 h) (fl2 h))
         \<and> logged srv zisk_workerContainer registrationLine (fl3 h) (fl' h))"
  using assms by (rule zisk_up_Inr)

section \<open>A deployment that succeeds\<close>

lemma gives_zisk_startWorker:
  "contains_str registrationLine logs \<Longrightarrow>
    gives (zisk_startWorker (Suc fuel) (steady (healthy logs)) c ord cfg w node) ()"
  unfolding zisk_startWorker_def
  by (rule gives_bind [OF gives_wrap [OF gives_running]]) (simp add: gives_seq [OF gives_return gives_waitLogLine])

lemma gives_ensureProvingKey: "gives (ensureProvingKey (steady (healthy logs)) c ord script cfg w node) ()"
  unfolding ensureProvingKey_def Let_def by (rule gives_bind [OF gives_ask]) (simp add: gives_return)

lemma gives_setupGuests: "gives (setupGuests (steady (healthy logs)) c ord script cfg w node gs) ()"
  unfolding setupGuests_def by (rule gives_each [OF gives_wrap [OF gives_seq [OF gives_container_run gives_return]]])

lemma gives_zisk_group: "(\<And>w node. gives (t w node) ()) \<Longrightarrow> gives (run_group (zisk_each cfg t)) ()"
  by (rule gives_group) (auto simp: zisk_each_def)

definition zisk_quiet_sample :: zisk_config where
  "zisk_quiet_sample = zisk_sample\<lparr>zc_cluster := (zc_cluster zisk_sample)\<lparr>telemetry := \<lparr>interval_ms = 0, sidecars = []\<rparr>\<rparr>\<rparr>"

lemma gives_zisk_deploy:
  assumes "contains_str registrationLine logs"
    and "\<And>fl. startSidecars (Suc fuel) (steady (healthy logs)) c ord (zisk_dcgm_fields fs) (telemetry (zc_cluster cfg)) fl \<noteq> None"
  shows "gives (zisk_deploy (Suc fuel) (steady (healthy logs)) ord fs gctx c cfg ds gs) ()"
  unfolding zisk_deploy_def Let_def
  by (intro gives_seq [OF gives_pullAll] gives_seq [OF gives_zisk_group [OF gives_ensureProvingKey]]
      gives_seq [OF gives_zisk_group [OF gives_setupGuests]] gives_seq [OF gives_on_host [OF gives_startCoordinator]]
      gives_seq [OF gives_zisk_group [OF gives_zisk_startWorker [OF assms(1)]]]
      gives_tried assms(2))

lemma zisk_up_on_healthy_hosts:
  assumes "dialHosts dial ping (zisk_destinations cfg) = Inr hosts"
    and "zisk_resolveGuests resolve name (guests (zc_cluster cfg)) = Inr gs" "contains_str registrationLine logs"
    and "\<And>fl. startSidecars (Suc fuel) (steady (healthy logs)) c ord (zisk_dcgm_fields fs) (telemetry (zc_cluster cfg)) fl \<noteq> None"
  shows "\<exists>fl'. zisk_up (Suc fuel) (steady (healthy logs)) ord fs dial ping show resolve name gctx c cfg fl = Some (Inr (), fl')"
  using gives_zisk_deploy [OF assms(3,4)] assms(1,2) unfolding zisk_up_def gives_def by fastforce

definition quiet_resolve :: "string \<Rightarrow> deploy_error + bytes" where
  "quiet_resolve s = (if s = ''g.elf'' then Inr [1] else Inr [2])"

lemma quiet_resolved:
  "zisk_resolveGuests quiet_resolve id (guests (zc_cluster zisk_quiet_sample)) = Inr [\<lparr>rg_name = ''g.elf'', rg_elf = [1], rg_vk = [2]\<rparr>]"
proof -
  have "guests (zc_cluster zisk_quiet_sample) = [\<lparr>guest_elf = ''g.elf'', guest_vk = ''g.vk''\<rparr>]"
    by (simp add: zisk_quiet_sample_def zisk_sample_def)
  then show ?thesis by (simp add: ResolveGuest_def quiet_resolve_def)
qed

lemma quiet_dialed: "\<exists>hosts. dialHosts (\<lambda>d. Inr d) (\<lambda>_. None :: string option) (zisk_destinations zisk_quiet_sample) = Inr hosts"
  by (auto simp: dialHosts_def zisk_destinations_def zisk_quiet_sample_def zisk_sample_def no_hosts_def)

lemma quiet_registers: "contains_str registrationLine registrationLine"
  unfolding registrationLine_def by code_simp

lemma quiet_sidecars: "startSidecars fuel srv c ord f (telemetry (zc_cluster zisk_quiet_sample)) fl \<noteq> None"
  by (rule no_sidecars_return) (simp add: zisk_quiet_sample_def)

theorem zisk_up_ready_witness:
  "\<exists>m1 m2. logged (steady (healthy registrationLine)) zisk_workerContainer registrationLine m1 m2
    \<and> (\<exists>out m3 m4. job_ran (steady (healthy registrationLine)) id
         (programSetupSpec ''p'' zisk_quiet_sample (zw_gpu (hd (zc_workers zisk_quiet_sample))) [1] [2]) out m3 m4)"
proof -
  let ?srv = "steady (healthy registrationLine)"
  let ?fs = "\<lparr>setup_script = ''s'', program_setup_script = ''p'', zisk_dcgm_fields = []\<rparr>"
  let ?fl = "\<lambda>h. \<lparr>clock = 0, sent = [], phases = [], env = ()\<rparr>"
  from quiet_dialed obtain hosts where
    "dialHosts (\<lambda>d. Inr d) (\<lambda>_. None :: string option) (zisk_destinations zisk_quiet_sample) = Inr hosts" by blast
  from zisk_up_on_healthy_hosts [OF this quiet_resolved quiet_registers quiet_sidecars] obtain fl' where
    "zisk_up (Suc 0) ?srv id ?fs (\<lambda>d. Inr d) (\<lambda>_. None) (\<lambda>_. []) quiet_resolve id (\<lambda>_. None) None zisk_quiet_sample ?fl
      = Some (Inr (), fl')" by blast
  from zisk_up_ready [OF this] obtain gs fl1 fl2 fl3 where
    gs: "zisk_resolveGuests quiet_resolve id (guests (zc_cluster zisk_quiet_sample)) = Inr gs" and
    w: "\<forall>w \<in> set (zc_workers zisk_quiet_sample). let h = node_ssh (zw_node w) in
         key_ready ?srv id (setup_script ?fs) zisk_quiet_sample w (?fl h) (fl1 h)
         \<and> (\<forall>g \<in> set gs. \<exists>out. job_ran ?srv id
              (programSetupSpec (program_setup_script ?fs) zisk_quiet_sample (zw_gpu w) (rg_elf g) (rg_vk g)) out (fl1 h) (fl2 h))
         \<and> logged ?srv zisk_workerContainer registrationLine (fl3 h) (fl' h)" by blast
  let ?w = "hd (zc_workers zisk_quiet_sample)"
  have "?w \<in> set (zc_workers zisk_quiet_sample)" by (simp add: zisk_quiet_sample_def zisk_sample_def)
  with w gs quiet_resolved show ?thesis by (fastforce simp: Let_def)
qed

end
