(* ===== verification/Openvm_Spec.thy ===== *)
theory Openvm_Spec
  imports Openvm_Client Openvm_Config Container
begin

text \<open>
  \<open>internal/openvm/spec.go\<close>: the containers of an OpenVM deployment, with their configuration files
  and the share of a host's processors each worker takes. TOML rendering is that of a library, the
  parameter \<open>toml\<close> over the tables of a document in their order; the embedded script is a
  parameter.
\<close>

section \<open>Constants\<close>

definition keygenContainer :: string where "keygenContainer = ''openvm-keygen''"
definition artifactsDir :: string where "artifactsDir = ''/data/artifacts''"
definition metricsOutputDir :: string where "metricsOutputDir = ''/data/metrics''"
definition rvrCacheDir :: string where "rvrCacheDir = ''/var/cache/openvm-rvr''"
definition guestELFPath :: string where "guestELFPath = ''/guests/guest.elf''"
definition managerConfig :: string where "managerConfig = ''/tmp/openvm-manager.toml''"
definition finalProofsDir :: string where "finalProofsDir = ''/var/tmp/openvm-final-proofs''"
definition metricsDir :: string where "metricsDir = ''/var/tmp/openvm-metrics''"
definition workerReadyLine :: string where "workerReadyLine = ''Edge Worker listening on''"
definition programVersion :: int where "programVersion = 0"
definition leafArity :: int where "leafArity = 4"
definition internalArity :: int where "internalArity = 3"
definition leafPackThreshold :: int where "leafPackThreshold = 1000"
definition vpmmPageSize :: int where "vpmmPageSize = 16777216"

record program =
  pg_name :: string
  pg_source :: string
  pg_elf :: bytes
  pg_vk :: bytes

definition artifactsVolume :: "string \<Rightarrow> string" where
  "artifactsVolume version = ''openvm-artifacts-'' @ version"

definition artifactsMount :: "string \<Rightarrow> bool \<Rightarrow> mount" where
  "artifactsMount version readonly = volume_mount (artifactsVolume version) artifactsDir readonly"

definition workerConfigPath :: "int \<Rightarrow> string" where
  "workerConfigPath g = ''/tmp/openvm-worker-'' @ itoa g @ ''.toml''"

text \<open>\<open>edgePrograms\<close>: the loadout as JSON. Program names are hexadecimal, so none is escaped.\<close>

definition edgePrograms :: "program list \<Rightarrow> string" where
  \<open>edgePrograms ps =
     ''['' @ join '','' (map (\<lambda>p. ''{"name":"'' @ pg_name p @ ''","version":'' @ itoa programVersion @ ''}'') ps) @ '']''\<close>

definition workerRustLog :: "int \<Rightarrow> string" where
  "workerRustLog v = (if v = 0 then ''info,openvm_cuda_common::memory_manager=warn'' else rustLog v)"

section \<open>Configuration files\<close>

datatype toml_value = Toml_text string | Toml_number int

type_synonym toml_doc = "(string \<times> (string \<times> toml_value) list) list"

text \<open>\<open>proverLimits\<close>, whose last field is left out where it is zero.\<close>

definition proverLimitsOf :: "openvm_config \<Rightarrow> int \<Rightarrow> (string \<times> toml_value) list" where
  "proverLimitsOf cfg segmentMemory =
     [(''max_app_provers'', Toml_number (app_provers (oc_prover cfg))),
      (''max_leaf_provers'', Toml_number (leaf_provers (oc_prover cfg))),
      (''max_internal_provers'', Toml_number (internal_provers (oc_prover cfg)))]
     @ (if segmentMemory = 0 then [] else [(''default_segment_memory'', Toml_number segmentMemory)])"

definition renderTOML :: "(toml_doc \<Rightarrow> string) \<Rightarrow> toml_doc \<Rightarrow> string" where
  "renderTOML toml doc = ''# Generated by provoor.'' @ [CHR 0x0A] @ toml doc"

definition managerTOML :: "(toml_doc \<Rightarrow> string) \<Rightarrow> openvm_config \<Rightarrow> string" where
  "managerTOML toml cfg = renderTOML toml
     [(''server'', [(''listen_addr'', Toml_text (''0.0.0.0:'' @ itoa openvm_apiPort)),
        (''num_workers'', Toml_number (int (length (oc_workers cfg)))),
        (''artifacts_path'', Toml_text artifactsDir)]),
      (''provers'', proverLimitsOf cfg 0),
      (''proof'', [(''leaf_arity'', Toml_number leafArity), (''internal_arity'', Toml_number internalArity),
        (''leaf_pack_threshold'', Toml_number leafPackThreshold),
        (''timeout_secs'', Toml_number (timeout_secs (oc_prover cfg))),
        (''persist_final_proofs_dir'', Toml_text finalProofsDir)]),
      (''metrics'', [(''output_dir'', Toml_text metricsOutputDir)]),
      (''telemetry'', [(''log_level'', Toml_text (rustLog (verbose (oc_cluster cfg))))])]"

definition worker_port :: "openvm_worker \<Rightarrow> int" where
  "worker_port w = i64 (workerPortBase + deviceID w)"

definition workerTOML :: "(toml_doc \<Rightarrow> string) \<Rightarrow> openvm_config \<Rightarrow> openvm_worker \<Rightarrow> nat \<Rightarrow> string" where
  "workerTOML toml cfg w proverID = renderTOML toml
     [(''server'', [(''listen_addr'', Toml_text (''0.0.0.0:'' @ itoa (worker_port w)))]),
      (''worker'', [(''prover_id'', Toml_number (int proverID)),
        (''num_provers'', Toml_number (int (length (oc_workers cfg)))),
        (''worker_url'', Toml_text (workerURL w)), (''manager_url'', Toml_text (managerURL cfg w))]),
      (''artifacts'', [(''artifacts_path'', Toml_text artifactsDir)]),
      (''provers'', proverLimitsOf cfg (segment_memory (oc_prover cfg))),
      (''telemetry'', [(''log_level'', Toml_text (workerRustLog (verbose (oc_cluster cfg))))])]"

section \<open>Processor shares\<close>

text \<open>The first and the last processor of a worker, by its position among the workers of its host.\<close>

definition cpu_range :: "int \<Rightarrow> int \<Rightarrow> int \<Rightarrow> int \<times> int" where
  "cpu_range k hostWorkers hostCPUs =
     (let share = hostCPUs div hostWorkers
      in (k * share, if k = hostWorkers - 1 then hostCPUs - 1 else (k + 1) * share - 1))"

definition cpusetCPUs :: "int \<Rightarrow> int \<Rightarrow> int \<Rightarrow> string" where
  "cpusetCPUs k hostWorkers hostCPUs =
     (case cpu_range k hostWorkers hostCPUs of (lo, hi) \<Rightarrow> itoa lo @ ''-'' @ itoa hi)"

section \<open>Containers\<close>

definition openvm_coordinatorSpec :: "(toml_doc \<Rightarrow> string) \<Rightarrow> openvm_config \<Rightarrow> string \<Rightarrow> container" where
  "openvm_coordinatorSpec toml cfg loadout =
     (let c = oc_cluster cfg in
      plain_container\<lparr>cn_name := openvm_coordinatorContainer, cn_image := imageRef c,
        cn_env := [''RUST_LOG='' @ rustLog (verbose c), ''RUST_BACKTRACE=1'', ''NO_COLOR=1'', ''EDGE_PROGRAMS='' @ loadout],
        cn_cmd := [''edge-manager'', ''--config'', managerConfig],
        cn_host_network := True, cn_restart := Restart_on_failure, cn_journald := Some openvm_coordinatorContainer,
        cn_mounts := [artifactsMount (zkvm_version c) True, bind_mount finalProofsDir finalProofsDir,
          bind_mount metricsDir metricsOutputDir],
        cn_files := [(managerConfig, bytes_of (managerTOML toml cfg))]\<rparr>)"

definition openvm_workerSpec ::
  "(toml_doc \<Rightarrow> string) \<Rightarrow> openvm_config \<Rightarrow> openvm_worker \<Rightarrow> nat \<Rightarrow> string \<Rightarrow> string \<Rightarrow> container" where
  "openvm_workerSpec toml cfg w proverID cpuset loadout =
     (let c = oc_cluster cfg; name = openvm_workerContainer (deviceID w) in
      plain_container\<lparr>cn_name := name, cn_image := imageRef c,
        cn_env := [''RUST_LOG='' @ workerRustLog (verbose c), ''RUST_BACKTRACE=1'', ''NO_COLOR=1'',
          ''VPMM_PAGE_SIZE='' @ itoa vpmmPageSize, ''VPMM_PAGES=0'', ''EDGE_PROGRAMS='' @ loadout,
          ''OPENVM_RVR_NATIVE_CACHE_DIR='' @ rvrCacheDir],
        cn_cmd := [''edge-worker'', ''--config'', workerConfigPath (deviceID w)],
        cn_host_network := True, cn_restart := Restart_on_failure,
        cn_shm_size := gigabytes (op_shm_size_gb (oc_prover cfg)), cn_cap_add := [''SYS_NICE''],
        cn_journald := Some name,
        cn_mounts := [artifactsMount (zkvm_version c) True,
          volume_mount (''openvm-rvr-cache-'' @ zkvm_version c) rvrCacheDir False],
        cn_cpuset := cpuset, cn_memlock := True,
        cn_devices := [\<lparr>dr_count = 0, dr_device_ids = [itoa (deviceID w)], dr_capabilities = [[''gpu'']]\<rparr>],
        cn_files := [(workerConfigPath (deviceID w), bytes_of (workerTOML toml cfg w proverID))]\<rparr>)"

definition keygenSpec :: "string \<Rightarrow> openvm_config \<Rightarrow> program \<Rightarrow> container" where
  "keygenSpec script cfg p =
     (let c = oc_cluster cfg in
      plain_container\<lparr>cn_name := keygenContainer, cn_image := imageRef c,
        cn_env := [''ARTIFACTS_DIR='' @ artifactsDir, ''PROGRAM_NAME='' @ pg_name p,
          ''PROGRAM_VERSION='' @ itoa programVersion, ''GUEST_ELF='' @ guestELFPath],
        cn_cmd := [''bash'', ''-c'', script], cn_shm_size := gigabytes (op_shm_size_gb (oc_prover cfg)),
        cn_mounts := [artifactsMount (zkvm_version c) False], cn_memlock := True, cn_devices := [all_devices],
        cn_files := [(guestELFPath, pg_elf p)]\<rparr>)"

definition artifactsShellSpec :: "openvm_config \<Rightarrow> string \<Rightarrow> string \<Rightarrow> bool \<Rightarrow> container" where
  "artifactsShellSpec cfg name script readonly =
     plain_container\<lparr>cn_name := name, cn_image := imageRef (oc_cluster cfg), cn_cmd := [''bash'', ''-c'', script],
       cn_mounts := [artifactsMount (zkvm_version (oc_cluster cfg)) readonly]\<rparr>"

section \<open>The shares partition the processors\<close>

lemma cpu_share:
  fixes n cpus k :: int
  assumes "0 < n" "n \<le> cpus"
  shows "0 < cpus div n" "n * (cpus div n) \<le> cpus" "0 \<le> k \<Longrightarrow> k < n \<Longrightarrow> (k + 1) * (cpus div n) \<le> cpus"
proof -
  show "0 < cpus div n" using assms by (simp add: pos_imp_zdiv_pos_iff)
  show le: "n * (cpus div n) \<le> cpus" using assms by (metis div_mult_mod_eq mult.commute pos_mod_sign add_increasing2 order_refl)
  show "(k + 1) * (cpus div n) \<le> cpus" if "0 \<le> k" "k < n"
  proof -
    have "(k + 1) * (cpus div n) \<le> n * (cpus div n)"
      using that \<open>0 < cpus div n\<close> by (intro mult_right_mono) auto
    with le show ?thesis by simp
  qed
qed

lemma cpu_range_bounds:
  assumes "0 < n" "n \<le> cpus" "0 \<le> k" "k < n" "cpu_range k n cpus = (lo, hi)"
  shows "0 \<le> lo" "lo + cpus div n \<le> hi + 1" "hi < cpus"
  using assms cpu_share(1) [of n cpus] cpu_share(3) [of n cpus k] by (auto simp: cpu_range_def Let_def algebra_simps split: if_splits)

lemma times_le_iff_le_div: "0 < s \<Longrightarrow> k * s \<le> c \<longleftrightarrow> k \<le> c div (s :: int)"
  by (smt (verit) mult_le_cancel_right zdiv_mono1 nonzero_mult_div_cancel_right pos_mod_sign div_mult_mod_eq)

lemma cpu_range_member:
  assumes "0 < n" "n \<le> cpus" "0 \<le> k" "k < n" "c < cpus" "cpu_range k n cpus = (lo, hi)"
  shows "lo \<le> c \<and> c \<le> hi \<longleftrightarrow> k = min (c div (cpus div n)) (n - 1)"
proof -
  define s where "s = cpus div n"
  have s: "0 < s" using cpu_share [OF assms(1,2)] by (simp add: s_def)
  have lo: "lo = k * s" using assms(6) by (simp add: cpu_range_def s_def Let_def)
  show ?thesis
  proof (cases "k = n - 1")
    case True
    with assms(6) have "hi = cpus - 1" by (simp add: cpu_range_def Let_def)
    with lo times_le_iff_le_div [OF s, of k c] True assms(5) show ?thesis by (auto simp: s_def)
  next
    case False
    with assms(6) have "hi = (k + 1) * s - 1" by (simp add: cpu_range_def s_def Let_def)
    with lo times_le_iff_le_div [OF s, of k c] times_le_iff_le_div [OF s, of "k + 1" c] False assms(4)
    show ?thesis by (auto simp: s_def)
  qed
qed

text \<open>C37: a host with at least as many processors as workers is split among them: every worker gets a
  range, with at least the even share, and every processor belongs to exactly one worker.\<close>

theorem cpu_partition:
  assumes "0 < n" "n \<le> cpus"
  shows "\<exists>lo hi. (\<forall>k. 0 \<le> k \<and> k < n \<longrightarrow> cpusetCPUs k n cpus = itoa (lo k) @ ''-'' @ itoa (hi k)
        \<and> 0 \<le> lo k \<and> hi k < cpus \<and> cpus div n \<le> hi k - lo k + 1 \<and> lo k \<le> hi k)
    \<and> (\<forall>c. 0 \<le> c \<and> c < cpus \<longrightarrow> (\<exists>!k. 0 \<le> k \<and> k < n \<and> lo k \<le> c \<and> c \<le> hi k))"
proof (intro exI conjI allI impI)
  let ?lo = "\<lambda>k. fst (cpu_range k n cpus)" and ?hi = "\<lambda>k. snd (cpu_range k n cpus)"
  fix k assume k: "0 \<le> k \<and> k < n"
  show "cpusetCPUs k n cpus = itoa (?lo k) @ ''-'' @ itoa (?hi k)"
    by (simp add: cpusetCPUs_def split: prod.split)
  note range = cpu_range_bounds [OF assms k [THEN conjunct1] k [THEN conjunct2] prod.collapse [symmetric]]
  show "0 \<le> ?lo k" "?hi k < cpus" using range by simp_all
  show "cpus div n \<le> ?hi k - ?lo k + 1" "?lo k \<le> ?hi k" using range(2) cpu_share(1) [OF assms] by simp_all
next
  let ?lo = "\<lambda>k. fst (cpu_range k n cpus)" and ?hi = "\<lambda>k. snd (cpu_range k n cpus)"
  fix c assume c: "0 \<le> c \<and> c < cpus"
  let ?k = "min (c div (cpus div n)) (n - 1)"
  have "0 \<le> c div (cpus div n)" using c cpu_share(1) [OF assms] by (simp add: pos_imp_zdiv_nonneg_iff)
  then have k: "0 \<le> ?k" "?k < n" using assms(1) by auto
  have mem: "?lo j \<le> c \<and> c \<le> ?hi j \<longleftrightarrow> j = ?k" if "0 \<le> j" "j < n" for j
    using cpu_range_member [OF assms that c [THEN conjunct2] prod.collapse [symmetric]] .
  show "\<exists>!k. 0 \<le> k \<and> k < n \<and> ?lo k \<le> c \<and> c \<le> ?hi k"
  proof (rule ex1I [of _ ?k])
    show "0 \<le> ?k \<and> ?k < n \<and> ?lo ?k \<le> c \<and> c \<le> ?hi ?k" using k mem [OF k] by blast
  next
    fix j assume "0 \<le> j \<and> j < n \<and> ?lo j \<le> c \<and> c \<le> ?hi j"
    with mem [of j] show "j = ?k" by blast
  qed
qed

theorem cpu_partition_witness:
  "cpusetCPUs 2 3 8 = ''4-7'' \<and> (\<exists>lo hi. \<forall>c. 0 \<le> c \<and> c < (8 :: int) \<longrightarrow> (\<exists>!k. 0 \<le> k \<and> k < (3 :: int) \<and> lo k \<le> c \<and> c \<le> (hi k :: int)))"
proof
  show "cpusetCPUs 2 3 8 = ''4-7''"
    by (simp add: cpusetCPUs_def cpu_range_def itoa_def nat_str.simps) code_simp
  have "(0 :: int) < 3" "(3 :: int) \<le> 8" by simp_all
  from cpu_partition [OF this] show "\<exists>lo hi. \<forall>c. 0 \<le> c \<and> c < (8 :: int)
      \<longrightarrow> (\<exists>!k. 0 \<le> k \<and> k < (3 :: int) \<and> lo k \<le> c \<and> c \<le> (hi k :: int))" by (elim exE conjE) blast
qed

end
