(* ===== verification/Openvm_Deploy.thy ===== *)
theory Openvm_Deploy
  imports Fleet Guests Openvm_Spec
begin

text \<open>
  \<open>internal/openvm/deploy.go\<close>: \<open>Up\<close> and \<open>Down\<close> of an OpenVM cluster over the hosts
  of \<open>Fleet\<close>. \<open>gctx\<close> gives the contexts of the groups of goroutines; the keygen script and
  the DCGM fields are embedded files, \<open>sha256\<close> and \<open>toml\<close> a library's. Progress lines are
  left out. The waits for the workers of one host share its daemon and here take turns, from one
  deadline; the error of the first of them stands for that of the group.
\<close>

text \<open>\<open>strings.Fields\<close>\<close>

fun str_fields_from :: "string \<Rightarrow> string \<Rightarrow> string list" where
  "str_fields_from word [] = (if word = [] then [] else [rev word])"
| "str_fields_from word (c # cs) =
     (if is_space c then (if word = [] then str_fields_from [] cs else rev word # str_fields_from [] cs)
      else str_fields_from (c # word) cs)"

definition str_fields :: "string \<Rightarrow> string list" where
  "str_fields s = str_fields_from [] s"

section \<open>The workers of each host\<close>

record host_workers =
  hw_ssh :: string
  hw_workers :: "(nat \<times> openvm_worker) list"

text \<open>A step of the loop of \<open>workerHosts\<close>: \<open>index\<close> holds the position of a host's group.\<close>

definition group_step ::
  "nat \<times> openvm_worker \<Rightarrow> host_workers list \<times> (string \<rightharpoonup> nat) \<Rightarrow> host_workers list \<times> (string \<rightharpoonup> nat)" where
  "group_step iw gi =
     (case gi of (groups, index) \<Rightarrow>
       let ssh = node_ssh (ow_node (snd iw)) in
       (case index ssh of
          Some k \<Rightarrow> (groups[k := (groups ! k)\<lparr>hw_workers := hw_workers (groups ! k) @ [iw]\<rparr>], index)
        | None \<Rightarrow> (groups @ [\<lparr>hw_ssh = ssh, hw_workers = [iw]\<rparr>], index(ssh \<mapsto> length groups))))"

definition workerHosts :: "openvm_config \<Rightarrow> host_workers list" where
  "workerHosts cfg = fst (fold group_step (indexed (oc_workers cfg)) ([], Map.empty))"

section \<open>Programs\<close>

definition duplicate_program :: "string \<Rightarrow> string \<Rightarrow> string \<Rightarrow> deploy_error" where
  "duplicate_program elf prior name = Message (''guest '' @ elf @ '' duplicates '' @ prior @ '', both hash to '' @ name)"

fun program_loop ::
  "(bytes \<Rightarrow> bytes) \<Rightarrow> (string \<Rightarrow> deploy_error + bytes) \<Rightarrow> (string \<rightharpoonup> string) \<Rightarrow> guest list \<Rightarrow> deploy_error + program list" where
  "program_loop sha256 resolve seen [] = Inr []"
| "program_loop sha256 resolve seen (g # gs) =
     rbind (ResolveGuest resolve g) (\<lambda>(elf, vk).
       let name = programName sha256 elf in
       case seen name of
         Some prior \<Rightarrow> Inl (duplicate_program (guest_elf g) prior name)
       | None \<Rightarrow> rbind (program_loop sha256 resolve (seen(name \<mapsto> guest_elf g)) gs) (\<lambda>ps.
           Inr (\<lparr>pg_name = name, pg_source = guest_elf g, pg_elf = elf, pg_vk = vk\<rparr> # ps)))"

definition resolvePrograms ::
  "(bytes \<Rightarrow> bytes) \<Rightarrow> (string \<Rightarrow> deploy_error + bytes) \<Rightarrow> guest list \<Rightarrow> deploy_error + program list" where
  "resolvePrograms sha256 resolve gs = program_loop sha256 resolve Map.empty gs"

section \<open>The keysets of a host\<close>

definition programNames :: "program list \<Rightarrow> string list" where
  "programNames ps = map pg_name ps"

definition presence_probe :: "string list \<Rightarrow> string" where
  \<open>presence_probe names = ''for name in '' @ join '' '' names @ ''; do [ -e "'' @ artifactsDir @ ''/programs/${name}/''
     @ itoa programVersion @ ''/baseline.bin" ] && echo "${name}"; done; true''\<close>

definition digest_probe :: "string list \<Rightarrow> string" where
  \<open>digest_probe names = ''for name in '' @ join '' '' names @ ''; do echo "${name} $(sha256sum < "'' @ artifactsDir
     @ ''/programs/${name}/'' @ itoa programVersion @ ''/baseline.bin" | cut -d" " -f1)"; done''\<close>

definition keyset_cleanup :: "string \<Rightarrow> string" where
  \<open>keyset_cleanup name = ''rm -rf "'' @ artifactsDir @ ''/programs/'' @ name @ ''"''\<close>

definition probe_spec :: "openvm_config \<Rightarrow> string \<Rightarrow> container" where
  "probe_spec cfg script = artifactsShellSpec cfg (keygenContainer @ ''-probe'') script True"

definition probeArtifacts :: "'w docker \<Rightarrow> ctx \<Rightarrow> file_order \<Rightarrow> openvm_config \<Rightarrow> string \<Rightarrow> ('w, string) docker_io" where
  "probeArtifacts srv c ord cfg script = container_run srv c ord (probe_spec cfg script)"

definition missingPrograms ::
  "'w docker \<Rightarrow> ctx \<Rightarrow> file_order \<Rightarrow> openvm_config \<Rightarrow> program list \<Rightarrow> string \<Rightarrow> ('w, program list) docker_io" where
  "missingPrograms srv c ord cfg ps node =
     (let volume = artifactsVolume (zkvm_version (oc_cluster cfg)) in
      io_bind (io_ask srv c (Volume_inspect volume)) (\<lambda>r.
        case dk_error r of
          Some Not_found \<Rightarrow> io_return ps
        | Some e \<Rightarrow> io_fail (Wrapped (at_node ''inspecting volume'' volume node) (Raw e))
        | None \<Rightarrow>
            io_bind (io_wrap (Wrapped (''probing keysets on '' @ node))
                (probeArtifacts srv c ord cfg (presence_probe (programNames ps)))) (\<lambda>out.
              io_return (filter (\<lambda>p. pg_name p \<notin> set (str_fields out)) ps))))"

definition runKeygen ::
  "'w docker \<Rightarrow> ctx \<Rightarrow> file_order \<Rightarrow> string \<Rightarrow> openvm_config \<Rightarrow> string \<Rightarrow> program \<Rightarrow> ('w, unit) docker_io" where
  "runKeygen srv c ord script cfg node p =
     io_bind (io_try (container_run srv c ord (keygenSpec script cfg p))) (\<lambda>r.
       case r of
         Inr _ \<Rightarrow> io_return ()
       | Inl e \<Rightarrow>
           io_bind (io_try (container_run srv (without_cancel c) ord
               (artifactsShellSpec cfg keygenContainer (keyset_cleanup (pg_name p)) False))) (\<lambda>_.
             io_fail (Wrapped (at_node ''keygen for'' (pg_name p) node) e)))"

text \<open>The digest a line of two fields gives a program, the last such line winning; a program without
  one has the empty digest.\<close>

definition digests_of :: "string \<Rightarrow> (string \<rightharpoonup> string)" where
  "digests_of out = fold (\<lambda>line ds. case str_fields line of [name, digest] \<Rightarrow> ds(name \<mapsto> digest) | _ \<Rightarrow> ds)
     (split_on CHR 0x0A out) Map.empty"

definition digest_of :: "string \<Rightarrow> string \<Rightarrow> string" where
  "digest_of out name = (case digests_of out name of None \<Rightarrow> [] | Some d \<Rightarrow> d)"

text \<open>The message of a mismatch; the digest is printed without Go's quoting of special characters.\<close>

definition baseline_error :: "string \<Rightarrow> program \<Rightarrow> string \<Rightarrow> string \<Rightarrow> deploy_error" where
  \<open>baseline_error node p got want = Message (''program '' @ pg_name p @ '' on '' @ node @ '' derived a baseline of sha256 "''
     @ got @ ''", the vk configured for '' @ pg_source p @ '' hashes to '' @ want)\<close>

fun check_baselines :: "(bytes \<Rightarrow> bytes) \<Rightarrow> string \<Rightarrow> string \<Rightarrow> program list \<Rightarrow> deploy_error + unit" where
  "check_baselines sha256 node out [] = Inr ()"
| "check_baselines sha256 node out (p # ps) =
     (let want = hex_encode (sha256 (pg_vk p)) in
      if digest_of out (pg_name p) \<noteq> want then Inl (baseline_error node p (digest_of out (pg_name p)) want)
      else check_baselines sha256 node out ps)"

definition verifyBaselines ::
  "'w docker \<Rightarrow> ctx \<Rightarrow> file_order \<Rightarrow> (bytes \<Rightarrow> bytes) \<Rightarrow> openvm_config \<Rightarrow> program list \<Rightarrow> string \<Rightarrow> ('w, unit) docker_io" where
  "verifyBaselines srv c ord sha256 cfg ps node =
     io_bind (io_wrap (Wrapped (''digesting baselines on '' @ node))
         (probeArtifacts srv c ord cfg (digest_probe (programNames ps)))) (\<lambda>out.
       case check_baselines sha256 node out ps of Inl e \<Rightarrow> io_fail e | Inr _ \<Rightarrow> io_return ())"

definition ensureArtifacts ::
  "'w docker \<Rightarrow> ctx \<Rightarrow> file_order \<Rightarrow> (bytes \<Rightarrow> bytes) \<Rightarrow> string \<Rightarrow> openvm_config \<Rightarrow> program list \<Rightarrow> string \<Rightarrow> ('w, unit) docker_io" where
  "ensureArtifacts srv c ord sha256 script cfg ps destination =
     (let node = hostName destination in
      io_bind (missingPrograms srv c ord cfg ps node) (\<lambda>missing.
      io_bind (io_each (runKeygen srv c ord script cfg node) missing) (\<lambda>_.
      verifyBaselines srv c ord sha256 cfg ps node)))"

section \<open>The workers\<close>

definition workerReadyTimeout :: int where "workerReadyTimeout = 900 * second"

definition too_few_cpus :: "int \<Rightarrow> string \<Rightarrow> nat \<Rightarrow> deploy_error" where
  "too_few_cpus cpus host n = Message (itoa cpus @ '' CPUs on '' @ host @ '' cannot be split across '' @ itoa (int n) @ '' workers'')"

definition openvm_startWorker ::
  "'w docker \<Rightarrow> ctx \<Rightarrow> file_order \<Rightarrow> (toml_doc \<Rightarrow> string) \<Rightarrow> openvm_config \<Rightarrow> string \<Rightarrow> nat \<Rightarrow> int
    \<Rightarrow> nat \<times> nat \<times> openvm_worker \<Rightarrow> ('w, unit) docker_io" where
  "openvm_startWorker srv c ord toml cfg loadout n cpus piw =
     (case piw of (pos, i, w) \<Rightarrow>
       let name = openvm_workerContainer (deviceID w); lbl = openvm_workerName i w in
       io_bind (io_wrap (Wrapped lbl) (running srv c name)) (\<lambda>up.
         if up then io_return ()
         else io_wrap (Wrapped (''starting '' @ lbl))
           (container_begin srv c ord (openvm_workerSpec toml cfg w i (cpusetCPUs (int pos) (int n) cpus) loadout))))"

definition await_worker :: "nat \<Rightarrow> 'w docker \<Rightarrow> ctx \<Rightarrow> int \<Rightarrow> nat \<times> openvm_worker \<Rightarrow> ('w, unit) docker_io" where
  "await_worker fuel srv c start iw =
     log_loop fuel srv c (openvm_workerContainer (deviceID (snd iw))) (openvm_workerName (fst iw) (snd iw)) workerReadyLine
       (start + workerReadyTimeout)"

definition startWorkers ::
  "nat \<Rightarrow> 'w docker \<Rightarrow> ctx \<Rightarrow> ctx \<Rightarrow> file_order \<Rightarrow> (toml_doc \<Rightarrow> string) \<Rightarrow> openvm_config \<Rightarrow> string \<Rightarrow> host_workers \<Rightarrow> ('w, unit) docker_io" where
  "startWorkers fuel srv c waitctx ord toml cfg loadout g =
     (let host = hostName (hw_ssh g); n = length (hw_workers g) in
      io_bind (io_wrap (Wrapped (''reading docker info on '' @ host)) (must srv c Docker_info)) (\<lambda>info.
        if dk_cpus info < int n then io_fail (too_few_cpus (dk_cpus info) host n)
        else io_bind (io_each (openvm_startWorker srv c ord toml cfg loadout n (dk_cpus info)) (indexed (hw_workers g))) (\<lambda>_.
          io_bind io_now (\<lambda>start. io_each (await_worker fuel srv waitctx start) (hw_workers g)))))"

text \<open>\<open>workerContainerPattern\<close>\<close>

definition is_worker_container :: "string \<Rightarrow> bool" where
  "is_worker_container name =
     (let n = trim_prefix ''/'' name; digits = drop (length workerContainerPrefix) n
      in has_prefix workerContainerPrefix n \<and> digits \<noteq> [] \<and> list_all is_digit digits)"

definition stopWorkers :: "'w docker \<Rightarrow> ctx \<Rightarrow> string \<Rightarrow> ('w, unit) docker_io" where
  "stopWorkers srv c node =
     io_bind (io_wrap (Wrapped (''listing workers on '' @ node)) (must srv c (Docker_list workerContainerPrefix))) (\<lambda>r.
       io_each (\<lambda>names. case find is_worker_container names of
           None \<Rightarrow> io_return ()
         | Some name \<Rightarrow> stopAndRemove srv c (trim_prefix ''/'' name) node) (dk_names r))"

section \<open>The cluster\<close>

record openvm_files =
  keygen_script :: string
  openvm_dcgm_fields :: bytes

definition openvm_deploy ::
  "nat \<Rightarrow> 'w docker \<Rightarrow> file_order \<Rightarrow> (bytes \<Rightarrow> bytes) \<Rightarrow> (toml_doc \<Rightarrow> string) \<Rightarrow> openvm_files \<Rightarrow> (nat \<Rightarrow> ctx) \<Rightarrow> ctx
    \<Rightarrow> openvm_config \<Rightarrow> string list \<Rightarrow> program list \<Rightarrow> ('w, unit) fleet_io" where
  "openvm_deploy fuel srv ord sha256 toml fs gctx c cfg destinations ps =
     (let cc = oc_cluster cfg; loadout = edgePrograms ps in
      io_bind (pullAll srv (gctx 0) destinations (imageRef cc)) (\<lambda>_.
      io_bind (run_group (map (\<lambda>d. (d, ensureArtifacts srv (gctx 1) ord sha256 (keygen_script fs) cfg ps d)) destinations)) (\<lambda>_.
      io_bind (on_host (node_ssh (coordinator cc))
        (startCoordinator fuel srv c ord (coordinatorHost cc) (openvm_coordinatorSpec toml cfg loadout) [openvm_apiPort])) (\<lambda>_.
      io_bind (run_group (map (\<lambda>g. (hw_ssh g, startWorkers fuel srv (gctx 2) (gctx 3) ord toml cfg loadout g)) (workerHosts cfg))) (\<lambda>_.
      io_bind (io_try (startSidecars fuel srv c ord (openvm_dcgm_fields fs) (telemetry cc))) (\<lambda>_. io_return ()))))))"

definition openvm_up ::
  "nat \<Rightarrow> 'w docker \<Rightarrow> file_order \<Rightarrow> (bytes \<Rightarrow> bytes) \<Rightarrow> (toml_doc \<Rightarrow> string) \<Rightarrow> openvm_files
    \<Rightarrow> (string \<Rightarrow> string + 'cli) \<Rightarrow> ('cli \<Rightarrow> string option) \<Rightarrow> (string dial_error \<Rightarrow> string)
    \<Rightarrow> (string \<Rightarrow> deploy_error + bytes) \<Rightarrow> (nat \<Rightarrow> ctx) \<Rightarrow> ctx \<Rightarrow> openvm_config \<Rightarrow> ('w, unit) fleet_io" where
  "openvm_up fuel srv ord sha256 toml fs dial ping show resolve gctx c cfg fl =
     (case dialHosts dial ping (openvm_destinations cfg) of
        Inl (e, _) \<Rightarrow> io_fail (Message (show e)) fl
      | Inr hosts \<Rightarrow>
          (case resolvePrograms sha256 resolve (guests (oc_cluster cfg)) of
             Inl e \<Rightarrow> io_fail e fl
           | Inr ps \<Rightarrow> openvm_deploy fuel srv ord sha256 toml fs gctx c cfg (hostDestinations hosts) ps fl))"

definition openvm_teardown ::
  "'w docker \<Rightarrow> ctx \<Rightarrow> (string \<Rightarrow> string list) \<Rightarrow> openvm_config \<Rightarrow> string list \<Rightarrow> ('w, unit) fleet_io" where
  "openvm_teardown srv c korder cfg destinations =
     io_bind (stopSidecars srv c korder destinations) (\<lambda>_.
     io_bind (run_all (map (\<lambda>g. (hw_ssh g, stopWorkers srv c (hostName (hw_ssh g)))) (workerHosts cfg))) (\<lambda>errs.
     io_bind (run_all [(node_ssh (coordinator (oc_cluster cfg)),
         stopAndRemove srv c openvm_coordinatorContainer CoordinatorName)]) (\<lambda>errs'.
     if errs @ errs' = [] then io_return () else io_fail (join_errors (errs @ errs')))))"

definition openvm_down ::
  "'w docker \<Rightarrow> (string \<Rightarrow> string + 'cli) \<Rightarrow> ('cli \<Rightarrow> string option) \<Rightarrow> (string dial_error \<Rightarrow> string)
    \<Rightarrow> (string \<Rightarrow> string list) \<Rightarrow> ctx \<Rightarrow> openvm_config \<Rightarrow> ('w, unit) fleet_io" where
  "openvm_down srv dial ping show korder c cfg fl =
     (case dialHosts dial ping (openvm_destinations cfg) of
        Inl (e, _) \<Rightarrow> io_fail (Message (show e)) fl
      | Inr hosts \<Rightarrow> openvm_teardown srv c korder cfg (hostDestinations hosts) fl)"

end
