(* ===== verification/Openvm_Up.thy ===== *)
theory Openvm_Up
  imports Openvm_Deploy
begin

text \<open>
  The OpenVM deployment: \<open>workerHosts\<close> is a stable grouping, the resolved programs have names of
  their own, and a deployment that succeeds has checked every keyset on every host against its
  configured key, reached the coordinator and seen every worker ready.
\<close>

section \<open>The grouping of the workers\<close>

definition worker_ssh :: "nat \<times> openvm_worker \<Rightarrow> string" where
  "worker_ssh iw = node_ssh (ow_node (snd iw))"

text \<open>The hosts in the order they first appear in, and the workers of one, in theirs.\<close>

definition hosts_in_order :: "(nat \<times> openvm_worker) list \<Rightarrow> string list" where
  "hosts_in_order iws = rev (remdups (rev (map worker_ssh iws)))"

definition host_group :: "(nat \<times> openvm_worker) list \<Rightarrow> string \<Rightarrow> host_workers" where
  "host_group iws h = \<lparr>hw_ssh = h, hw_workers = filter (\<lambda>iw. worker_ssh iw = h) iws\<rparr>"

lemma hosts_in_order_snoc:
  "hosts_in_order (iws @ [iw]) =
    (if worker_ssh iw \<in> set (hosts_in_order iws) then hosts_in_order iws else hosts_in_order iws @ [worker_ssh iw])"
  by (simp add: hosts_in_order_def)

lemma hosts_in_order_simps [simp]:
  "distinct (hosts_in_order iws)" "set (hosts_in_order iws) = worker_ssh ` set iws" "hosts_in_order [] = []"
  by (simp_all add: hosts_in_order_def)

definition positions :: "string list \<Rightarrow> (string \<rightharpoonup> nat) \<Rightarrow> bool" where
  "positions hs index \<longleftrightarrow> (\<forall>h k. index h = Some k \<longleftrightarrow> k < length hs \<and> hs ! k = h)"

lemma positions_None: "positions hs index \<Longrightarrow> index h = None \<longleftrightarrow> h \<notin> set hs"
  unfolding positions_def in_set_conv_nth by (metis not_None_eq)

lemma group_step_groups:
  assumes "positions (hosts_in_order iws) index"
  shows "\<exists>index'. group_step iw (map (host_group iws) (hosts_in_order iws), index)
      = (map (host_group (iws @ [iw])) (hosts_in_order (iws @ [iw])), index')
    \<and> positions (hosts_in_order (iws @ [iw])) index'"
proof (cases "index (worker_ssh iw)")
  case None
  then have new: "worker_ssh iw \<notin> worker_ssh ` set iws" using positions_None [OF assms] by simp
  have same: "map (host_group (iws @ [iw])) (hosts_in_order iws) = map (host_group iws) (hosts_in_order iws)"
    using new by (auto simp: host_group_def)
  have "filter (\<lambda>x. worker_ssh x = worker_ssh iw) iws = []" unfolding filter_empty_conv using new by (metis image_eqI)
  then have "host_group (iws @ [iw]) (worker_ssh iw) = \<lparr>hw_ssh = worker_ssh iw, hw_workers = [iw]\<rparr>"
    by (simp add: host_group_def)
  moreover have "positions (hosts_in_order iws @ [worker_ssh iw]) (index(worker_ssh iw \<mapsto> length (hosts_in_order iws)))"
    using assms new unfolding positions_def by (auto simp: nth_append less_Suc_eq dest: nth_mem)
  ultimately show ?thesis using None new same
    by (simp add: group_step_def worker_ssh_def [symmetric] hosts_in_order_snoc Let_def)
next
  case (Some k)
  let ?F = "hosts_in_order iws"
  from Some assms have k: "k < length ?F" "?F ! k = worker_ssh iw" unfolding positions_def by blast+
  then have old: "worker_ssh iw \<in> set ?F" by (metis nth_mem)
  have "(map (host_group iws) ?F)[k := (map (host_group iws) ?F ! k)\<lparr>hw_workers := hw_workers (map (host_group iws) ?F ! k) @ [iw]\<rparr>]
      = map (host_group (iws @ [iw])) ?F"
  proof (rule nth_equalityI)
    fix i assume "i < length ((map (host_group iws) ?F)[k := (map (host_group iws) ?F ! k)\<lparr>hw_workers := hw_workers (map (host_group iws) ?F ! k) @ [iw]\<rparr>])"
    then have i: "i < length ?F" by simp
    have "?F ! i = worker_ssh iw \<longleftrightarrow> i = k"
      using k i nth_eq_iff_index_eq [OF hosts_in_order_simps(1) i k(1)] by simp
    then show "(map (host_group iws) ?F)[k := (map (host_group iws) ?F ! k)\<lparr>hw_workers := hw_workers (map (host_group iws) ?F ! k) @ [iw]\<rparr>] ! i
        = map (host_group (iws @ [iw])) ?F ! i"
      using k i by (cases "i = k") (auto simp: host_group_def)
  qed simp
  with Some old assms show ?thesis
    by (simp add: group_step_def worker_ssh_def [symmetric] hosts_in_order_snoc Let_def)
qed

lemma groups_fold:
  "\<exists>index. fold group_step iws ([], Map.empty) = (map (host_group iws) (hosts_in_order iws), index)
    \<and> positions (hosts_in_order iws) index"
proof (induction iws rule: rev_induct)
  case Nil
  then show ?case by (simp add: positions_def)
next
  case (snoc iw iws)
  then show ?case using group_step_groups by fastforce
qed

lemma workerHosts_eq:
  "workerHosts cfg = map (host_group (indexed (oc_workers cfg))) (hosts_in_order (indexed (oc_workers cfg)))"
  using groups_fold [of "indexed (oc_workers cfg)"] unfolding workerHosts_def by auto

text \<open>\<open>workerHosts\<close>, a loop over a map of positions, is the stable grouping of the workers by
  host: one group for each host, in the order of first appearance, with all of the host's workers and
  their positions in the configuration, in configuration order.\<close>

theorem workerHosts_groups:
  "workerHosts cfg = map (host_group (indexed (oc_workers cfg))) (hosts_in_order (indexed (oc_workers cfg)))
    \<and> distinct (map hw_ssh (workerHosts cfg))
    \<and> (\<Union>g \<in> set (workerHosts cfg). set (hw_workers g)) = set (indexed (oc_workers cfg))"
proof -
  have id: "map hw_ssh (map (host_group iws) hs) = hs" for iws hs by (simp add: host_group_def comp_def)
  show ?thesis unfolding workerHosts_eq id by (auto simp: host_group_def)
qed

lemma workerHosts_member:
  assumes "w \<in> set (oc_workers cfg)"
  shows "\<exists>g i. g \<in> set (workerHosts cfg) \<and> hw_ssh g = node_ssh (ow_node w) \<and> (i, w) \<in> set (hw_workers g)"
proof -
  from assms obtain i where i: "i < length (oc_workers cfg)" "oc_workers cfg ! i = w" by (metis in_set_conv_nth)
  then have m: "(i, w) \<in> set (indexed (oc_workers cfg))" unfolding indexed_def set_zip by (auto intro: exI [of _ i])
  let ?iws = "indexed (oc_workers cfg)"
  have "host_group ?iws (worker_ssh (i, w)) \<in> set (workerHosts cfg)"
    unfolding workerHosts_eq set_map using m by (intro imageI) simp
  with m show ?thesis
    by (intro exI [of _ "host_group ?iws (worker_ssh (i, w))"] exI [of _ i]) (auto simp: host_group_def worker_ssh_def)
qed

section \<open>Programs\<close>

lemma program_loop_Inr:
  "program_loop sha256 resolve seen gs = Inr ps \<Longrightarrow>
    distinct (map pg_name ps) \<and> set (map pg_name ps) \<inter> dom seen = {} \<and> map pg_source ps = map guest_elf gs
    \<and> (\<forall>p \<in> set ps. pg_name p = programName sha256 (pg_elf p))
    \<and> list_all2 (\<lambda>g p. ResolveGuest resolve g = Inr (pg_elf p, pg_vk p)) gs ps"
proof (induction gs arbitrary: seen ps)
  case (Cons g gs)
  from Cons.prems obtain elf vk rest where g: "ResolveGuest resolve g = Inr (elf, vk)"
    and new: "seen (programName sha256 elf) = None"
    and rest: "program_loop sha256 resolve (seen(programName sha256 elf \<mapsto> guest_elf g)) gs = Inr rest"
    and ps: "ps = \<lparr>pg_name = programName sha256 elf, pg_source = guest_elf g, pg_elf = elf, pg_vk = vk\<rparr> # rest"
    by (auto simp: res_simps Let_def split: option.splits prod.splits)
  from Cons.IH [OF rest] g new show ?case unfolding ps by auto
qed simp

section \<open>Growth of the tasks\<close>

lemma io_mono_missingPrograms [io_grows]: "io_mono (missingPrograms srv c ord cfg ps node)"
  unfolding missingPrograms_def probeArtifacts_def Let_def
  by (intro io_mono_bind io_mono_ask) (auto split: option.split docker_error.split intro!: io_grows)

lemma io_mono_runKeygen [io_grows]: "io_mono (runKeygen srv c ord script cfg node p)"
  unfolding runKeygen_def by (intro io_grows)

lemma io_mono_verifyBaselines [io_grows]: "io_mono (verifyBaselines srv c ord sha256 cfg ps node)"
  unfolding verifyBaselines_def probeArtifacts_def by (intro io_grows)

lemma io_mono_ensureArtifacts [io_grows]: "io_mono (ensureArtifacts srv c ord sha256 script cfg ps d)"
  unfolding ensureArtifacts_def Let_def by (intro io_grows)

lemma io_mono_openvm_startWorker [io_grows]: "io_mono (openvm_startWorker srv c ord toml cfg loadout n cpus piw)"
  unfolding openvm_startWorker_def Let_def by (intro io_grows)

lemma io_mono_await_worker [io_grows]: "io_mono (await_worker fuel srv c start iw)"
  unfolding await_worker_def by (intro io_grows)

lemma io_mono_startWorkers [io_grows]: "io_mono (startWorkers fuel srv c wc ord toml cfg loadout g)"
  unfolding startWorkers_def Let_def by (intro io_grows)

section \<open>What each host went through\<close>

lemma check_baselines_Inr:
  "check_baselines sha256 node out ps = Inr u \<longleftrightarrow> (\<forall>p \<in> set ps. digest_of out (pg_name p) = hex_encode (sha256 (pg_vk p)))"
  by (induction ps) (auto simp: Let_def)

text \<open>The digests of all baselines were read on the host and agree with the configured keys.\<close>

definition keysets_checked ::
  "'w docker \<Rightarrow> file_order \<Rightarrow> (bytes \<Rightarrow> bytes) \<Rightarrow> openvm_config \<Rightarrow> program list \<Rightarrow> 'w host_machine \<Rightarrow> 'w host_machine \<Rightarrow> bool" where
  "keysets_checked srv ord sha256 cfg ps m m' \<longleftrightarrow>
     (\<exists>out. job_ran srv ord (probe_spec cfg (digest_probe (programNames ps))) out m m'
        \<and> (\<forall>p \<in> set ps. digest_of out (pg_name p) = hex_encode (sha256 (pg_vk p))))"

lemma keysets_checked_within:
  "grows (\<lambda>_. True) m m1 \<Longrightarrow> keysets_checked srv ord sha256 cfg ps m1 m2 \<Longrightarrow> grows (\<lambda>_. True) m2 m' \<Longrightarrow>
    keysets_checked srv ord sha256 cfg ps m m'"
  unfolding keysets_checked_def by (blast intro: job_ran_within)

lemma verifyBaselines_Inr:
  assumes "verifyBaselines srv c ord sha256 cfg ps node m = Some (Inr (), m')"
  shows "keysets_checked srv ord sha256 cfg ps m m'"
proof -
  from assms obtain out m1 where
    1: "container_run srv c ord (probe_spec cfg (digest_probe (programNames ps))) m = Some (Inr out, m1)" and
    rest: "(case check_baselines sha256 node out ps of Inl e \<Rightarrow> io_fail e | Inr _ \<Rightarrow> io_return ()) m1 = Some (Inr (), m')"
    unfolding verifyBaselines_def probeArtifacts_def io_bind_Inr io_wrap_Inr by blast
  from rest have 2: "check_baselines sha256 node out ps = Inr ()" "m' = m1"
    by (cases "check_baselines sha256 node out ps"; simp)+
  from container_run_ends [OF 1] 2 show ?thesis unfolding keysets_checked_def check_baselines_Inr by blast
qed

lemma ensureArtifacts_Inr:
  assumes "ensureArtifacts srv c ord sha256 script cfg ps d m = Some (Inr (), m')"
  shows "keysets_checked srv ord sha256 cfg ps m m'"
proof -
  from assms obtain missing m1 m2 where
    1: "missingPrograms srv c ord cfg ps (hostName d) m = Some (Inr missing, m1)" and
    2: "io_each (runKeygen srv c ord script cfg (hostName d)) missing m1 = Some (Inr (), m2)" and
    3: "verifyBaselines srv c ord sha256 cfg ps (hostName d) m2 = Some (Inr (), m')"
    unfolding ensureArtifacts_def Let_def io_bind_Inr ex_unit by blast
  from grows_trans [OF io_monoD [OF io_mono_missingPrograms 1] io_monoD [OF io_mono_each [OF io_mono_runKeygen] 2]]
  show ?thesis by (rule keysets_checked_within [OF _ verifyBaselines_Inr [OF 3] grows_refl])
qed

lemma startWorkers_Inr:
  assumes "startWorkers fuel srv c wc ord toml cfg loadout g m = Some (Inr (), m')" "(i, w) \<in> set (hw_workers g)"
  shows "logged srv (openvm_workerContainer (deviceID w)) workerReadyLine m m'"
proof -
  let ?n = "length (hw_workers g)"
  from assms(1) obtain info m1 where
    1: "must srv c Docker_info m = Some (Inr info, m1)" and
    2: "(if dk_cpus info < int ?n then io_fail (too_few_cpus (dk_cpus info) (hostName (hw_ssh g)) ?n)
        else io_bind (io_each (openvm_startWorker srv c ord toml cfg loadout ?n (dk_cpus info)) (indexed (hw_workers g))) (\<lambda>_.
          io_bind io_now (\<lambda>start. io_each (await_worker fuel srv wc start) (hw_workers g)))) m1 = Some (Inr (), m')"
    unfolding startWorkers_def Let_def io_bind_Inr io_wrap_Inr by blast
  from 2 have "\<not> dk_cpus info < int ?n" by (auto split: if_splits)
  with 2 obtain m2 start where
    3: "io_each (openvm_startWorker srv c ord toml cfg loadout ?n (dk_cpus info)) (indexed (hw_workers g)) m1 = Some (Inr (), m2)" and
    4: "io_each (await_worker fuel srv wc start) (hw_workers g) m2 = Some (Inr (), m')"
    by (auto simp: io_bind_Inr)
  from io_each_all [OF 4 io_mono_await_worker assms(2)] obtain m3 m4 where
    5: "grows (\<lambda>_. True) m2 m3" "await_worker fuel srv wc start (i, w) m3 = Some (Inr (), m4)" "grows (\<lambda>_. True) m4 m'" by blast
  have "logged srv (openvm_workerContainer (deviceID w)) workerReadyLine m3 m4"
    using 5(2) unfolding await_worker_def fst_conv snd_conv by (rule log_loop_ok)
  moreover have "grows (\<lambda>_. True) m m3"
    using grows_trans [OF grows_trans [OF io_monoD [OF io_mono_must 1] io_monoD [OF io_mono_each [OF io_mono_openvm_startWorker] 3]] 5(1)] .
  ultimately show ?thesis by (blast intro: logged_within 5(3))
qed

section \<open>The cluster\<close>

lemma openvm_deploy_ready:
  assumes "openvm_deploy fuel srv ord sha256 toml fs gctx c cfg ds ps fl = Some (Inr (), fl')"
  shows "\<exists>fl1 fl2. fleet_grows fl fl1 \<and> fleet_grows fl1 fl2 \<and> fleet_grows fl2 fl'
    \<and> (\<forall>h \<in> set ds. keysets_checked srv ord sha256 cfg ps (fl h) (fl1 h))
    \<and> (let hc = node_ssh (coordinator (oc_cluster cfg)) in
         probed srv openvm_coordinatorContainer (listening_probe [openvm_apiPort]) (fl1 hc) (fl2 hc))
    \<and> (\<forall>w \<in> set (oc_workers cfg). let h = node_ssh (ow_node w) in
         logged srv (openvm_workerContainer (deviceID w)) workerReadyLine (fl2 h) (fl' h))"
proof -
  let ?ensure = "\<lambda>d. ensureArtifacts srv (gctx 1) ord sha256 (keygen_script fs) cfg ps d"
  let ?ensures = "map (\<lambda>d. (d, ?ensure d)) ds"
  let ?coord = "startCoordinator fuel srv c ord (coordinatorHost (oc_cluster cfg)) (openvm_coordinatorSpec toml cfg (edgePrograms ps)) [openvm_apiPort]"
  let ?start = "\<lambda>g. startWorkers fuel srv (gctx 2) (gctx 3) ord toml cfg (edgePrograms ps) g"
  let ?starts = "map (\<lambda>g. (hw_ssh g, ?start g)) (workerHosts cfg)"
  let ?hc = "node_ssh (coordinator (oc_cluster cfg))"
  from assms obtain fl0 fl1 fl2 fl3 x where
    pull: "pullAll srv (gctx 0) ds (imageRef (oc_cluster cfg)) fl = Some (Inr (), fl0)" and
    keys: "run_group ?ensures fl0 = Some (Inr (), fl1)" and
    coord: "on_host ?hc ?coord fl1 = Some (Inr (), fl2)" and
    start: "run_group ?starts fl2 = Some (Inr (), fl3)" and
    side: "io_try (startSidecars fuel srv c ord (openvm_dcgm_fields fs) (telemetry (oc_cluster cfg))) fl3 = Some (Inr x, fl')"
    unfolding openvm_deploy_def Let_def io_bind_Inr ex_unit by (auto simp: io_return_def)
  have mono: "tasks_mono ?ensures" "tasks_mono ?starts"
    by (simp_all add: io_mono_ensureArtifacts io_mono_startWorkers)
  have g0: "fleet_grows fl fl0" by (rule fleet_monoD [OF fleet_mono_pullAll pull])
  have g1: "fleet_grows fl0 fl1" by (rule fleet_monoD [OF fleet_mono_group [OF mono(1)] keys])
  have g2: "fleet_grows fl1 fl2" by (rule fleet_monoD [OF fleet_mono_on_host coord]) (rule io_mono_startCoordinator)
  have g3: "fleet_grows fl2 fl3" by (rule fleet_monoD [OF fleet_mono_group [OF mono(2)] start])
  have g4: "fleet_grows fl3 fl'" by (rule fleet_monoD [OF fleet_mono_try [OF fleet_mono_startSidecars] side])
  have checked: "keysets_checked srv ord sha256 cfg ps (fl h) (fl1 h)" if "h \<in> set ds" for h
  proof -
    from that have "(h, ?ensure h) \<in> set ?ensures" by simp
    from run_group_each [OF mono(1) keys this] obtain m1 m2 where
      1: "grows (\<lambda>_. True) (fl0 h) m1" "?ensure h m1 = Some (Inr (), m2)" "grows (\<lambda>_. True) m2 (fl1 h)" by blast
    show ?thesis
      by (rule keysets_checked_within [OF grows_trans [OF fleet_growsD [OF g0] 1(1)] ensureArtifacts_Inr [OF 1(2)] 1(3)])
  qed
  have probe: "probed srv openvm_coordinatorContainer (listening_probe [openvm_apiPort]) (fl1 ?hc) (fl2 ?hc)"
  proof -
    from on_host_Inr [OF io_mono_startCoordinator coord] obtain m1 m2 where
      m: "grows (\<lambda>_. True) (fl1 ?hc) m1" "?coord m1 = Some (Inr (), m2)" "grows (\<lambda>_. True) m2 (fl2 ?hc)" by blast
    have "cn_name (openvm_coordinatorSpec toml cfg (edgePrograms ps)) = openvm_coordinatorContainer"
      by (simp add: openvm_coordinatorSpec_def Let_def)
    with probed_within [OF m(1) startCoordinator_ok [OF m(2)] m(3)] show ?thesis by simp
  qed
  have worker: "logged srv (openvm_workerContainer (deviceID w)) workerReadyLine (fl2 h) (fl' h)"
    if w: "w \<in> set (oc_workers cfg)" and h: "h = node_ssh (ow_node w)" for w h
  proof -
    from workerHosts_member [OF w] obtain g0 i where g0: "g0 \<in> set (workerHosts cfg)" "hw_ssh g0 = h" "(i, w) \<in> set (hw_workers g0)"
      unfolding h by blast
    have "(hw_ssh g0, ?start g0) \<in> set ?starts" unfolding set_map using g0(1) by (rule imageI)
    then obtain g where g: "(h, ?start g) \<in> set ?starts" "(i, w) \<in> set (hw_workers g)"
      using g0(2,3) by blast
    from run_group_each [OF mono(2) start g(1)] obtain m1 m2 where
      1: "grows (\<lambda>_. True) (fl2 h) m1" "?start g m1 = Some (Inr (), m2)" "grows (\<lambda>_. True) m2 (fl3 h)" by blast
    show ?thesis by (rule logged_within [OF 1(1) startWorkers_Inr [OF 1(2) g(2)] grows_trans [OF 1(3) fleet_growsD [OF g4]]])
  qed
  from fleet_grows_trans [OF g0 g1] g2 fleet_grows_trans [OF g3 g4] checked probe worker show ?thesis
    unfolding Let_def by blast
qed

lemma openvm_up_Inr:
  assumes "openvm_up fuel srv ord sha256 toml fs dial ping show resolve gctx c cfg fl = Some (Inr (), fl')"
  shows "\<exists>ps fl1 fl2. resolvePrograms sha256 resolve (guests (oc_cluster cfg)) = Inr ps \<and> distinct (map pg_name ps)
    \<and> fleet_grows fl fl1 \<and> fleet_grows fl1 fl2 \<and> fleet_grows fl2 fl'
    \<and> (\<forall>h \<in> set (openvm_destinations cfg). \<exists>out.
         job_ran srv ord (probe_spec cfg (digest_probe (programNames ps))) out (fl h) (fl1 h)
         \<and> (\<forall>p \<in> set ps. digest_of out (pg_name p) = hex_encode (sha256 (pg_vk p))))
    \<and> (let hc = node_ssh (coordinator (oc_cluster cfg)) in
         probed srv openvm_coordinatorContainer (listening_probe [openvm_apiPort]) (fl1 hc) (fl2 hc))
    \<and> (\<forall>w \<in> set (oc_workers cfg). let h = node_ssh (ow_node w) in
         logged srv (openvm_workerContainer (deviceID w)) workerReadyLine (fl2 h) (fl' h))"
proof -
  from assms obtain hosts ps where hosts: "dialHosts dial ping (openvm_destinations cfg) = Inr hosts"
    and ps: "resolvePrograms sha256 resolve (guests (oc_cluster cfg)) = Inr ps"
    and up: "openvm_deploy fuel srv ord sha256 toml fs gctx c cfg (hostDestinations hosts) ps fl = Some (Inr (), fl')"
    unfolding openvm_up_def by (auto split: sum.splits prod.splits)
  have "set (hostDestinations hosts) = set (openvm_destinations cfg)"
    using dial_loop_Inr [OF hosts [unfolded dialHosts_def] hosts_ok_empty] by (simp add: no_hosts_def hostDestinations_def)
  moreover have "distinct (map pg_name ps)" using program_loop_Inr ps unfolding resolvePrograms_def by blast
  ultimately show ?thesis using openvm_deploy_ready [OF up] ps unfolding keysets_checked_def by metis
qed

text \<open>C5: where \<open>Up\<close> of an OpenVM cluster ends without an error, the programs of the guests had
  different names; on every dialed host, the coordinator's and each worker's among them, a job read the
  digests of all baselines and every one was that of the configured verifying key; then the
  coordinator's port answered, and then the log of each worker, since its own start, held the line
  that it accepts work.\<close>

theorem openvm_up_ready:
  assumes "openvm_up fuel srv ord sha256 toml fs dial ping show resolve gctx c cfg fl = Some (Inr (), fl')"
  shows "\<exists>ps fl1 fl2. resolvePrograms sha256 resolve (guests (oc_cluster cfg)) = Inr ps \<and> distinct (map pg_name ps)
    \<and> fleet_grows fl fl1 \<and> fleet_grows fl1 fl2 \<and> fleet_grows fl2 fl'
    \<and> (\<forall>h \<in> set (openvm_destinations cfg). \<exists>out.
         job_ran srv ord (probe_spec cfg (digest_probe (programNames ps))) out (fl h) (fl1 h)
         \<and> (\<forall>p \<in> set ps. digest_of out (pg_name p) = hex_encode (sha256 (pg_vk p))))
    \<and> (let hc = node_ssh (coordinator (oc_cluster cfg)) in
         probed srv openvm_coordinatorContainer (listening_probe [openvm_apiPort]) (fl1 hc) (fl2 hc))
    \<and> (\<forall>w \<in> set (oc_workers cfg). let h = node_ssh (ow_node w) in
         logged srv (openvm_workerContainer (deviceID w)) workerReadyLine (fl2 h) (fl' h))"
  using assms by (rule openvm_up_Inr)

section \<open>A deployment that succeeds\<close>

lemma gives_missingPrograms:
  "gives (missingPrograms (steady (healthy logs)) c ord cfg ps node) (filter (\<lambda>p. pg_name p \<notin> set (str_fields logs)) ps)"
  unfolding missingPrograms_def probeArtifacts_def Let_def
  by (rule gives_bind [OF gives_ask], simp only: healthy_simps option.case)
    (rule gives_bind [OF gives_wrap [OF gives_container_run]], rule gives_return)

lemma gives_runKeygen: "gives (runKeygen (steady (healthy logs)) c ord script cfg node p) ()"
  unfolding runKeygen_def by (rule gives_bind [OF gives_try [OF gives_container_run]]) (simp add: gives_return)

lemma gives_verifyBaselines:
  "check_baselines sha256 node logs ps = Inr () \<Longrightarrow>
    gives (verifyBaselines (steady (healthy logs)) c ord sha256 cfg ps node) ()"
  unfolding verifyBaselines_def probeArtifacts_def
  by (rule gives_bind [OF gives_wrap [OF gives_container_run]]) (simp add: gives_return)

lemma gives_ensureArtifacts:
  "check_baselines sha256 (hostName d) logs ps = Inr () \<Longrightarrow>
    gives (ensureArtifacts (steady (healthy logs)) c ord sha256 script cfg ps d) ()"
  unfolding ensureArtifacts_def Let_def
  by (rule gives_bind [OF gives_missingPrograms gives_seq [OF gives_each [OF gives_runKeygen] gives_verifyBaselines]])

lemma gives_log_loop:
  "contains_str line logs \<Longrightarrow> gives (log_loop (Suc fuel) (steady (healthy logs)) c name lbl line deadline) ()"
  unfolding log_loop.simps
  by (rule gives_bind [OF gives_wrap [OF gives_must_healthy]])
    (simp add: gives_bind [OF gives_wrap [OF gives_must_healthy]] gives_return)

lemma gives_openvm_startWorker:
  "gives (openvm_startWorker (steady (healthy logs)) c ord toml cfg loadout n cpus piw) ()"
  unfolding openvm_startWorker_def Let_def
  by (cases piw) (simp add: gives_bind [OF gives_wrap [OF gives_running]] gives_return)

lemma gives_now: "(\<And>t. gives (g t) v) \<Longrightarrow> gives (io_bind io_now g) v"
  unfolding gives_def by (simp add: io_bind_Inr)

lemma gives_await_worker:
  "contains_str workerReadyLine logs \<Longrightarrow> gives (await_worker (Suc fuel) (steady (healthy logs)) c start iw) ()"
  unfolding await_worker_def by (rule gives_log_loop)

lemma gives_startWorkers:
  assumes "contains_str workerReadyLine logs" "length (hw_workers g) \<le> 8"
  shows "gives (startWorkers (Suc fuel) (steady (healthy logs)) c wc ord toml cfg loadout g) ()"
proof -
  have "\<not> dk_cpus (healthy logs Docker_info) < int (length (hw_workers g))" using assms(2) by simp
  then show ?thesis unfolding startWorkers_def Let_def
    by (intro gives_bind [OF gives_wrap [OF gives_must_healthy]])
      (simp only: if_False, intro gives_seq [OF gives_each [OF gives_openvm_startWorker]] gives_now gives_each
        gives_await_worker assms(1))
qed

lemma gives_openvm_deploy:
  assumes "contains_str workerReadyLine logs"
    and "\<And>fl. startSidecars (Suc fuel) (steady (healthy logs)) c ord (openvm_dcgm_fields fs) (telemetry (oc_cluster cfg)) fl \<noteq> None"
    and "\<And>d. check_baselines sha256 (hostName d) logs ps = Inr ()"
    and "\<And>g. g \<in> set (workerHosts cfg) \<Longrightarrow> length (hw_workers g) \<le> 8"
  shows "gives (openvm_deploy (Suc fuel) (steady (healthy logs)) ord sha256 toml fs gctx c cfg ds ps) ()"
proof -
  have 1: "gives (run_group (map (\<lambda>d. (d, ensureArtifacts (steady (healthy logs)) (gctx 1) ord sha256 (keygen_script fs) cfg ps d)) ds)) ()"
    by (rule gives_group) (auto simp: gives_ensureArtifacts [OF assms(3)])
  have 2: "gives (run_group (map (\<lambda>g. (hw_ssh g, startWorkers (Suc fuel) (steady (healthy logs)) (gctx 2) (gctx 3) ord toml cfg
      (edgePrograms ps) g)) (workerHosts cfg))) ()"
    by (rule gives_group) (auto simp: gives_startWorkers [OF assms(1) assms(4)])
  show ?thesis
    unfolding openvm_deploy_def Let_def
    by (intro gives_seq [OF gives_pullAll] gives_seq [OF 1] gives_seq [OF gives_on_host [OF gives_startCoordinator]]
        gives_seq [OF 2]
        gives_tried assms(2))
qed

definition openvm_quiet_sample :: openvm_config where
  "openvm_quiet_sample = openvm_sample\<lparr>oc_cluster := (oc_cluster openvm_sample)\<lparr>telemetry := \<lparr>interval_ms = 0, sidecars = []\<rparr>\<rparr>\<rparr>"

definition keyset_log :: string where
  "keyset_log = workerReadyLine @ CHR 0x0A # ''program-0102030405060708 0102030405060708''"

definition quiet_sha :: "bytes \<Rightarrow> bytes" where
  "quiet_sha b = [1, 2, 3, 4, 5, 6, 7, 8]"

definition quiet_program :: program where
  "quiet_program = \<lparr>pg_name = ''program-0102030405060708'', pg_source = ''g.elf'', pg_elf = [1], pg_vk = [2]\<rparr>"

definition quiet_source :: "string \<Rightarrow> deploy_error + bytes" where
  "quiet_source s = (if s = ''g.elf'' then Inr [1] else Inr [2])"

lemma quiet_programs: "resolvePrograms quiet_sha quiet_source (guests (oc_cluster openvm_quiet_sample)) = Inr [quiet_program]"
proof -
  have guests: "guests (oc_cluster openvm_quiet_sample) = [\<lparr>guest_elf = ''g.elf'', guest_vk = ''g.vk''\<rparr>]"
    by (simp add: openvm_quiet_sample_def openvm_sample_def)
  have name: "programName quiet_sha [1] = ''program-0102030405060708''" unfolding programName_def by code_simp
  show ?thesis
    by (simp add: guests ResolveGuest_def resolvePrograms_def quiet_source_def quiet_program_def name Let_def)
qed

lemma quiet_digest: "digest_of keyset_log (pg_name quiet_program) = hex_encode (quiet_sha (pg_vk quiet_program))"
  by code_simp

lemma openvm_up_on_healthy_hosts:
  assumes "dialHosts dial ping (openvm_destinations cfg) = Inr hosts"
    and "resolvePrograms sha256 resolve (guests (oc_cluster cfg)) = Inr ps"
    and "contains_str workerReadyLine logs"
    and "\<And>fl. startSidecars (Suc fuel) (steady (healthy logs)) c ord (openvm_dcgm_fields fs) (telemetry (oc_cluster cfg)) fl \<noteq> None"
    and "\<forall>p \<in> set ps. digest_of logs (pg_name p) = hex_encode (sha256 (pg_vk p))"
    and "\<forall>g \<in> set (workerHosts cfg). length (hw_workers g) \<le> 8"
  shows "\<exists>fl'. openvm_up (Suc fuel) (steady (healthy logs)) ord sha256 toml fs dial ping show resolve gctx c cfg fl = Some (Inr (), fl')"
proof -
  have "check_baselines sha256 node logs ps = Inr ()" for node
    using assms(5) by (simp only: check_baselines_Inr)
  then show ?thesis
    using gives_openvm_deploy [OF assms(3,4)] assms(1,2,6) unfolding openvm_up_def gives_def by fastforce
qed

lemma openvm_quiet_up:
  "\<exists>fl'. openvm_up 1 (steady (healthy keyset_log)) id quiet_sha (\<lambda>_. []) \<lparr>keygen_script = ''k'', openvm_dcgm_fields = []\<rparr>
     (\<lambda>d. Inr d) (\<lambda>_. None) (\<lambda>_. []) quiet_source (\<lambda>_. None) None openvm_quiet_sample fl = Some (Inr (), fl')"
proof -
  obtain hosts where hosts: "dialHosts (\<lambda>d. Inr d) (\<lambda>_. None :: string option) (openvm_destinations openvm_quiet_sample) = Inr hosts"
    by (auto simp: dialHosts_def openvm_destinations_def openvm_quiet_sample_def openvm_sample_def no_hosts_def)
  have line: "contains_str workerReadyLine keyset_log" by code_simp
  have alone: "startSidecars fuel srv c ord f (telemetry (oc_cluster openvm_quiet_sample)) fl \<noteq> None" for fuel srv c ord f fl
    by (rule no_sidecars_return) (simp add: openvm_quiet_sample_def)
  have cpus: "\<forall>g \<in> set (workerHosts openvm_quiet_sample). length (hw_workers g) \<le> 8"
    unfolding workerHosts_eq by (auto simp: host_group_def indexed_def openvm_quiet_sample_def openvm_sample_def)
  have "\<forall>p \<in> set [quiet_program]. digest_of keyset_log (pg_name p) = hex_encode (quiet_sha (pg_vk p))" using quiet_digest by simp
  from openvm_up_on_healthy_hosts [OF hosts quiet_programs line alone this cpus] show ?thesis unfolding One_nat_def .
qed

theorem openvm_up_ready_witness:
  "\<exists>out m1 m2 m3 m4. job_ran (steady (healthy keyset_log)) id
      (probe_spec openvm_quiet_sample (digest_probe [''program-0102030405060708''])) out m1 m2
    \<and> digest_of out ''program-0102030405060708'' = ''0102030405060708''
    \<and> logged (steady (healthy keyset_log)) ''openvm-worker-0'' workerReadyLine m3 m4"
proof -
  let ?srv = "steady (healthy keyset_log)" and ?fl = "\<lambda>h. \<lparr>clock = 0, sent = [], phases = [], env = ()\<rparr>"
  let ?w = "hd (oc_workers openvm_quiet_sample)"
  from openvm_quiet_up obtain fl' where
    "openvm_up 1 ?srv id quiet_sha (\<lambda>_. []) \<lparr>keygen_script = ''k'', openvm_dcgm_fields = []\<rparr> (\<lambda>d. Inr d) (\<lambda>_. None) (\<lambda>_. [])
       quiet_source (\<lambda>_. None) None openvm_quiet_sample ?fl = Some (Inr (), fl')" by blast
  from openvm_up_ready [OF this] obtain ps fl1 fl2 where
    ps: "resolvePrograms quiet_sha quiet_source (guests (oc_cluster openvm_quiet_sample)) = Inr ps" and
    d: "\<forall>h \<in> set (openvm_destinations openvm_quiet_sample). \<exists>out.
         job_ran ?srv id (probe_spec openvm_quiet_sample (digest_probe (programNames ps))) out (?fl h) (fl1 h)
         \<and> (\<forall>p \<in> set ps. digest_of out (pg_name p) = hex_encode (quiet_sha (pg_vk p)))" and
    w: "\<forall>w \<in> set (oc_workers openvm_quiet_sample). let h = node_ssh (ow_node w) in
         logged ?srv (openvm_workerContainer (deviceID w)) workerReadyLine (fl2 h) (fl' h)" by blast
  from ps quiet_programs have p: "ps = [quiet_program]" by simp
  have "''a'' \<in> set (openvm_destinations openvm_quiet_sample)" "?w \<in> set (oc_workers openvm_quiet_sample)"
    by (simp_all add: openvm_destinations_def openvm_quiet_sample_def openvm_sample_def)
  with d w obtain out where "job_ran ?srv id (probe_spec openvm_quiet_sample (digest_probe (programNames ps))) out (?fl ''a'') (fl1 ''a'')"
    "digest_of out (pg_name quiet_program) = hex_encode (quiet_sha (pg_vk quiet_program))"
    "logged ?srv (openvm_workerContainer (deviceID ?w)) workerReadyLine (fl2 (node_ssh (ow_node ?w))) (fl' (node_ssh (ow_node ?w)))"
    unfolding p Let_def by (metis list.set_intros(1))
  moreover have "hex_encode (quiet_sha (pg_vk quiet_program)) = ''0102030405060708''" "openvm_workerContainer (deviceID ?w) = ''openvm-worker-0''"
    "programNames ps = [''program-0102030405060708'']" "pg_name quiet_program = ''program-0102030405060708''"
    unfolding p by code_simp+
  ultimately show ?thesis by metis
qed

end
