(* ===== verification/Deploy_Ends.thy ===== *)
theory Deploy_Ends
  imports Zisk_Up Openvm_Up Daemon_Ends
begin

text \<open>
  A deployment ends, whatever the daemons answer: groups of tasks that end, the sidecars, and the two
  commands \<open>Up\<close> and \<open>Down\<close> of each zkVM.
\<close>

section \<open>Groups\<close>

lemma run_tasks_ends: "(\<forall>t \<in> snd ` set ts. ends t) \<Longrightarrow> fst (run_tasks ts fl) \<noteq> None"
proof (induction ts arbitrary: fl)
  case (Cons ht ts)
  obtain h t where ht: "ht = (h, t)" by force
  with Cons.prems have "ends t" by simp
  then obtain r m where t: "t (fl h) = Some (r, m)" using endsD by fastforce
  from Cons.prems have "\<forall>t \<in> snd ` set ts. ends t" by simp
  from Cons.IH [OF this, of "fl(h := m)"] obtain rs where "fst (run_tasks ts (fl(h := m))) = Some rs" by blast
  then obtain fl1 where "run_tasks ts (fl(h := m)) = (Some rs, fl1)" by (metis prod.collapse)
  with ht t show ?case by simp
qed simp

lemma ends_group [io_ends]: "(\<forall>t \<in> snd ` set ts. ends t) \<Longrightarrow> ends (run_group ts)"
proof (rule endsI)
  fix fl
  assume "\<forall>t \<in> snd ` set ts. ends t"
  from run_tasks_ends [OF this, of fl] show "run_group ts fl \<noteq> None"
    by (cases "run_tasks ts fl") (auto simp: run_group_def)
qed

lemma ends_all [io_ends]: "(\<forall>t \<in> snd ` set ts. ends t) \<Longrightarrow> ends (run_all ts)"
proof (rule endsI)
  fix fl
  assume "\<forall>t \<in> snd ` set ts. ends t"
  from run_tasks_ends [OF this, of fl] show "run_all ts fl \<noteq> None"
    by (cases "run_tasks ts fl") (auto simp: run_all_def)
qed

lemma ends_on_host [io_ends]: "ends t \<Longrightarrow> ends (on_host h t)"
  unfolding on_host_def by (rule ends_group) simp

lemma ends_pullAll [io_ends]: "ends (pullAll srv c ds ref)"
  unfolding pullAll_def by (rule ends_group) (auto intro: ends_pullImage)

lemma ends_startSidecars: "1000 < fuel \<Longrightarrow> ends (startSidecars fuel srv c ord f t)"
proof -
  assume fuel: "1000 < fuel"
  let ?start = "\<lambda>s. io_try (on_host (sc_ssh s) (startSidecar fuel srv c ord f (telemetry_interval t) s))"
  have "ends (fold (\<lambda>s acc. io_bind acc (\<lambda>es. io_bind (?start s) (\<lambda>r.
      io_return (case r of Inl e \<Rightarrow> es @ [e] | Inr _ \<Rightarrow> es)))) ss acc)" if "ends acc" for ss acc
    using that
  proof (induction ss arbitrary: acc)
    case (Cons s ss)
    show ?case unfolding fold.simps o_apply
      by (intro Cons.IH ends_bind Cons.prems ends_try ends_on_host ends_startSidecar fuel ends_leaf)
  qed simp
  from this [OF ends_leaf(1)] show ?thesis
    unfolding startSidecars_def Let_def by (intro ends_bind ends_if ends_leaf) simp_all
qed

lemma ends_stopSidecars: "ends (stopSidecars srv c korder ds)"
  unfolding stopSidecars_def
  by (intro ends_each) (auto intro!: ends_bind ends_try ends_on_host ends_stopSidecar ends_leaf split: prod.split)

section \<open>ZisK\<close>

lemma ends_ensureProvingKey: "ends (ensureProvingKey srv c ord script cfg w node)"
  unfolding ensureProvingKey_def fill_volume_def Let_def by (intro io_ends)

lemma ends_setupGuests: "ends (setupGuests srv c ord script cfg w node gs)"
  unfolding setupGuests_def by (intro io_ends)

lemma ends_zisk_startWorker: "1000 < fuel \<Longrightarrow> ends (zisk_startWorker fuel srv c ord cfg w name)"
  unfolding zisk_startWorker_def hostTopology_def
  by (intro io_ends ends_waitLogLine) (simp_all add: registrationTimeout_def second_def)

lemma ends_zisk_each: "(\<And>w node. ends (t w node)) \<Longrightarrow> \<forall>t \<in> snd ` set (zisk_each cfg t). ends t"
  by (auto simp: zisk_each_def)

lemma ends_zisk_deploy: "1000 < fuel \<Longrightarrow> ends (zisk_deploy fuel srv ord fs gctx c cfg ds gs)"
  unfolding zisk_deploy_def Let_def
  by (intro ends_bind ends_pullAll ends_group ends_zisk_each ends_ensureProvingKey ends_setupGuests ends_on_host
      ends_startCoordinator ends_zisk_startWorker ends_try ends_startSidecars ends_leaf)

lemma ends_zisk_teardown: "ends (zisk_teardown srv c korder cfg ds)"
  unfolding zisk_teardown_def
  by (intro ends_bind ends_stopSidecars ends_all ends_zisk_each ends_stopAndRemove ends_if ends_leaf) (simp add: ends_stopAndRemove)

section \<open>OpenVM\<close>

lemma ends_ensureArtifacts: "ends (ensureArtifacts srv c ord sha256 script cfg ps d)"
  unfolding ensureArtifacts_def missingPrograms_def runKeygen_def verifyBaselines_def probeArtifacts_def Let_def
  by (intro io_ends)

lemma ends_openvm_startWorker: "ends (openvm_startWorker srv c ord toml cfg loadout n cpus piw)"
  unfolding openvm_startWorker_def Let_def by (cases piw) (simp only: prod.case, intro io_ends)

text \<open>The waits of one host share a deadline, which is set when the first of them starts.\<close>

lemma await_workers_returns:
  assumes "1000 < fuel"
  shows "start \<le> clock m \<Longrightarrow> io_each (await_worker fuel srv c start) iws m \<noteq> None"
proof (induction iws arbitrary: m)
  case (Cons iw iws)
  show ?case unfolding io_each.simps
  proof (rule io_bind_returns)
    show "await_worker fuel srv c start iw m \<noteq> None"
      unfolding await_worker_def using assms Cons.prems by (intro log_loop_ends) (auto simp: workerReadyTimeout_def)
  next
    fix v m1
    assume "await_worker fuel srv c start iw m = Some (Inr v, m1)"
    then have "clock m \<le> clock m1" by (rule grows_clock [OF io_monoD [OF io_mono_await_worker]])
    with Cons.prems Cons.IH show "io_each (await_worker fuel srv c start) iws m1 \<noteq> None" by simp
  qed
qed simp

lemma ends_startWorkers: "1000 < fuel \<Longrightarrow> ends (startWorkers fuel srv c wc ord toml cfg loadout g)"
proof -
  assume fuel: "1000 < fuel"
  have "ends (io_bind io_now (\<lambda>start. io_each (await_worker fuel srv wc start) ws))" for ws
  proof (rule endsI)
    fix m :: "'a host_machine"
    show "io_bind io_now (\<lambda>start. io_each (await_worker fuel srv wc start) ws) m \<noteq> None"
      using await_workers_returns [OF fuel order_refl] by (simp add: io_bind_def [of io_now] io_now_def)
  qed
  note wait = this
  have "ends (io_bind (io_each (openvm_startWorker srv c ord toml cfg loadout n cpus) ps)
      (\<lambda>_. io_bind io_now (\<lambda>start. io_each (await_worker fuel srv wc start) ws)))" for n cpus ps ws
    by (rule ends_bind [OF ends_each [OF ends_openvm_startWorker] wait])
  then show ?thesis unfolding startWorkers_def Let_def
    by (intro ends_bind [OF ends_wrap [OF ends_must]] ends_if ends_leaf) assumption
qed

lemma ends_openvm_deploy: "1000 < fuel \<Longrightarrow> ends (openvm_deploy fuel srv ord sha256 toml fs gctx c cfg ds ps)"
proof -
  assume fuel: "1000 < fuel"
  have 1: "\<forall>t \<in> snd ` set (map (\<lambda>d. (d, ensureArtifacts srv (gctx 1) ord sha256 (keygen_script fs) cfg ps d)) ds). ends t"
    by (auto intro: ends_ensureArtifacts)
  have 2: "\<forall>t \<in> snd ` set (map (\<lambda>g. (hw_ssh g, startWorkers fuel srv (gctx 2) (gctx 3) ord toml cfg (edgePrograms ps) g))
      (workerHosts cfg)). ends t"
    by (auto intro: ends_startWorkers fuel)
  show ?thesis unfolding openvm_deploy_def Let_def
    by (intro ends_bind ends_pullAll ends_group [OF 1] ends_group [OF 2] ends_on_host ends_startCoordinator fuel
        ends_try ends_startSidecars ends_leaf)
qed

lemma ends_stopWorkers: "ends (stopWorkers srv c node)"
proof -
  have "ends (case n of None \<Rightarrow> io_return () | Some name \<Rightarrow> stopAndRemove srv c (trim_prefix ''/'' name) node)" for n
    by (cases n) (simp_all add: ends_leaf ends_stopAndRemove)
  then show ?thesis unfolding stopWorkers_def by (intro ends_bind ends_wrap ends_must ends_each)
qed

lemma ends_openvm_teardown: "ends (openvm_teardown srv c korder cfg ds)"
proof -
  have "\<forall>t \<in> snd ` set (map (\<lambda>g. (hw_ssh g, stopWorkers srv c (hostName (hw_ssh g)))) (workerHosts cfg)). ends t"
    by (auto intro: ends_stopWorkers)
  note workers = this
  show ?thesis unfolding openvm_teardown_def
    by (intro ends_bind ends_stopSidecars ends_all [OF workers] ends_all ends_if ends_leaf) (simp add: ends_stopAndRemove)
qed

text \<open>C15: with more than a thousand rounds of fuel \<open>Up\<close> of either zkVM returns, whatever the daemons
  answer and whether or not a context ends, and \<open>Down\<close> returns without any fuel: no wait for a
  port, a log line or a sidecar goes on forever.\<close>

theorem deployment_returns:
  assumes "1000 < fuel"
  shows "zisk_up fuel srv ord zfs dial ping show resolve name gctx c zcfg fl \<noteq> None
    \<and> openvm_up fuel srv ord sha256 toml ofs dial ping show resolve gctx c ocfg fl \<noteq> None
    \<and> zisk_down srv dial ping show korder c zcfg fl \<noteq> None
    \<and> openvm_down srv dial ping show korder c ocfg fl \<noteq> None"
  using endsD [OF ends_zisk_deploy [OF assms]] endsD [OF ends_openvm_deploy [OF assms]]
    endsD [OF ends_zisk_teardown] endsD [OF ends_openvm_teardown]
  by (auto simp: zisk_up_def openvm_up_def zisk_down_def openvm_down_def io_fail_def split: sum.split prod.split)

text \<open>A daemon on which every container restarts forever and no command exits: the waits give up.\<close>

definition wedged :: "docker_request \<Rightarrow> docker_reply" where
  "wedged q = (healthy [] q)\<lparr>dk_running := True\<rparr>"

theorem deployment_returns_witness:
  "zisk_up 1001 (steady wedged) id \<lparr>setup_script = [], program_setup_script = [], zisk_dcgm_fields = []\<rparr>
      (\<lambda>d. Inr d) (\<lambda>_. None) (\<lambda>_. []) (\<lambda>_. Inr []) id (\<lambda>_. None) None zisk_quiet_sample
      (\<lambda>h. \<lparr>clock = 0, sent = [], phases = [], env = ()\<rparr>) \<noteq> None"
proof -
  have "(1000 :: nat) < 1001" by simp
  from deployment_returns [OF this] show ?thesis by blast
qed

section \<open>A deployment on hosts that answer\<close>



end
