(* ===== verification/Deploy_Down.thy ===== *)
theory Deploy_Down
  imports Deploy_Ends
begin

text \<open>
  What \<open>Down\<close> does: every worker is asked to stop before the coordinator is, a failure on one host
  keeps nothing from being tried on another, and an end without an error means that every container is
  gone.
\<close>

section \<open>One container\<close>

text \<open>The daemon did not know the container, or it was stopped and removed.\<close>

definition gone :: "'w docker \<Rightarrow> string \<Rightarrow> 'w host_machine \<Rightarrow> 'w host_machine \<Rightarrow> bool" where
  "gone srv name m m' \<longleftrightarrow>
     (\<exists>r. dk_error r = Some Not_found \<and> saw srv [(Docker_stop name, r)] m m')
     \<or> (\<exists>r rm. dk_error r = None \<and> dk_error rm = None
          \<and> saw srv [(Docker_stop name, r), (Docker_remove_stopped name, rm)] m m')"

lemma gone_within: "grows (\<lambda>_. True) m m1 \<Longrightarrow> gone srv name m1 m2 \<Longrightarrow> grows (\<lambda>_. True) m2 m' \<Longrightarrow> gone srv name m m'"
  unfolding gone_def by (blast intro: saw_before saw_after)

definition asked_to_stop :: "'w docker \<Rightarrow> string \<Rightarrow> 'w host_machine \<Rightarrow> 'w host_machine \<Rightarrow> bool" where
  "asked_to_stop srv name m m' \<longleftrightarrow> (\<exists>r. saw srv [(Docker_stop name, r)] m m')"

lemma asked_within: "grows (\<lambda>_. True) m m1 \<Longrightarrow> asked_to_stop srv name m1 m2 \<Longrightarrow> grows (\<lambda>_. True) m2 m' \<Longrightarrow>
    asked_to_stop srv name m m'"
  unfolding asked_to_stop_def by (blast intro: saw_before saw_after)

lemma stopAndRemove_stops:
  assumes "stopAndRemove srv c name node m = Some (r, m')"
  shows "asked_to_stop srv name m m' \<and> (r = Inr () \<longrightarrow> gone srv name m m')"
proof -
  let ?w = "Wrapped (''removing '' @ name @ '' on '' @ node)"
  let ?remove = "io_bind (must srv c (Docker_remove_stopped name)) (\<lambda>_. io_return ())"
  obtain s m1 where s: "call srv c (Docker_stop name) m = (s, m1)" by force
  have rest: "(case dk_error s of
       Some Not_found \<Rightarrow> io_return ()
     | Some e \<Rightarrow> io_fail (Wrapped (''stopping '' @ name @ '' on '' @ node) (Raw e))
     | None \<Rightarrow> io_wrap ?w ?remove) m1 = Some (r, m')"
    using assms unfolding stopAndRemove_def io_ask_bind [OF s] .
  have remove: "grows (\<lambda>_. True) m1 m'" if "io_wrap ?w ?remove m1 = Some (r, m')"
    using that by (rule io_monoD [rotated]) (intro io_grows)
  have "grows (\<lambda>_. True) m1 m'"
    using rest remove by (auto split: option.splits docker_error.splits)
  then have "asked_to_stop srv name m m'"
    unfolding asked_to_stop_def using saw_after [OF saw_call [OF s]] by blast
  moreover have "gone srv name m m'" if r: "r = Inr ()"
  proof (cases "dk_error s")
    case None
    with rest r obtain rm where "call srv c (Docker_remove_stopped name) m1 = (rm, m')" "dk_error rm = None"
      by (auto simp: io_bind_Inr)
    moreover from this(1) have "saw srv ([(Docker_stop name, s)] @ [(Docker_remove_stopped name, rm)]) m m'"
      by (intro saw_append [OF saw_call [OF s] saw_call])
    then have "saw srv [(Docker_stop name, s), (Docker_remove_stopped name, rm)] m m'" by (simp only: append.simps)
    ultimately show ?thesis unfolding gone_def using None by blast
  next
    case (Some e)
    with rest r have "e = Not_found" "m' = m1" by (cases e; simp)+
    with Some saw_call [OF s] show ?thesis unfolding gone_def by blast
  qed
  ultimately show ?thesis by blast
qed

lemma run_all_stops:
  assumes "run_all ts fl = Some (Inr es, fl')" "tasks_mono ts" "(h, stopAndRemove srv c name node) \<in> set ts"
  shows "asked_to_stop srv name (fl h) (fl' h) \<and> (es = [] \<longrightarrow> gone srv name (fl h) (fl' h))"
proof -
  from run_all_each [OF assms(2,1,3)] obtain m1 r m2 where
    t: "grows (\<lambda>_. True) (fl h) m1" "stopAndRemove srv c name node m1 = Some (r, m2)" "grows (\<lambda>_. True) m2 (fl' h)"
    and e: "\<forall>e. r = Inl e \<longrightarrow> e \<in> set es" by blast
  have "r = Inr ()" if "es = []" using e that by (cases r) auto
  with stopAndRemove_stops [OF t(2)] asked_within [OF t(1) _ t(3)] gone_within [OF t(1) _ t(3)] show ?thesis by blast
qed

lemma run_all_total: "(\<forall>t \<in> snd ` set ts. ends t) \<Longrightarrow> \<exists>es fl'. run_all ts fl = Some (Inr es, fl')"
proof -
  assume "\<forall>t \<in> snd ` set ts. ends t"
  from run_tasks_ends [OF this, of fl] obtain rs where "fst (run_tasks ts fl) = Some rs" by blast
  then obtain fl1 where "run_tasks ts fl = (Some rs, fl1)" by (metis prod.collapse)
  then show ?thesis by (simp add: run_all_def)
qed

text \<open>The sidecars keep nothing from going on.\<close>

lemma stopSidecars_total: "\<exists>fl'. stopSidecars srv c korder ds fl = Some (Inr (), fl')"
proof -
  have "\<exists>fl'. io_each (\<lambda>(d, kind). io_bind (io_try (on_host d (stopSidecar srv c kind (hostName d)))) (\<lambda>_. io_return ())) xs fl
      = Some (Inr (), fl')" for xs
  proof (induction xs arbitrary: fl)
    case (Cons x xs)
    obtain d kind where x: "x = (d, kind)" by force
    obtain y f1 where "on_host d (stopSidecar srv c kind (hostName d)) fl = Some (y, f1)"
      using endsD [OF ends_on_host [OF ends_stopSidecar], of d srv c kind "hostName d" fl] by auto
    with Cons.IH [of f1] x show ?case by (simp add: io_bind_def io_try_def io_return_def)
  qed (simp add: io_return_def)
  then show ?thesis unfolding stopSidecars_def by blast
qed

section \<open>ZisK\<close>

text \<open>C21: once the hosts are dialed, \<open>Down\<close> of a ZisK cluster asks every worker to stop and then
  the coordinator, whatever fails on the way; where it ends without an error each of them was gone or
  was stopped and removed.\<close>

theorem zisk_down_covers:
  assumes "dialHosts dial ping (zisk_destinations cfg) = Inr hosts"
    and "zisk_down srv dial ping show korder c cfg fl = Some (r, fl')"
  shows "\<exists>fl1 fl2. fleet_grows fl fl1 \<and> fleet_grows fl1 fl2 \<and> fleet_grows fl2 fl'
    \<and> (\<forall>w \<in> set (zc_workers cfg). let h = node_ssh (zw_node w) in
         asked_to_stop srv zisk_workerContainer (fl1 h) (fl2 h)
         \<and> (r = Inr () \<longrightarrow> gone srv zisk_workerContainer (fl1 h) (fl2 h)))
    \<and> (let hc = node_ssh (coordinator (zc_cluster cfg)) in
         asked_to_stop srv zisk_coordinatorContainer (fl2 hc) (fl' hc)
         \<and> (r = Inr () \<longrightarrow> gone srv zisk_coordinatorContainer (fl2 hc) (fl' hc)))"
proof -
  let ?stop = "\<lambda>w node. stopAndRemove srv c zisk_workerContainer node"
  let ?hc = "node_ssh (coordinator (zc_cluster cfg))"
  let ?last = "[(?hc, stopAndRemove srv c zisk_coordinatorContainer CoordinatorName)]"
  have down: "zisk_teardown srv c korder cfg (hostDestinations hosts) fl = Some (r, fl')"
    using assms by (simp add: zisk_down_def)
  obtain fl1 where 1: "stopSidecars srv c korder (hostDestinations hosts) fl = Some (Inr (), fl1)"
    using stopSidecars_total by blast
  have mono: "tasks_mono (zisk_each cfg ?stop)" "tasks_mono ?last"
    by (simp_all add: io_mono_stopAndRemove)
  have "\<forall>t \<in> snd ` set (zisk_each cfg ?stop). ends t" by (intro ends_zisk_each ends_stopAndRemove)
  from run_all_total [OF this] obtain es fl2 where 2: "run_all (zisk_each cfg ?stop) fl1 = Some (Inr es, fl2)" by blast
  obtain es' fl3 where 3: "run_all ?last fl2 = Some (Inr es', fl3)"
    using run_all_total [of ?last fl2] by (auto simp: ends_stopAndRemove)
  have r: "fl3 = fl' \<and> (r = Inr () \<longrightarrow> es = [] \<and> es' = [])"
    using down 1 2 3 by (auto simp: zisk_teardown_def io_bind_def io_return_def io_fail_def split: if_splits)
  have worker: "asked_to_stop srv zisk_workerContainer (fl1 h) (fl2 h) \<and> (es = [] \<longrightarrow> gone srv zisk_workerContainer (fl1 h) (fl2 h))"
    if w: "w \<in> set (zc_workers cfg)" and h: "h = node_ssh (zw_node w)" for w h
  proof -
    from zisk_each_member [OF w, of ?stop] obtain node where
      "(h, stopAndRemove srv c zisk_workerContainer node) \<in> set (zisk_each cfg ?stop)" unfolding h by blast
    from run_all_stops [OF 2 mono(1) this] show ?thesis .
  qed
  have coord: "asked_to_stop srv zisk_coordinatorContainer (fl2 ?hc) (fl3 ?hc)
      \<and> (es' = [] \<longrightarrow> gone srv zisk_coordinatorContainer (fl2 ?hc) (fl3 ?hc))"
    by (rule run_all_stops [OF 3 mono(2), of ?hc]) simp
  have "fleet_grows fl fl1" "fleet_grows fl1 fl2" "fleet_grows fl2 fl3"
    using fleet_monoD [OF fleet_mono_stopSidecars 1] run_all_grows [OF mono(1) 2] run_all_grows [OF mono(2) 3] .
  with r worker coord show ?thesis unfolding Let_def by blast
qed

theorem zisk_down_covers_witness:
  "\<exists>r fl' fl1 fl2. zisk_down (steady (healthy [])) (\<lambda>d. Inr d) (\<lambda>_. None) (\<lambda>_. []) (\<lambda>_. []) None zisk_sample
      (\<lambda>h. \<lparr>clock = 0, sent = [], phases = [], env = ()\<rparr>) = Some (r, fl')
    \<and> asked_to_stop (steady (healthy [])) zisk_workerContainer (fl1 ''b'') (fl2 ''b'')"
proof -
  let ?fl = "\<lambda>h. \<lparr>clock = 0, sent = [], phases = [], env = ()\<rparr>"
  obtain hosts where hosts: "dialHosts (\<lambda>d. Inr d) (\<lambda>_. None :: string option) (zisk_destinations zisk_sample) = Inr hosts"
    by (auto simp: dialHosts_def zisk_destinations_def zisk_sample_def no_hosts_def)
  obtain r fl' where down: "zisk_down (steady (healthy [])) (\<lambda>d. Inr d) (\<lambda>_. None) (\<lambda>_. []) (\<lambda>_. []) None zisk_sample ?fl
      = Some (r, fl')"
    using endsD [OF ends_zisk_teardown, of "steady (healthy [])" None "\<lambda>_. []" zisk_sample "hostDestinations hosts" ?fl] hosts
    by (auto simp: zisk_down_def)
  from zisk_down_covers [OF hosts down] obtain fl1 fl2 where
    w: "\<forall>w \<in> set (zc_workers zisk_sample). let h = node_ssh (zw_node w) in
         asked_to_stop (steady (healthy [])) zisk_workerContainer (fl1 h) (fl2 h)
         \<and> (r = Inr () \<longrightarrow> gone (steady (healthy [])) zisk_workerContainer (fl1 h) (fl2 h))" by blast
  have "zc_workers zisk_sample ! 1 \<in> set (zc_workers zisk_sample)" "node_ssh (zw_node (zc_workers zisk_sample ! 1)) = ''b''"
    by (simp_all add: zisk_sample_def)
  with w have "asked_to_stop (steady (healthy [])) zisk_workerContainer (fl1 ''b'') (fl2 ''b'')"
    unfolding Let_def by metis
  with down show ?thesis unfolding Let_def by blast
qed

section \<open>OpenVM\<close>

text \<open>The listing of a host and, where nothing failed, the end of every worker container it names.\<close>

definition workers_stopped :: "'w docker \<Rightarrow> 'w host_machine \<Rightarrow> 'w host_machine \<Rightarrow> bool" where
  "workers_stopped srv m m' \<longleftrightarrow>
     (\<exists>r. dk_error r = None \<and> saw srv [(Docker_list workerContainerPrefix, r)] m m'
        \<and> (\<forall>names name. names \<in> set (dk_names r) \<longrightarrow> find is_worker_container names = Some name \<longrightarrow>
             gone srv (trim_prefix ''/'' name) m m'))"

lemma workers_stopped_within:
  "grows (\<lambda>_. True) m m1 \<Longrightarrow> workers_stopped srv m1 m2 \<Longrightarrow> grows (\<lambda>_. True) m2 m' \<Longrightarrow> workers_stopped srv m m'"
  unfolding workers_stopped_def by (blast intro: saw_before saw_after gone_within)

lemma io_mono_stop_named [io_grows]:
  "io_mono (case find is_worker_container names of
       None \<Rightarrow> io_return () | Some name \<Rightarrow> stopAndRemove srv c (trim_prefix ''/'' name) node)"
  by (intro io_mono_option io_mono_return io_mono_stopAndRemove)

lemma io_mono_stopWorkers [io_grows]: "io_mono (stopWorkers srv c node)"
  unfolding stopWorkers_def by (intro io_mono_bind io_mono_wrap io_mono_must io_mono_each io_mono_stop_named)

lemma stopWorkers_Inr:
  assumes "stopWorkers srv c node m = Some (Inr (), m')"
  shows "workers_stopped srv m m'"
proof -
  let ?stop = "\<lambda>names. case find is_worker_container names of
       None \<Rightarrow> io_return () | Some name \<Rightarrow> stopAndRemove srv c (trim_prefix ''/'' name) node"
  from assms obtain r m1 where 1: "must srv c (Docker_list workerContainerPrefix) m = Some (Inr r, m1)" and
    2: "io_each ?stop (dk_names r) m1 = Some (Inr (), m')"
    unfolding stopWorkers_def io_bind_Inr io_wrap_Inr by blast
  from 1 have r: "call srv c (Docker_list workerContainerPrefix) m = (r, m1)" "dk_error r = None" by simp_all
  have g: "grows (\<lambda>_. True) m m1" by (rule io_monoD [OF io_mono_must 1])
  have g2: "grows (\<lambda>_. True) m1 m'" by (rule io_monoD [OF io_mono_each [OF io_mono_stop_named] 2])
  have "gone srv (trim_prefix ''/'' name) m m'"
    if "names \<in> set (dk_names r)" "find is_worker_container names = Some name" for names name
  proof -
    from io_each_all [OF 2 io_mono_stop_named that(1)] obtain m2 m3 where
      3: "grows (\<lambda>_. True) m1 m2" "?stop names m2 = Some (Inr (), m3)" "grows (\<lambda>_. True) m3 m'" by blast
    from 3(2) have "stopAndRemove srv c (trim_prefix ''/'' name) node m2 = Some (Inr (), m3)"
      unfolding that(2) by simp
    from stopAndRemove_stops [OF this] have "gone srv (trim_prefix ''/'' name) m2 m3" by blast
    from gone_within [OF grows_trans [OF g 3(1)] this 3(3)] show ?thesis .
  qed
  with r(2) saw_after [OF saw_call [OF r(1)] g2] show ?thesis unfolding workers_stopped_def by blast
qed

text \<open>The daemon reports a name with a leading slash; the container of every GPU matches the pattern.\<close>

lemma worker_container_matches:
  "0 \<le> g \<Longrightarrow> is_worker_container (CHR ''/'' # openvm_workerContainer g)"
  by (simp add: is_worker_container_def openvm_workerContainer_def trim_prefix_def has_prefix_def itoa_def nat_str_digits list_all_iff)

text \<open>Once the hosts are dialed, \<open>Down\<close> of an OpenVM cluster asks the coordinator to stop
  whatever failed on the worker hosts before; where it ends without an error, the coordinator was gone
  or was stopped and removed, and on every worker host each container the daemon listed under a
  worker's name was.\<close>

theorem openvm_down_covers:
  assumes "dialHosts dial ping (openvm_destinations cfg) = Inr hosts"
    and "openvm_down srv dial ping show korder c cfg fl = Some (r, fl')"
  shows "\<exists>fl1 fl2. fleet_grows fl fl1 \<and> fleet_grows fl1 fl2 \<and> fleet_grows fl2 fl'
    \<and> (r = Inr () \<longrightarrow> (\<forall>w \<in> set (oc_workers cfg). workers_stopped srv (fl1 (node_ssh (ow_node w))) (fl2 (node_ssh (ow_node w)))))
    \<and> (let hc = node_ssh (coordinator (oc_cluster cfg)) in
         asked_to_stop srv openvm_coordinatorContainer (fl2 hc) (fl' hc)
         \<and> (r = Inr () \<longrightarrow> gone srv openvm_coordinatorContainer (fl2 hc) (fl' hc)))"
proof -
  let ?hc = "node_ssh (coordinator (oc_cluster cfg))"
  let ?ts = "map (\<lambda>g. (hw_ssh g, stopWorkers srv c (hostName (hw_ssh g)))) (workerHosts cfg)"
  let ?last = "[(?hc, stopAndRemove srv c openvm_coordinatorContainer CoordinatorName)]"
  have down: "openvm_teardown srv c korder cfg (hostDestinations hosts) fl = Some (r, fl')"
    using assms by (simp add: openvm_down_def)
  obtain fl1 where 1: "stopSidecars srv c korder (hostDestinations hosts) fl = Some (Inr (), fl1)"
    using stopSidecars_total by blast
  have mono: "tasks_mono ?ts" "tasks_mono ?last"
    by (simp_all add: io_mono_stopAndRemove io_mono_stopWorkers)
  have "\<forall>t \<in> snd ` set ?ts. ends t" by (auto intro: ends_stopWorkers)
  from run_all_total [OF this] obtain es fl2 where 2: "run_all ?ts fl1 = Some (Inr es, fl2)" by blast
  obtain es' fl3 where 3: "run_all ?last fl2 = Some (Inr es', fl3)"
    using run_all_total [of ?last fl2] by (auto simp: ends_stopAndRemove)
  have r: "fl3 = fl' \<and> (r = Inr () \<longrightarrow> es = [] \<and> es' = [])"
    using down 1 2 3 by (auto simp: openvm_teardown_def io_bind_def io_return_def io_fail_def split: if_splits)
  have worker: "workers_stopped srv (fl1 h) (fl2 h)"
    if es: "es = []" and w: "w \<in> set (oc_workers cfg)" and h: "h = node_ssh (ow_node w)" for w h
  proof -
    from workerHosts_member [OF w] obtain g where "g \<in> set (workerHosts cfg)" "hw_ssh g = h" unfolding h by blast
    then have "(h, stopWorkers srv c (hostName h)) \<in> set ?ts" by auto
    from run_all_each [OF mono(1) 2 this] obtain m1 x m2 where
      t: "grows (\<lambda>_. True) (fl1 h) m1" "stopWorkers srv c (hostName h) m1 = Some (x, m2)" "grows (\<lambda>_. True) m2 (fl2 h)"
      and e: "\<forall>e. x = Inl e \<longrightarrow> e \<in> set es" by blast
    have "x = Inr ()" using e es by (cases x) auto
    with t(2) stopWorkers_Inr have "workers_stopped srv m1 m2" by blast
    from workers_stopped_within [OF t(1) this t(3)] show ?thesis .
  qed
  have coord: "asked_to_stop srv openvm_coordinatorContainer (fl2 ?hc) (fl3 ?hc)
      \<and> (es' = [] \<longrightarrow> gone srv openvm_coordinatorContainer (fl2 ?hc) (fl3 ?hc))"
    by (rule run_all_stops [OF 3 mono(2), of ?hc]) simp
  have "fleet_grows fl fl1" "fleet_grows fl1 fl2" "fleet_grows fl2 fl3"
    using fleet_monoD [OF fleet_mono_stopSidecars 1] run_all_grows [OF mono(1) 2] run_all_grows [OF mono(2) 3] .
  with r worker coord show ?thesis unfolding Let_def by blast
qed

theorem openvm_down_covers_witness:
  "\<exists>r fl' fl1 fl2. openvm_down (steady (healthy [])) (\<lambda>d. Inr d) (\<lambda>_. None) (\<lambda>_. []) (\<lambda>_. []) None openvm_sample
      (\<lambda>h. \<lparr>clock = 0, sent = [], phases = [], env = ()\<rparr>) = Some (r, fl')
    \<and> asked_to_stop (steady (healthy [])) openvm_coordinatorContainer (fl1 ''a'') (fl2 ''a'')"
proof -
  let ?fl = "\<lambda>h. \<lparr>clock = 0, sent = [], phases = [], env = ()\<rparr>"
  obtain hosts where hosts: "dialHosts (\<lambda>d. Inr d) (\<lambda>_. None :: string option) (openvm_destinations openvm_sample) = Inr hosts"
    by (auto simp: dialHosts_def openvm_destinations_def openvm_sample_def no_hosts_def)
  obtain r fl' where down: "openvm_down (steady (healthy [])) (\<lambda>d. Inr d) (\<lambda>_. None) (\<lambda>_. []) (\<lambda>_. []) None openvm_sample ?fl
      = Some (r, fl')"
    using endsD [OF ends_openvm_teardown, of "steady (healthy [])" None "\<lambda>_. []" openvm_sample "hostDestinations hosts" ?fl] hosts
    by (auto simp: openvm_down_def)
  have "node_ssh (coordinator (oc_cluster openvm_sample)) = ''a''" by (simp add: openvm_sample_def)
  with openvm_down_covers [OF hosts down] down show ?thesis unfolding Let_def by auto
qed

end
