(* ===== verification/Lifecycle.thy ===== *)
theory Lifecycle
  imports Commands Deploy_Down
begin

text \<open>
  \<open>provoor up\<close>, \<open>provoor down\<close> and \<open>provoor logs dump\<close> of \<open>cmd/provoor/main.go\<close>:
  a configuration file is loaded, and the deployment of its zkVM runs on the hosts it names.
\<close>

section \<open>The commands\<close>

definition clusterCommand ::
  "(string \<Rightarrow> load_error + loaded) \<Rightarrow> (loaded \<Rightarrow> ('w, unit) fleet_io) \<Rightarrow> string
    \<Rightarrow> 'w fleet \<Rightarrow> (((load_error + deploy_error) + unit) \<times> 'w fleet) option" where
  "clusterCommand load run path fl =
     (case load path of
        Inl e \<Rightarrow> Some (Inl (Inl e), fl)
      | Inr b \<Rightarrow> map_option (\<lambda>(r, fl'). (rmap_err Inr r, fl')) (run b fl))"

text \<open>\<open>Up\<close> and \<open>Down\<close> of the interface \<open>backend\<close>.\<close>

definition backend_up ::
  "nat \<Rightarrow> 'w docker \<Rightarrow> file_order \<Rightarrow> zisk_files \<Rightarrow> openvm_files \<Rightarrow> (bytes \<Rightarrow> bytes) \<Rightarrow> (toml_doc \<Rightarrow> string)
    \<Rightarrow> (string \<Rightarrow> string + 'cli) \<Rightarrow> ('cli \<Rightarrow> string option) \<Rightarrow> (string dial_error \<Rightarrow> string)
    \<Rightarrow> (string \<Rightarrow> deploy_error + bytes) \<Rightarrow> (string \<Rightarrow> string) \<Rightarrow> (nat \<Rightarrow> ctx) \<Rightarrow> ctx \<Rightarrow> loaded \<Rightarrow> ('w, unit) fleet_io" where
  "backend_up fuel srv ford zfs ofs sha256 toml dial ping show resolve name gctx c b =
     (case b of
        Zisk_backend cfg \<Rightarrow> zisk_up fuel srv ford zfs dial ping show resolve name gctx c cfg
      | Openvm_backend cfg \<Rightarrow> openvm_up fuel srv ford sha256 toml ofs dial ping show resolve gctx c cfg)"

definition backend_down ::
  "'w docker \<Rightarrow> (string \<Rightarrow> string + 'cli) \<Rightarrow> ('cli \<Rightarrow> string option) \<Rightarrow> (string dial_error \<Rightarrow> string)
    \<Rightarrow> (string \<Rightarrow> string list) \<Rightarrow> ctx \<Rightarrow> loaded \<Rightarrow> ('w, unit) fleet_io" where
  "backend_down srv dial ping show korder c b =
     (case b of
        Zisk_backend cfg \<Rightarrow> zisk_down srv dial ping show korder c cfg
      | Openvm_backend cfg \<Rightarrow> openvm_down srv dial ping show korder c cfg)"

text \<open>The journals are read for the window of the run; \<open>runs\<close> is how each container's command went.\<close>

definition logsDumpCommand ::
  "(string \<Rightarrow> load_error + loaded) \<Rightarrow> journal_error + run_times \<Rightarrow> int \<Rightarrow> bool \<Rightarrow> (string \<Rightarrow> journal_entry option)
    \<Rightarrow> (int \<Rightarrow> int \<Rightarrow> deployed \<Rightarrow> journal_run) \<Rightarrow> string
    \<Rightarrow> (load_error + journal_error) + (journal_error list \<times> (string \<times> string list option) list)" where
  "logsDumpCommand load parsed now late decode runs path =
     rbind (rmap_err Inl (load path)) (\<lambda>b.
     rbind (rmap_err Inr (runWindow parsed now)) (\<lambda>(since, until).
       Inr (dumpJournals late decode (runs since until) (backend_containers b))))"

section \<open>What a cluster that is up has shown\<close>

fun ready_ports :: "loaded \<Rightarrow> int list" where
  "ready_ports (Zisk_backend cfg) = zisk_ports"
| "ready_ports (Openvm_backend cfg) = [openvm_apiPort]"

fun ready_line :: "loaded \<Rightarrow> string" where
  "ready_line (Zisk_backend cfg) = registrationLine"
| "ready_line (Openvm_backend cfg) = workerReadyLine"

lemma sidecars_are_sidecars: "filter (\<lambda>d. \<not> d_sidecar d) (sidecars_deployed t) = []"
  by (auto simp: sidecars_deployed_def filter_empty_conv)

lemma zisk_members:
  "filter (\<lambda>d. \<not> d_sidecar d) (zisk_containers cfg) =
     \<lparr>d_ssh = node_ssh (coordinator (zc_cluster cfg)), d_name = zisk_coordinatorContainer,
      d_label = CoordinatorName, d_sidecar = False\<rparr>
     # map (\<lambda>(i, w). \<lparr>d_ssh = node_ssh (zw_node w), d_name = zisk_workerContainer,
              d_label = workerName i (zw_gpu w), d_sidecar = False\<rparr>) (indexed (zc_workers cfg))"
  by (simp add: zisk_containers_def sidecars_are_sidecars filter_map comp_def case_prod_unfold)

lemma openvm_members:
  "filter (\<lambda>d. \<not> d_sidecar d) (openvm_containers cfg) =
     \<lparr>d_ssh = node_ssh (coordinator (oc_cluster cfg)), d_name = openvm_coordinatorContainer,
      d_label = CoordinatorName, d_sidecar = False\<rparr>
     # map (\<lambda>(i, w). \<lparr>d_ssh = node_ssh (ow_node w), d_name = openvm_workerContainer (deviceID w),
              d_label = openvm_workerName i w, d_sidecar = False\<rparr>) (indexed (oc_workers cfg))"
  by (simp add: openvm_containers_def sidecars_are_sidecars filter_map comp_def case_prod_unfold)

lemma indexed_member: "(i, x) \<in> set (indexed xs) \<Longrightarrow> x \<in> set xs"
  by (auto simp: set_indexed)

definition members_ready :: "'w docker \<Rightarrow> loaded \<Rightarrow> 'w fleet \<Rightarrow> 'w fleet \<Rightarrow> bool" where
  "members_ready srv b fl fl' \<longleftrightarrow>
     (\<exists>coord ws. filter (\<lambda>d. \<not> d_sidecar d) (backend_containers b) = coord # ws \<and> d_label coord = CoordinatorName
        \<and> probed srv (d_name coord) (listening_probe (ready_ports b)) (fl (d_ssh coord)) (fl' (d_ssh coord))
        \<and> (\<forall>d \<in> set ws. logged srv (d_name d) (ready_line b) (fl (d_ssh d)) (fl' (d_ssh d))))"

lemma zisk_members_ready:
  assumes "zisk_up fuel srv ford zfs dial ping show resolve name gctx c cfg fl = Some (Inr (), fl')"
  shows "members_ready srv (Zisk_backend cfg) fl fl'"
proof -
  from zisk_up_Inr [OF assms] obtain fl1 fl2 fl3 where
    g: "fleet_grows fl fl1" "fleet_grows fl1 fl2" "fleet_grows fl2 fl3" "fleet_grows fl3 fl'" and
    p: "probed srv zisk_coordinatorContainer (listening_probe zisk_ports)
         (fl2 (node_ssh (coordinator (zc_cluster cfg)))) (fl3 (node_ssh (coordinator (zc_cluster cfg))))" and
    w: "\<forall>w \<in> set (zc_workers cfg). logged srv zisk_workerContainer registrationLine
         (fl3 (node_ssh (zw_node w))) (fl' (node_ssh (zw_node w)))"
    by (auto simp: Let_def)
  note before = fleet_growsD [OF fleet_grows_trans [OF g(1) g(2)]]
    fleet_growsD [OF fleet_grows_trans [OF fleet_grows_trans [OF g(1) g(2)] g(3)]]
  have "logged srv zisk_workerContainer registrationLine (fl (node_ssh (zw_node w))) (fl' (node_ssh (zw_node w)))"
    if "(i, w) \<in> set (indexed (zc_workers cfg))" for i w
    using logged_within [OF before(2) w [rule_format, OF indexed_member [OF that]]] by simp
  then show ?thesis
    unfolding members_ready_def backend_containers.simps zisk_members
    using probed_within [OF before(1) p fleet_growsD [OF g(4)]] by auto
qed

lemma openvm_members_ready:
  assumes "openvm_up fuel srv ford sha256 toml ofs dial ping show resolve gctx c cfg fl = Some (Inr (), fl')"
  shows "members_ready srv (Openvm_backend cfg) fl fl'"
proof -
  from openvm_up_Inr [OF assms] obtain fl1 fl2 where
    g: "fleet_grows fl fl1" "fleet_grows fl1 fl2" "fleet_grows fl2 fl'" and
    p: "probed srv openvm_coordinatorContainer (listening_probe [openvm_apiPort])
         (fl1 (node_ssh (coordinator (oc_cluster cfg)))) (fl2 (node_ssh (coordinator (oc_cluster cfg))))" and
    w: "\<forall>w \<in> set (oc_workers cfg). logged srv (openvm_workerContainer (deviceID w)) workerReadyLine
         (fl2 (node_ssh (ow_node w))) (fl' (node_ssh (ow_node w)))"
    by (auto simp: Let_def)
  note before = fleet_growsD [OF g(1)] fleet_growsD [OF fleet_grows_trans [OF g(1) g(2)]]
  have "logged srv (openvm_workerContainer (deviceID w)) workerReadyLine (fl (node_ssh (ow_node w))) (fl' (node_ssh (ow_node w)))"
    if "(i, w) \<in> set (indexed (oc_workers cfg))" for i w
    using logged_within [OF before(2) w [rule_format, OF indexed_member [OF that]]] by simp
  then show ?thesis
    unfolding members_ready_def backend_containers.simps openvm_members
    using probed_within [OF before(1) p fleet_growsD [OF g(3)]] by auto
qed

section \<open>A configuration that loads\<close>

definition quiet_load :: "string \<Rightarrow> load_error + loaded" where
  "quiet_load = loadBackend rev (\<lambda>_. Inr []) (\<lambda>_. Inr ''zisk'') (\<lambda>_. Inr zisk_quiet_sample) (\<lambda>_. Inl [])"

lemma quiet_loads: "quiet_load ''c.yaml'' = Inr (Zisk_backend (zisk_setDefaults zisk_quiet_sample))"
  by code_simp

end
