(* ===== verification/Log_Stream.thy ===== *)
theory Log_Stream
  imports Inspect Output
begin

text \<open>
  \<open>StreamLogs\<close> and \<open>streamLog\<close> of \<open>internal/cluster/inspect.go\<close>: the logs of the
  listed containers, read at once and printed line by line, each behind the lead of its container.
  What the daemons send and when is a schedule of events. A write of several lines gives up the lock
  between them; as a chunk may be cut anywhere, the schedules that split it there cover that.
\<close>

section \<open>The streams\<close>

datatype log_event =
    Log_chunk string
  | Log_end

text \<open>A step of one container's copy, with the lines it prints.\<close>

fun relay_step :: "log_event \<Rightarrow> prefix_writer \<Rightarrow> prefix_writer \<times> progress" where
  "relay_step (Log_chunk data) p = pw_write p \<lparr>printed = []\<rparr> data"
| "relay_step Log_end p = pw_flush p \<lparr>printed = []\<rparr>"

text \<open>The writers of the containers, and the lines on the terminal with the container of each.\<close>

type_synonym log_state = "(nat \<Rightarrow> prefix_writer) \<times> (nat \<times> string) list"

definition log_step :: "nat \<times> log_event \<Rightarrow> log_state \<Rightarrow> log_state" where
  "log_step ie st =
     (let (p, o1) = relay_step (snd ie) (fst st (fst ie))
      in ((fst st)(fst ie := p), snd st @ map (Pair (fst ie)) (printed o1)))"

definition streamLogs :: "bool \<Rightarrow> listed list \<Rightarrow> (nat \<times> log_event) list \<Rightarrow> (nat \<times> string) list" where
  "streamLogs colored ls schedule =
     snd (fold log_step schedule (\<lambda>i. leading (if i < length ls then log_leads colored ls ! i else []), []))"

text \<open>The errors: that of opening a stream, or of copying it; the first of the group is returned,
  and none where the command's context has ended.\<close>

definition log_error :: "listed \<Rightarrow> string \<Rightarrow> string" where
  "log_error l e = ''reading the log of '' @ l_name l @ '' on '' @ listNode l @ '': '' @ e"

definition streamLog :: "listed \<Rightarrow> string + string option \<Rightarrow> string option" where
  "streamLog l outcome =
     (case outcome of
        Inl e \<Rightarrow> Some (log_error l e)
      | Inr None \<Rightarrow> None
      | Inr (Some e) \<Rightarrow> Some (log_error l e))"

definition streamLogs_error :: "bool \<Rightarrow> string option list \<Rightarrow> string option" where
  "streamLogs_error ended outcomes =
     (if ended then None else (case List.map_filter id outcomes of [] \<Rightarrow> None | e # _ \<Rightarrow> Some e))"

section \<open>One container's lines\<close>

fun relay_run :: "log_event list \<Rightarrow> prefix_writer \<Rightarrow> prefix_writer \<times> string list" where
  "relay_run [] p = (p, [])"
| "relay_run (e # es) p =
     (case relay_step e p of (p1, o1) \<Rightarrow> (case relay_run es p1 of (p2, lines) \<Rightarrow> (p2, printed o1 @ lines)))"

text \<open>What one container prints does not depend on the events of the others.\<close>

definition events_of :: "nat \<Rightarrow> (nat \<times> 'e) list \<Rightarrow> 'e list" where
  "events_of i xs = map snd (filter (\<lambda>x. fst x = i) xs)"

lemma events_of_simps [simp]:
  "events_of i [] = []" "events_of i ((j, e) # xs) = (if j = i then e # events_of i xs else events_of i xs)"
  "events_of i (xs @ ys) = events_of i xs @ events_of i ys"
  "events_of i (map (Pair j) es) = (if j = i then es else [])"
  by (simp_all add: events_of_def filter_map comp_def)

lemma fold_log_step:
  "fst (fold log_step schedule st) i = fst (relay_run (events_of i schedule) (fst st i))
   \<and> events_of i (snd (fold log_step schedule st)) = events_of i (snd st) @ snd (relay_run (events_of i schedule) (fst st i))"
proof (induction schedule arbitrary: st)
  case (Cons x schedule)
  obtain j e where x: "x = (j, e)" by force
  then show ?case using Cons.IH [of "log_step x st"] by (auto simp: log_step_def split: prod.splits)
qed simp

lemma pw_write_printed: "pw_write p \<lparr>printed = xs\<rparr> d = (fst (pw_write p \<lparr>printed = []\<rparr> d),
    \<lparr>printed = xs @ printed (snd (pw_write p \<lparr>printed = []\<rparr> d))\<rparr>)"
  by (simp add: pw_write_def drain_spec)

lemma relay_run_chunks:
  "relay_run (map Log_chunk cs) p = (fst (pw_write_all p \<lparr>printed = []\<rparr> cs), printed (snd (pw_write_all p \<lparr>printed = []\<rparr> cs)))
   \<and> pw_write_all p \<lparr>printed = xs\<rparr> cs = (fst (pw_write_all p \<lparr>printed = []\<rparr> cs),
        \<lparr>printed = xs @ printed (snd (pw_write_all p \<lparr>printed = []\<rparr> cs))\<rparr>)"
proof (induction cs arbitrary: p xs)
  case (Cons c cs)
  obtain p1 ys where w: "pw_write p \<lparr>printed = []\<rparr> c = (p1, \<lparr>printed = ys\<rparr>)" by (metis progress.cases surj_pair)
  have w': "pw_write p \<lparr>printed = xs\<rparr> c = (p1, \<lparr>printed = xs @ ys\<rparr>)" by (subst pw_write_printed) (simp add: w)
  show ?case
    using Cons.IH [of p1 ys, THEN conjunct1] Cons.IH [of p1 ys, THEN conjunct2] Cons.IH [of p1 "xs @ ys", THEN conjunct2]
    by (simp add: w w')
qed simp

lemma relay_run_append: "relay_run (es @ fs) p =
    (fst (relay_run fs (fst (relay_run es p))), snd (relay_run es p) @ snd (relay_run fs (fst (relay_run es p))))"
  by (induction es arbitrary: p) (auto split: prod.splits)

lemma relay_run_stream: "relay_run (map Log_chunk cs @ [Log_end]) (leading l) = (leading l, stream_lines l (concat cs))"
proof -
  have "pw_write_all (leading l) \<lparr>printed = []\<rparr> cs = pw_write (leading l) \<lparr>printed = []\<rparr> (concat cs)"
    by (rule pw_write_all_concat) (simp add: leading_def)
  then show ?thesis
    using relay_run_chunks [of cs "leading l" "[]", THEN conjunct1]
    by (simp add: relay_run_append pw_write_def leading_def drain_spec stream_lines_def Let_def pw_flush_def printf_line_def)
qed

text \<open>C40: however the daemons cut the logs into chunks and however the streams take turns, the lines a
  container is shown with are exactly the lines of its own log, complete and in order, each behind
  the lead of its node and name, and nothing is printed for a container that is not listed.\<close>

theorem logs_interleave:
  assumes "\<And>i. i < length ls \<Longrightarrow> events_of i schedule = map Log_chunk (chunks i) @ [Log_end]"
    and "\<And>i e. (i, e) \<in> set schedule \<Longrightarrow> i < length ls"
  shows "(\<forall>i < length ls. events_of i (streamLogs colored ls schedule)
        = stream_lines (log_leads colored ls ! i) (concat (chunks i)))
    \<and> (\<forall>(i, line) \<in> set (streamLogs colored ls schedule). i < length ls)"
proof -
  let ?st = "(\<lambda>i. leading (if i < length ls then log_leads colored ls ! i else []), [])"
  have own: "events_of i (streamLogs colored ls schedule) = stream_lines (log_leads colored ls ! i) (concat (chunks i))"
    if "i < length ls" for i
    using fold_log_step [of schedule ?st i, THEN conjunct2] that
    by (simp add: streamLogs_def assms(1) relay_run_stream)
  have none: "events_of i (streamLogs colored ls schedule) = []" if "\<not> i < length ls" for i
  proof -
    have "events_of i schedule = []" using assms(2) that by (auto simp: events_of_def filter_empty_conv)
    then show ?thesis using fold_log_step [of schedule ?st i, THEN conjunct2] by (simp add: streamLogs_def)
  qed
  have "i < length ls" if "(i, line) \<in> set (streamLogs colored ls schedule)" for i line
  proof (rule ccontr)
    assume "\<not> i < length ls"
    from none [OF this] that show False by (auto simp: events_of_def filter_empty_conv)
  qed
  with own show ?thesis by blast
qed

definition two_listed :: "listed list" where
  "two_listed = map (\<lambda>n. \<lparr>l_ssh = ''a'', l_name = n, l_summary = \<lparr>sm_names = [CHR ''/'' # n], sm_image = [],
     sm_command = [], sm_status = [], sm_ports = []\<rparr>\<rparr>) [''x'', ''yy'']"

text \<open>Two containers whose chunks take turns in the middle of their lines.\<close>

theorem logs_interleave_witness:
  "events_of 0 (streamLogs False two_listed [(0, Log_chunk ''on''), (1, Log_chunk ''two''), (0, Log_chunk [CHR ''e'', newline]),
      (1, Log_end), (0, Log_end)]) = [''a/x  | one'']"
proof -
  let ?schedule = "[(0, Log_chunk ''on''), (1, Log_chunk ''two''), (0, Log_chunk [CHR ''e'', newline]), (1, Log_end), (0, Log_end)]"
  let ?chunks = "\<lambda>i :: nat. if i = 0 then [''on'', [CHR ''e'', newline]] else [''two'']"
  have len: "length two_listed = 2" by (simp add: two_listed_def)
  have "events_of i ?schedule = map Log_chunk (?chunks i) @ [Log_end]" if "i < length two_listed" for i
    using that len by (auto simp: less_Suc_eq numeral_2_eq_2)
  moreover have "i < length two_listed" if "(i, e) \<in> set ?schedule" for i e
    using that len by auto
  ultimately have "events_of 0 (streamLogs False two_listed ?schedule)
      = stream_lines (log_leads False two_listed ! 0) (concat (?chunks 0))"
    using logs_interleave [of two_listed ?schedule ?chunks False] len by simp
  also have "\<dots> = [''a/x  | one'']" by code_simp
  finally show ?thesis .
qed

end
