(* ===== verification/Spec2Isabelle.thy ===== *)
theory Spec2Isabelle
  imports Zisk_Proof Framing Output Serve_Provers Estimate_Complete Atomic_File Supervisor Journal Ere_Server
    Lifecycle Log_Stream
begin

text \<open>
  A verification of provoor, which deploys zkVM proving clusters and forwards benchmark requests to
  them. Every definition is translated from the Go sources under \<open>src/\<close>; this header says which
  theory models which file, how the parts meet, what is proved of each and what is left out.

  \<^bold>\<open>The program.\<close> \<open>cmd/provoor\<close> reads a cluster configuration and has four uses. \<open>up\<close>
  and \<open>down\<close> deploy and remove the containers of a ZisK or an OpenVM cluster on hosts reached over
  ssh; \<open>ps\<close>, \<open>logs\<close> and \<open>logs dump\<close> show what was deployed; \<open>serve\<close> dials a
  cluster, warms it up and proves one payload per JSON-RPC call, verifying every proof with a native
  library before it answers; \<open>estimate\<close> and \<open>profile\<close> measure the proving cost of a suite of
  tests on a local ere-server. \<open>cmd/zisk-supervisor\<close> runs the ZisK coordinator inside its container
  and ends it on request.

  \<^bold>\<open>Shared theories.\<close> \<open>Prelude\<close>: 64-bit integers with their wrap-around, results as sums, Go's
  comparison functions and sorting (locale \<open>key_comparator\<close>). \<open>Bytes\<close>, \<open>Go_Text\<close>,
  \<open>Wire_Text\<close>: byte strings, the text functions of Go's library, hex and line scanning.
  \<open>Runtime\<close>: the clock, contexts as the time at which they end, calls of a service, retry loops
  (locale \<open>paced\<close>).
  \<open>Io\<close>: programs over that machine that stop at the first error, with what they grow, see and
  give; the deployments are written in it.

  \<^bold>\<open>Proving\<close> (\<open>internal/zisk\<close>, \<open>internal/openvm\<close>, \<open>internal/serve\<close>,
  \<open>internal/ereverifier\<close>).
  \<^item> \<open>Bincode\<close>, \<open>Zisk_Proof\<close> (\<open>zisk/proof.go\<close>): the sticky-error bincode reader and
    \<open>transcodeProof\<close>; an encoding relation is the specification, and the transcoder accepts exactly
    its spellings and rewrites them word for word (locale \<open>decoder\<close>).
  \<^item> \<open>Framing\<close> (\<open>framedStdin\<close> of both clients): the framings are read back (locale \<open>stdin_frame\<close>).
  \<^item> \<open>Verifier\<close> (\<open>ereverifier/verifier.go\<close>): the handle over the native library, a parameter
    \<open>lib\<close>; the guard of the clients as a step relation in which nothing runs on a freed handle.
  \<^item> \<open>Zisk_Client\<close>, \<open>Zisk_Prove\<close> (\<open>zisk/client.go\<close>) and \<open>Openvm_Client\<close>,
    \<open>Openvm_Prove\<close> (\<open>openvm/client.go\<close>): restart, registration and setup, submission with its
    retries, the wait, cancellation, download and verification. The cluster is an arbitrary service
    \<open>srv\<close>; what is proved holds whatever it answers: a proof is reported only if the bound
    verifier accepted it, one cancellation is sent exactly when an admitted proof timed out, a client
    is dialed only on the key it was given, and every operation returns.
  \<^item> \<open>Pipeline\<close>, \<open>Zisk_Pipeline\<close>, \<open>Openvm_Pipeline\<close> (the \<open>pipeline.go\<close> files): the
    timelines, as the bars of abstract placements.
  \<^item> \<open>Serve\<close> (\<open>serve/server.go\<close>): the handler over any prover (locale \<open>prover\<close>);
    \<open>Serve_Provers\<close> interprets it on the two clients, so VALID rests on the verifier.

  \<^bold>\<open>Deploying\<close> (\<open>internal/cluster\<close>, \<open>internal/zisk\<close>, \<open>internal/openvm\<close>).
  \<^item> \<open>Cluster_Config\<close>, \<open>Zisk_Config\<close>, \<open>Openvm_Config\<close> (the \<open>config.go\<close> files):
    defaults, validation with its first error, the containers listed. Validation accepts exactly the
    well formed configurations. \<open>Hosts\<close> (\<open>cluster/docker.go\<close>): dialing, and the locale
    \<open>backend\<close>, interpreted on both configurations and on a loaded one.
  \<^item> \<open>Container\<close>, \<open>Zisk_Spec\<close>, \<open>Openvm_Spec\<close> (\<open>docker.go\<close>, \<open>sidecar.go\<close>, the
    \<open>spec.go\<close> files): the container specifications, command lines and configuration files, the
    capacity floor and the processor shares.
  \<^item> \<open>Daemon\<close> (\<open>docker.go\<close>, \<open>sidecar.go\<close>): the operations on one Docker daemon.
    \<open>Daemon_Proofs\<close> says what those that end without an error have done, as the requests made and
    the answers given; \<open>Daemon_Ends\<close> that they all end; \<open>Healthy\<close> is a daemon on which they
    all succeed.
  \<^item> \<open>Fleet\<close>: the machines of all hosts, with a group of goroutines as a list of tasks.
    \<open>Guests\<close> (\<open>guest.go\<close>), \<open>Zisk_Deploy\<close>, \<open>Openvm_Deploy\<close> (the \<open>deploy.go\<close>
    files): \<open>Up\<close> and \<open>Down\<close>. \<open>Zisk_Up\<close>, \<open>Openvm_Up\<close>: what a cluster that is up has
    been through, in order; \<open>Deploy_Ends\<close>: the commands return; \<open>Deploy_Down\<close>: what a teardown
    asked for whatever failed.
  \<^item> \<open>Output\<close>, \<open>Inspect\<close>, \<open>Log_Stream\<close>, \<open>Journal\<close> (\<open>output.go\<close>,
    \<open>inspect.go\<close>, \<open>journal.go\<close>): relayed lines, listings, streamed logs and dumped journals.
  \<^item> \<open>Commands\<close>, \<open>Lifecycle\<close> (\<open>cmd/provoor/main.go\<close> and the loading of
    \<open>config.go\<close>): the commands from the file to their end or, for \<open>serve\<close>, to the open port.
  \<^item> \<open>Supervisor\<close> (\<open>cmd/zisk-supervisor/main.go\<close>): the goroutines of the process as an
    inductive step relation, with invariants over its runs.

  \<^bold>\<open>Estimating\<close> (\<open>internal/estimate\<close>, \<open>internal/ereserver\<close>). \<open>Estimate\<close>,
  \<open>Estimate_Run\<close>, \<open>Estimate_Proofs\<close>, \<open>Estimate_Complete\<close>: the artifact on disk, its
  merging, reuse and resumption and the loop over the workers' deliveries, in any order; every record
  on disk is justified and the artifact does not depend on the order. \<open>Atomic_File\<close>: the
  replacement of a file on a disk whose operations may fail. \<open>Ere_Client\<close>, \<open>Ere_Server\<close>: the
  calls of an ere-server, and its container from the start to the removal.

  \<^bold>\<open>Choices.\<close> Time is in nanoseconds and moves only with calls and sleeps. A context is the time at
  which it ends, so a deadline and a cancellation are not told apart, and a sleep that ends together
  with its context reports the context. The context of a group of goroutines, which the first failure
  ends early, is the choice \<open>gctx\<close> of the environment: what is proved holds for every choice. Hosts
  share nothing, so the tasks of a group on different hosts commute; tasks on one host take turns.
  The order Go ranges over a map in is a parameter (\<open>ord\<close>, \<open>korder\<close>). Text is bytes; white space,
  digits and the runes counted in a table are those of ASCII. Durations computed with floats are exact
  rationals. An error is a constructor with the text and values the code formats; where a message
  quotes a value, the escapes Go adds to special characters are left out.

  \<^bold>\<open>Parameters.\<close> What is not under \<open>src/\<close> is an argument: the Docker daemons, the coordinator and
  the manager, HTTP and gRPC, JSON, YAML, TOML, protobuf and pprof codecs, SHA-256, the file system,
  the random source and the native verifier. Hypotheses on them appear only where a theorem needs one:
  that a map is ranged over completely, or, for the clients to return, that a call whose context ended
  answers with an error and takes some time.

  \<^bold>\<open>Fuel.\<close> A polling loop takes fuel, a bound on its rounds, and gives \<open>None\<close> without it. Fuel is
  never assumed to suffice: every round sleeps, so the deadline of a wait bounds its rounds. A
  deployment returns with any fuel above 1000 (the longest wait of rounds is the 200 ms poll of a
  command within 120 s, 600 rounds), a start of an ere-server above its 600 polls of 2 s within 20
  minutes, and a proof with the fuel computed from its deadline and the time a call takes.

  \<^bold>\<open>Not modelled.\<close> The generated protobuf and gRPC code and the linker directives of
  \<open>ereverifier/link.go\<close>. The embedded shell scripts, run inside containers, which are parameters.
  Flag parsing, the HTTP server behind the open port, signals and progress lines. The age column and
  the padding of the \<open>ps\<close> table, and the test for a terminal. The preparation of fixtures and suites
  by benchmarkoor, whose results are parameters of the estimates, and the channels between their
  workers, which appear as the order of the deliveries.
\<close>

section \<open>A deployment from the file to the ready cluster\<close>



end
